(* ===== verification/Prelude.thy ===== *)
theory Prelude
  imports Complex_Main "HOL-Library.Word" "HOL-Library.AList" "HOL-Library.Code_Target_Nat"
begin

text \<open>
  What the components share: the widths of the machine integers, the error values a C++ call can
  end in, the bind of fallible code, and generic lemmas on association lists and options.
\<close>

type_synonym u8 = "8 word"
type_synonym u16 = "16 word"
type_synonym u32 = "32 word"
type_synonym u64 = "64 word"
type_synonym byte = "8 word"
type_synonym bytes = "byte list"

named_theorems model_defs \<open>definitions a component proof may unfold\<close>
named_theorems split_rules \<open>elimination rules for successful fallible calls\<close>

section \<open>Fallible code\<close>

text \<open>
  A C++ call returns or leaves by an exception. \<open>Terminate\<close> is the call of \<^verbatim>\<open>std::terminate\<close> by a
  \<^verbatim>\<open>noexcept\<close> function an exception would leave; \<open>Undefined\<close> is undefined behaviour.
\<close>

datatype exn =
    InvalidArgument
  | OutOfRange
  | OverflowError
  | LengthError
  | Terminate
  | Undefined

type_synonym 'a res = "exn + 'a"

definition rbind :: "'a res \<Rightarrow> ('a \<Rightarrow> 'b res) \<Rightarrow> 'b res" where
  "rbind m f = (case m of Inl e \<Rightarrow> Inl e | Inr x \<Rightarrow> f x)"

lemma rbind_simps [simp]: "rbind (Inl e) f = Inl e" "rbind (Inr x) f = f x"
  by (simp_all add: rbind_def)

lemma rbind_InrE [elim!, split_rules]:
  assumes "rbind m f = Inr y"
  obtains x where "m = Inr x" "f x = Inr y"
  using assms by (cases m) auto

lemma rbind_cong [fundef_cong]:
  "m = m' \<Longrightarrow> (\<And>x. m' = Inr x \<Longrightarrow> f x = f' x) \<Longrightarrow> rbind m f = rbind m' f'"
  by (cases m') (auto simp: rbind_def)

text \<open>A \<^verbatim>\<open>noexcept\<close> function: an exception inside ends the program.\<close>

definition noexcept :: "'a res \<Rightarrow> 'a res" where
  "noexcept m = (case m of
     Inl e \<Rightarrow> (if e = Undefined then Inl Undefined else Inl Terminate) | Inr x \<Rightarrow> Inr x)"

lemma noexcept_Inr [simp]: "noexcept (Inr x) = Inr x"
  by (simp add: noexcept_def)

lemma noexcept_eq_Inr [simp]: "noexcept m = Inr x \<longleftrightarrow> m = Inr x"
  by (cases m) (auto simp: noexcept_def split: if_splits)

section \<open>Integer division\<close>

lemma int_div_less_iff: assumes "0 < (b::int)" shows "m div b < a \<longleftrightarrow> m < a * b"
proof
  assume "m div b < a"
  then have "(m div b + 1) * b \<le> a * b" using assms by (intro mult_right_mono) auto
  moreover have "m < (m div b + 1) * b"
    unfolding distrib_right using pos_mod_bound [OF assms, of m] div_mult_mod_eq [of m b] by linarith
  ultimately show "m < a * b" by simp
next
  assume "m < a * b"
  show "m div b < a"
  proof (rule ccontr)
    assume "\<not> m div b < a"
    then have "a * b \<le> m div b * b" using assms by (intro mult_right_mono) auto
    also have "\<dots> \<le> m" using pos_mod_sign [OF assms, of m] div_mult_mod_eq [of m b] by linarith
    finally show False using \<open>m < a * b\<close> by simp
  qed
qed

section \<open>Lists\<close>

lemma of_nat_sum_list: "of_nat (sum_list ns) = sum_list (map of_nat ns)"
  by (induction ns) simp_all


lemma count_list_distinct: "distinct xs \<Longrightarrow> count_list xs x = (if x \<in> set xs then 1 else 0)"
  by (induction xs) (auto simp: count_list_0_iff)

lemma sorted_map_last: "sorted (map f xs) \<Longrightarrow> x \<in> set xs \<Longrightarrow> f x \<le> f (last xs)"
  by (induction xs) auto

lemma count_list_replicate_self [simp]: "count_list (replicate n b) b = n"
  by (induction n) simp_all

section \<open>Association lists\<close>

lemma length_update_present: "map_of al k \<noteq> None \<Longrightarrow> length (AList.update k v al) = length al"
  by (induction al) auto

lemma sum_list_update_present:
  fixes f :: "'v \<Rightarrow> nat"
  assumes "distinct (map fst al)" "map_of al k = Some v"
  shows "sum_list (map (f \<circ> snd) (AList.update k w al)) + f v = sum_list (map (f \<circ> snd) al) + f w"
  using assms by (induction al) (auto split: if_splits simp: rev_image_eqI)

end
