(* ===== verification/Ids.thy ===== *)
theory Ids
  imports Prelude
begin

unbundle bit_operations_syntax

text \<open>
  The identities, generations and device UUIDs of \<^verbatim>\<open>ids.hpp\<close>. The C++ templates \<^verbatim>\<open>StrongId<Tag>\<close> and
  \<^verbatim>\<open>Generation<Tag>\<close> are datatypes with a phantom tag, so identities of different kinds have
  different types here too; the payload is the 64-bit word the code keeps. The static allocator
  of a tag is the counter its \<open>allocate\<close> takes and returns.
\<close>

section \<open>Strong identifiers\<close>

datatype 'tag strong_id = StrongId (raw: u64)

definition id_invalid :: "'tag strong_id" where "id_invalid = StrongId 0"
definition is_valid :: "'tag strong_id \<Rightarrow> bool" where "is_valid i \<longleftrightarrow> raw i \<noteq> 0"

definition allocate :: "u64 \<Rightarrow> 'tag strong_id \<times> u64" where
  "allocate ctr = (StrongId ctr, ctr + 1)"

instantiation strong_id :: (type) linorder
begin
definition less_eq_strong_id :: "'a strong_id \<Rightarrow> 'a strong_id \<Rightarrow> bool" where
  "less_eq_strong_id a b \<longleftrightarrow> raw a \<le> raw b"
definition less_strong_id :: "'a strong_id \<Rightarrow> 'a strong_id \<Rightarrow> bool" where
  "less_strong_id a b \<longleftrightarrow> raw a < raw b"
instance
  by standard (auto simp: less_eq_strong_id_def less_strong_id_def strong_id.expand)
end

section \<open>Generations\<close>

datatype 'tag generation = Generation (gen_raw: u64)

definition gen_null :: "'tag generation" where "gen_null = Generation 0"
definition gen_first :: "'tag generation" where "gen_first = Generation 1"
definition is_null :: "'tag generation \<Rightarrow> bool" where "is_null g \<longleftrightarrow> gen_raw g = 0"

definition gen_next :: "'tag generation \<Rightarrow> 'tag generation" where
  "gen_next g = Generation (gen_raw g + 1)"

instantiation generation :: (type) linorder
begin
definition less_eq_generation :: "'a generation \<Rightarrow> 'a generation \<Rightarrow> bool" where
  "less_eq_generation a b \<longleftrightarrow> gen_raw a \<le> gen_raw b"
definition less_generation :: "'a generation \<Rightarrow> 'a generation \<Rightarrow> bool" where
  "less_generation a b \<longleftrightarrow> gen_raw a < gen_raw b"
instance
  by standard (auto simp: less_eq_generation_def less_generation_def generation.expand)
end

section \<open>Tags\<close>

typedecl governor_id_tag
typedecl node_id_tag
typedecl accelerator_id_tag
typedecl worker_id_tag
typedecl worker_boot_id_tag
typedecl workload_id_tag
typedecl request_class_id_tag
typedecl budget_id_tag
typedecl policy_id_tag
typedecl observation_id_tag
typedecl decision_id_tag
typedecl power_domain_id_tag
typedecl energy_window_id_tag
typedecl thermal_domain_id_tag
typedecl reservation_id_tag
typedecl coordinator_epoch_tag
typedecl governor_generation_tag
typedecl policy_generation_tag
typedecl device_generation_tag
typedecl observation_generation_tag
typedecl budget_generation_tag
typedecl decision_generation_tag
typedecl reservation_generation_tag
typedecl workload_generation_tag
typedecl thermal_generation_tag
typedecl energy_generation_tag

type_synonym governor_id = "governor_id_tag strong_id"
type_synonym node_id = "node_id_tag strong_id"
type_synonym accelerator_id = "accelerator_id_tag strong_id"
type_synonym worker_id = "worker_id_tag strong_id"
type_synonym worker_boot_id = "worker_boot_id_tag strong_id"
type_synonym workload_id = "workload_id_tag strong_id"
type_synonym request_class_id = "request_class_id_tag strong_id"
type_synonym budget_id = "budget_id_tag strong_id"
type_synonym policy_id = "policy_id_tag strong_id"
type_synonym observation_id = "observation_id_tag strong_id"
type_synonym decision_id = "decision_id_tag strong_id"
type_synonym power_domain_id = "power_domain_id_tag strong_id"
type_synonym energy_window_id = "energy_window_id_tag strong_id"
type_synonym thermal_domain_id = "thermal_domain_id_tag strong_id"
type_synonym reservation_id = "reservation_id_tag strong_id"
type_synonym coordinator_epoch = "coordinator_epoch_tag generation"
type_synonym governor_generation = "governor_generation_tag generation"
type_synonym policy_generation = "policy_generation_tag generation"
type_synonym device_generation = "device_generation_tag generation"
type_synonym observation_generation = "observation_generation_tag generation"
type_synonym budget_generation = "budget_generation_tag generation"
type_synonym decision_generation = "decision_generation_tag generation"
type_synonym reservation_generation = "reservation_generation_tag generation"
type_synonym workload_generation = "workload_generation_tag generation"
type_synonym thermal_generation = "thermal_generation_tag generation"
type_synonym energy_generation = "energy_generation_tag generation"

section \<open>Device UUIDs\<close>

text \<open>A \<^verbatim>\<open>std::array<std::uint8_t, 16>\<close>: a list of 16 bytes.\<close>

type_synonym uuid = bytes

definition uuid_zero :: uuid where "uuid_zero = replicate 16 0"

definition uuid_is_zero :: "uuid \<Rightarrow> bool" where "uuid_is_zero u \<longleftrightarrow> (\<forall>b \<in> set u. b = 0)"

definition u32_be :: "u32 \<Rightarrow> bytes" where
  "u32_be v = [ucast (drop_bit 24 v AND 0xFF), ucast (drop_bit 16 v AND 0xFF),
               ucast (drop_bit 8 v AND 0xFF), ucast (v AND 0xFF)]"

definition uuid_of_words :: "u32 \<Rightarrow> u32 \<Rightarrow> u32 \<Rightarrow> u32 \<Rightarrow> uuid" where
  "uuid_of_words a b c d = u32_be a @ u32_be b @ u32_be c @ u32_be d"

definition from_counter :: "u64 \<Rightarrow> uuid" where
  "from_counter n = map (\<lambda>i. ucast (drop_bit (i * 8) n AND 0xFF)) [0..<8]
                  @ map (\<lambda>i. of_nat (i + 1) AND 0xFF) [0..<8]"

definition uuid_hash :: "uuid \<Rightarrow> u64" where
  "uuid_hash u = foldl (\<lambda>h b. (h XOR ucast b) * 1099511628211) 1469598103934665603 u"

datatype hex_class = HexDigit nat | HexSep | HexBad

definition classify_hex :: "char \<Rightarrow> hex_class" where
  "classify_hex ch = (let c = (of_char ch :: nat) in
     if 48 \<le> c \<and> c \<le> 57 then HexDigit (c - 48)
     else if 97 \<le> c \<and> c \<le> 102 then HexDigit (c - 97 + 10)
     else if 65 \<le> c \<and> c \<le> 70 then HexDigit (c - 65 + 10)
     else if ch = CHR ''-'' \<or> ch = CHR '':'' then HexSep
     else HexBad)"

fun from_hex_loop :: "uuid \<Rightarrow> nat \<Rightarrow> string \<Rightarrow> (uuid \<times> nat) res" where
  "from_hex_loop u nibbles [] = Inr (u, nibbles)"
| "from_hex_loop u nibbles (c # s) = (case classify_hex c of
     HexSep \<Rightarrow> from_hex_loop u nibbles s
   | HexBad \<Rightarrow> Inl InvalidArgument
   | HexDigit v \<Rightarrow>
       if 32 \<le> nibbles then Inl InvalidArgument
       else let i = nibbles div 2; shift = (if nibbles mod 2 = 0 then 4 else 0)
            in from_hex_loop (u[i := (u ! i) OR push_bit shift (of_nat v)]) (Suc nibbles) s)"

definition from_hex :: "string \<Rightarrow> uuid res" where
  "from_hex s = rbind (from_hex_loop uuid_zero 0 s) (\<lambda>(u, nibbles).
     if nibbles \<noteq> 32 then Inl InvalidArgument else Inr u)"

definition hex_digit :: "nat \<Rightarrow> char" where
  "hex_digit i = ''0123456789abcdef'' ! i"

definition hex_byte :: "byte \<Rightarrow> string" where
  "hex_byte b = [hex_digit (unat (drop_bit 4 b)), hex_digit (unat (b AND 0x0F))]"

definition to_hex_at :: "uuid \<Rightarrow> nat \<Rightarrow> string" where
  "to_hex_at u i = (if i = 4 \<or> i = 6 \<or> i = 8 \<or> i = 10 then ''-'' else []) @ hex_byte (u ! i)"

definition uuid_to_hex :: "uuid \<Rightarrow> string" where
  "uuid_to_hex u = concat (map (to_hex_at u) [0..<16])"

section \<open>Allocation and generations\<close>

lemma is_valid_StrongId [simp]: "is_valid (StrongId n) \<longleftrightarrow> n \<noteq> 0"
  by (simp add: is_valid_def)

lemma is_null_Generation [simp]: "is_null (Generation n) \<longleftrightarrow> n = 0"
  by (simp add: is_null_def)

lemma gen_next_greater: assumes "gen_raw g \<noteq> - 1" shows "g < gen_next g"
proof -
  have "1 + gen_raw g \<noteq> 0" using assms by (metis add_eq_0_iff)
  then have "unat (1 + gen_raw g) = Suc (unat (gen_raw g))" by (rule unatSuc)
  then show ?thesis by (simp add: less_generation_def gen_next_def word_less_nat_alt add.commute)
qed

text \<open>A counter that has not wrapped hands out identifiers that differ from every earlier one.\<close>

lemma allocate_fresh:
  assumes "unat (raw i) < unat n" shows "fst (allocate n) \<noteq> i"
  using assms by (auto simp: allocate_def)

section \<open>UUID round trip\<close>

lemma hex_digit_class: assumes "i < 16" shows "classify_hex (hex_digit i) = HexDigit i"
proof -
  have "i \<in> set [0..<16]" using assms by simp
  moreover have "\<forall>i \<in> set [0..<16]. classify_hex (hex_digit i) = HexDigit i"
    by code_simp
  ultimately show ?thesis by blast
qed

lemma dash_class: "classify_hex (CHR ''-'') = HexSep"
  by code_simp

lemma nibble_bounds: "unat (drop_bit 4 (b::byte)) < 16" "unat (b AND 0x0F) < 16"
proof -
  have "unat b < 2 ^ LENGTH(8)" by (rule unsigned_less)
  then show "unat (drop_bit 4 b) < 16"
    by (simp add: drop_bit_eq_div unat_div less_mult_imp_div_less)
  have "unat (b AND 0x0F) \<le> unat (0x0F :: byte)"
    by (rule word_and_le1 [THEN word_le_nat_alt [THEN iffD1]])
  then show "unat (b AND 0x0F) < 16" by simp
qed

lemma nibble_join: "push_bit 4 (drop_bit 4 (b::byte)) OR (b AND 0x0F) = b"
proof -
  have m: "(0x0F :: byte) = mask 4" by (simp add: mask_eq_exp_minus_1)
  show ?thesis unfolding m by (rule bit_word_eqI) (auto simp: bit_simps)
qed

text \<open>One step of the parser: two digits of a byte of the printed form fill one byte of the
  array.\<close>

lemma from_hex_loop_byte:
  assumes "length u = 16" "i < 16" "u ! i = 0"
  shows "from_hex_loop u (2 * i) (hex_byte b @ s) = from_hex_loop (u[i := b]) (2 * Suc i) s"
proof -
  let ?v = "u[i := push_bit 4 (drop_bit 4 b)]"
  have "from_hex_loop u (2 * i) (hex_byte b @ s)
      = from_hex_loop ?v (Suc (2 * i)) (hex_digit (unat (b AND 0x0F)) # s)"
    using assms by (simp add: hex_byte_def hex_digit_class nibble_bounds Let_def)
  also have "\<dots> = from_hex_loop (?v[i := ?v ! i OR (b AND 0x0F)]) (Suc (Suc (2 * i))) s"
    using assms by (simp add: hex_digit_class nibble_bounds Let_def del: nth_list_update_eq)
  also have "?v ! i OR (b AND 0x0F) = b" using assms by (simp add: nibble_join)
  finally show ?thesis by simp
qed

lemma from_hex_loop_at:
  assumes "length u = 16" "i < 16" "u ! i = 0"
  shows "from_hex_loop u (2 * i) (to_hex_at w i @ s) = from_hex_loop (u[i := w ! i]) (2 * Suc i) s"
  using from_hex_loop_byte [OF assms] by (simp add: to_hex_at_def dash_class)

lemma from_hex_loop_rest:
  assumes "length w = 16" "i \<le> 16"
  shows "from_hex_loop (take i w @ replicate (16 - i) 0) (2 * i) (concat (map (to_hex_at w) [i..<16]))
       = Inr (w, 32)"
  using assms(2)
proof (induction "16 - i" arbitrary: i)
  case 0
  then show ?case using assms(1) by simp
next
  case (Suc n)
  let ?u = "take i w @ replicate (16 - i) 0"
  from Suc have i: "i < 16" by simp
  then have ups: "[i..<16] = i # [Suc i..<16]" by (simp add: upt_conv_Cons)
  have upd: "?u[i := w ! i] = take (Suc i) w @ replicate (16 - Suc i) 0"
    using i assms(1) by (simp add: take_Suc_conv_app_nth list_update_append Suc_diff_Suc [symmetric])
  have "from_hex_loop ?u (2 * i) (concat (map (to_hex_at w) [i..<16]))
      = from_hex_loop (?u[i := w ! i]) (2 * Suc i) (concat (map (to_hex_at w) [Suc i..<16]))"
    unfolding ups using i assms(1) by (simp add: from_hex_loop_at nth_append del: upt_Suc mult_Suc_right)
  also have "\<dots> = Inr (w, 32)" unfolding upd using Suc by (intro Suc.hyps) auto
  finally show ?case .
qed

lemma from_hex_to_hex: "length w = 16 \<Longrightarrow> from_hex (uuid_to_hex w) = Inr w"
  using from_hex_loop_rest [of w 0] by (simp add: from_hex_def uuid_to_hex_def uuid_zero_def)

end
