(* ===== verification/Binary64.thy ===== *)
theory Binary64
  imports Prelude "HOL-Library.Log_Nat"
begin

text \<open>
  The C++ type \<^verbatim>\<open>double\<close> as the sources use it: IEEE-754 binary64 with rounding to nearest,
  ties to even, gradual underflow, infinities and NaN. A finite value is carried as the exact
  rational it denotes; every arithmetic operation computes the exact result and rounds it with
  \<open>rnd64\<close>. The two zeros are identified (no code under the repository divides by a computed zero
  or inspects a sign bit). Comparisons are the IEEE ones: every comparison with NaN is false.
\<close>

section \<open>Values and rounding\<close>

datatype double = Fin rat | PInf | NInf | NaN

text \<open>Round a rational to the nearest integer, ties to even.\<close>

definition rhe :: "rat \<Rightarrow> int" where
  "rhe x = (let n = \<lfloor>x\<rfloor>; d = x - of_int n in
     if d < 1 / 2 then n else if 1 / 2 < d then n + 1 else if even n then n else n + 1)"

text \<open>
  A non-negative rational is scaled by \<open>2 ^ 1074\<close>, the inverse of the smallest positive double.
  \<open>ulp_shift\<close> is the number of low bits of the scaled integer part that a 53-bit significand
  cannot hold; it is 0 in the subnormal range and in the lowest normal binade.
\<close>

definition ulp_shift :: "rat \<Rightarrow> nat" where
  "ulp_shift y = floorlog 2 (nat \<lfloor>y\<rfloor>) - 53"

definition fl_scaled :: "rat \<Rightarrow> rat" where
  "fl_scaled y = of_int (rhe (y / 2 ^ ulp_shift y)) * 2 ^ ulp_shift y"

definition fl_scale :: rat where
  "fl_scale = 2 ^ 1074"

definition fl_pos :: "rat \<Rightarrow> rat" where
  "fl_pos x = fl_scaled (x * fl_scale) / fl_scale"

definition fl_max :: rat where
  "fl_max = of_int (2 ^ 53 - 1) * 2 ^ 971"

definition fl :: "rat \<Rightarrow> rat" where
  "fl x = (if x < 0 then - fl_pos (- x) else fl_pos x)"

definition rnd64 :: "rat \<Rightarrow> double" where
  "rnd64 x = (if fl_max < fl x then PInf else if fl x < - fl_max then NInf else Fin (fl x))"

section \<open>Arithmetic and comparison\<close>

fun add64 :: "double \<Rightarrow> double \<Rightarrow> double" where
  "add64 (Fin a) (Fin b) = rnd64 (a + b)"
| "add64 NaN _ = NaN"
| "add64 _ NaN = NaN"
| "add64 PInf NInf = NaN"
| "add64 NInf PInf = NaN"
| "add64 PInf _ = PInf"
| "add64 NInf _ = NInf"
| "add64 _ PInf = PInf"
| "add64 _ NInf = NInf"

fun neg64 :: "double \<Rightarrow> double" where
  "neg64 (Fin a) = Fin (- a)"
| "neg64 PInf = NInf"
| "neg64 NInf = PInf"
| "neg64 NaN = NaN"

text \<open>The product or quotient with an infinite factor: its sign, and NaN for \<open>0 * \<infinity>\<close>.\<close>

definition signed_inf :: "rat \<Rightarrow> double" where
  "signed_inf s = (if 0 < s then PInf else if s < 0 then NInf else NaN)"

fun mul64 :: "double \<Rightarrow> double \<Rightarrow> double" where
  "mul64 (Fin a) (Fin b) = rnd64 (a * b)"
| "mul64 NaN _ = NaN"
| "mul64 _ NaN = NaN"
| "mul64 (Fin a) PInf = signed_inf a"
| "mul64 (Fin a) NInf = signed_inf (- a)"
| "mul64 PInf (Fin b) = signed_inf b"
| "mul64 NInf (Fin b) = signed_inf (- b)"
| "mul64 PInf PInf = PInf"
| "mul64 PInf NInf = NInf"
| "mul64 NInf PInf = NInf"
| "mul64 NInf NInf = PInf"

fun div64 :: "double \<Rightarrow> double \<Rightarrow> double" where
  "div64 (Fin a) (Fin b) = (if b = 0 then signed_inf a else rnd64 (a / b))"
| "div64 NaN _ = NaN"
| "div64 _ NaN = NaN"
| "div64 (Fin a) PInf = Fin 0"
| "div64 (Fin a) NInf = Fin 0"
| "div64 PInf (Fin b) = (if b < 0 then NInf else PInf)"
| "div64 NInf (Fin b) = (if b < 0 then PInf else NInf)"
| "div64 _ _ = NaN"

fun lt64 :: "double \<Rightarrow> double \<Rightarrow> bool" where
  "lt64 (Fin a) (Fin b) = (a < b)"
| "lt64 NaN _ = False"
| "lt64 _ NaN = False"
| "lt64 PInf _ = False"
| "lt64 _ NInf = False"
| "lt64 NInf _ = True"
| "lt64 _ PInf = True"

fun le64 :: "double \<Rightarrow> double \<Rightarrow> bool" where
  "le64 (Fin a) (Fin b) = (a \<le> b)"
| "le64 NaN _ = False"
| "le64 _ NaN = False"
| "le64 NInf _ = True"
| "le64 _ PInf = True"
| "le64 PInf _ = False"
| "le64 _ NInf = False"

instantiation double :: "{plus, minus, times, inverse, ord}"
begin
definition plus_double :: "double \<Rightarrow> double \<Rightarrow> double" where "plus_double = add64"
definition minus_double :: "double \<Rightarrow> double \<Rightarrow> double" where "minus_double x y = add64 x (neg64 y)"
definition times_double :: "double \<Rightarrow> double \<Rightarrow> double" where "times_double = mul64"
definition divide_double :: "double \<Rightarrow> double \<Rightarrow> double" where "divide_double = div64"
definition inverse_double :: "double \<Rightarrow> double" where "inverse_double x = div64 (Fin 1) x"
definition less_double :: "double \<Rightarrow> double \<Rightarrow> bool" where "less_double = lt64"
definition less_eq_double :: "double \<Rightarrow> double \<Rightarrow> bool" where "less_eq_double = le64"
instance ..
end

definition eq64 :: "double \<Rightarrow> double \<Rightarrow> bool" where
  "eq64 x y \<longleftrightarrow> x \<le> y \<and> y \<le> x"

definition isfinite :: "double \<Rightarrow> bool" where
  "isfinite x = (case x of Fin _ \<Rightarrow> True | _ \<Rightarrow> False)"

text \<open>\<^verbatim>\<open>std::min\<close> and \<^verbatim>\<open>std::max\<close> return their first argument unless the second compares strictly
  better.\<close>

definition std_min :: "double \<Rightarrow> double \<Rightarrow> double" where
  "std_min x y = (if y < x then y else x)"

definition std_max :: "double \<Rightarrow> double \<Rightarrow> double" where
  "std_max x y = (if x < y then y else x)"

text \<open>A decimal literal of the source denotes the double nearest to it.\<close>

abbreviation (input) lit :: "rat \<Rightarrow> double" where "lit q \<equiv> rnd64 q"

text \<open>The tolerance \<^verbatim>\<open>1e-9\<close> the accounting code adds before it compares.\<close>

definition eps9 :: double where
  "eps9 = lit (1 / 1000000000)"

text \<open>Conversion of a 64-bit integer, and of a double to \<^verbatim>\<open>std::int64_t\<close> (towards zero; undefined
  behaviour, here \<open>None\<close>, when the truncated value does not fit).\<close>

definition double_of_int :: "int \<Rightarrow> double" where
  "double_of_int n = rnd64 (of_int n)"

definition trunc_rat :: "rat \<Rightarrow> int" where
  "trunc_rat x = (if x < 0 then - \<lfloor>- x\<rfloor> else \<lfloor>x\<rfloor>)"

definition int64_of_double :: "double \<Rightarrow> int option" where
  "int64_of_double x = (case x of
     Fin a \<Rightarrow> (let n = trunc_rat a in if - (2 ^ 63) \<le> n \<and> n < 2 ^ 63 then Some n else None)
   | _ \<Rightarrow> None)"

section \<open>The integer rounding\<close>

lemma rhe_ge: "of_int n \<le> x \<Longrightarrow> n \<le> rhe x"
proof -
  assume "of_int n \<le> x"
  then have "n \<le> \<lfloor>x\<rfloor>" by (simp add: le_floor_iff)
  then show ?thesis by (auto simp: rhe_def Let_def)
qed

lemma rhe_le: assumes "x \<le> of_int n" shows "rhe x \<le> n"
proof (cases "x = of_int n")
  case True
  then show ?thesis by (simp add: rhe_def)
next
  case False
  with assms have "\<lfloor>x\<rfloor> < n" by (simp add: floor_less_iff)
  then show ?thesis by (auto simp: rhe_def Let_def)
qed

lemma rhe_of_int [simp]: "rhe (of_int n) = n"
  by (simp add: rhe_def)

lemma rhe_mono: assumes "x \<le> y" shows "rhe x \<le> rhe y"
proof (cases "\<lfloor>x\<rfloor> = \<lfloor>y\<rfloor>")
  case True
  with assms show ?thesis by (auto simp: rhe_def Let_def)
next
  case False
  with assms have lt: "\<lfloor>x\<rfloor> < \<lfloor>y\<rfloor>" using floor_mono [of x y] by simp
  have "rhe x \<le> \<lfloor>x\<rfloor> + 1" by (auto simp: rhe_def Let_def)
  also have "\<dots> \<le> \<lfloor>y\<rfloor>" using lt by simp
  also have "\<dots> \<le> rhe y" by (rule rhe_ge) simp
  finally show ?thesis .
qed

lemma rhe_cases:
  obtains "rhe x = \<lfloor>x\<rfloor>" "x - of_int \<lfloor>x\<rfloor> \<le> 1 / 2"
  | "rhe x = \<lfloor>x\<rfloor> + 1" "1 / 2 \<le> x - of_int \<lfloor>x\<rfloor>"
proof -
  have "rhe x = \<lfloor>x\<rfloor> \<and> x - of_int \<lfloor>x\<rfloor> \<le> 1 / 2 \<or>
      rhe x = \<lfloor>x\<rfloor> + 1 \<and> 1 / 2 \<le> x - of_int \<lfloor>x\<rfloor>"
    unfolding rhe_def Let_def by (simp split: if_split)
  then show thesis using that by blast
qed

lemma rhe_error: "\<bar>of_int (rhe x) - x\<bar> \<le> 1 / 2"
proof -
  have b: "of_int \<lfloor>x\<rfloor> \<le> x" "x < of_int \<lfloor>x\<rfloor> + 1" by linarith+
  show ?thesis
    by (rule rhe_cases [of x]; simp only: abs_le_iff of_int_add of_int_1; use b in linarith)
qed

section \<open>Rounding to 53 significant bits\<close>

lemma ulp_shift_mono: "x \<le> y \<Longrightarrow> ulp_shift x \<le> ulp_shift y"
  unfolding ulp_shift_def by (intro diff_le_mono floorlog_mono nat_mono floor_mono)

lemma ulp_shift_upper:
  assumes "0 \<le> y" shows "y < 2 ^ (53 + ulp_shift y)"
proof -
  have "nat \<lfloor>y\<rfloor> < 2 ^ (53 + ulp_shift y)"
    by (rule floorlog_leD) (auto simp: ulp_shift_def)
  then have "\<lfloor>y\<rfloor> < 2 ^ (53 + ulp_shift y)"
    using assms by (simp add: nat_less_iff)
  then have "y < of_int (2 ^ (53 + ulp_shift y))"
    by (simp only: floor_less_iff)
  then show ?thesis by simp
qed

lemma ulp_shift_lower:
  assumes "0 < ulp_shift y" shows "2 ^ (52 + ulp_shift y) \<le> y"
proof -
  have "53 + ulp_shift y \<le> floorlog 2 (nat \<lfloor>y\<rfloor>)"
    using assms by (simp add: ulp_shift_def)
  then have "2 ^ (53 + ulp_shift y - 1) \<le> nat \<lfloor>y\<rfloor>"
    by (rule floorlog_geD) simp
  then have "(2::nat) ^ (52 + ulp_shift y) \<le> nat \<lfloor>y\<rfloor>" by simp
  then have "2 ^ (52 + ulp_shift y) \<le> \<lfloor>y\<rfloor>"
    by (metis nat_le_iff of_nat_numeral of_nat_power le_nat_iff zero_le_numeral zero_le_power
        nat_eq_iff2 linear nat_0_le le_zero_eq power_not_zero zero_neq_numeral of_nat_le_iff)
  then show ?thesis by (simp add: le_floor_iff)
qed

lemma fl_scaled_le_pow: assumes "0 \<le> y" shows "fl_scaled y \<le> 2 ^ (53 + ulp_shift y)"
proof -
  have "y / 2 ^ ulp_shift y \<le> of_int (2 ^ 53)"
    using ulp_shift_upper [OF assms] by (simp add: power_add field_simps)
  then have "rhe (y / 2 ^ ulp_shift y) \<le> 2 ^ 53" by (rule rhe_le)
  then have "rat_of_int (rhe (y / 2 ^ ulp_shift y)) \<le> of_int (2 ^ 53)" by (simp only: of_int_le_iff)
  then show ?thesis by (simp add: fl_scaled_def power_add)
qed

lemma fl_scaled_ge_pow: assumes "0 < ulp_shift y" shows "2 ^ (52 + ulp_shift y) \<le> fl_scaled y"
proof -
  have "of_int (2 ^ 52) \<le> y / 2 ^ ulp_shift y"
    using ulp_shift_lower [OF assms] by (simp add: power_add field_simps)
  then have "2 ^ 52 \<le> rhe (y / 2 ^ ulp_shift y)" by (rule rhe_ge)
  then have "of_int (2 ^ 52) \<le> rat_of_int (rhe (y / 2 ^ ulp_shift y))" by (simp only: of_int_le_iff)
  then show ?thesis by (simp add: fl_scaled_def power_add)
qed

lemma fl_scaled_nonneg: "0 \<le> y \<Longrightarrow> 0 \<le> fl_scaled y"
  using rhe_ge [of 0 "y / 2 ^ ulp_shift y"] by (simp add: fl_scaled_def)

lemma fl_scaled_mono: assumes "0 \<le> x" "x \<le> y" shows "fl_scaled x \<le> fl_scaled y"
proof (cases "ulp_shift x = ulp_shift y")
  case True
  have "rhe (x / 2 ^ ulp_shift x) \<le> rhe (y / 2 ^ ulp_shift x)"
    by (rule rhe_mono) (simp add: divide_right_mono assms)
  then show ?thesis by (simp add: fl_scaled_def True [symmetric])
next
  case False
  with ulp_shift_mono [OF assms(2)] have lt: "ulp_shift x < ulp_shift y" by simp
  have "fl_scaled x \<le> 2 ^ (53 + ulp_shift x)" by (rule fl_scaled_le_pow) fact
  also have "\<dots> \<le> (2::rat) ^ (52 + ulp_shift y)" using lt by (intro power_increasing) auto
  also have "\<dots> \<le> fl_scaled y" using lt by (intro fl_scaled_ge_pow) simp
  finally show ?thesis .
qed

lemma fl_scaled_exact:
  assumes "0 \<le> m" "m \<le> 2 ^ 53" shows "fl_scaled (of_int m * 2 ^ j) = of_int m * 2 ^ j"
proof -
  have exact: "fl_scaled y = y" if "y / 2 ^ ulp_shift y = of_int n" for y n
    using that unfolding fl_scaled_def by (metis rhe_of_int nonzero_eq_divide_eq power_not_zero zero_neq_numeral)
  show ?thesis
  proof (cases "m < 2 ^ 53")
    case True
    have "\<lfloor>rat_of_int m * 2 ^ j\<rfloor> = m * 2 ^ j"
      by (metis floor_of_int of_int_mult of_int_numeral of_int_power)
    moreover have "m * 2 ^ j < 2 ^ (53 + j)" using True by (simp add: power_add)
    ultimately have "nat \<lfloor>rat_of_int m * 2 ^ j\<rfloor> < 2 ^ (53 + j)"
      using assms(1) by (simp add: nat_less_iff)
    then have "floorlog 2 (nat \<lfloor>rat_of_int m * 2 ^ j\<rfloor>) \<le> 53 + j"
      by (intro floorlog_leI) auto
    then have le: "ulp_shift (rat_of_int m * 2 ^ j) \<le> j" (is "?k \<le> j") by (simp add: ulp_shift_def)
    have "rat_of_int m * 2 ^ j / 2 ^ ?k = of_int m * 2 ^ (j - ?k)"
      using le by (simp add: power_diff)
    then show ?thesis by (intro exact [where n = "m * 2 ^ (j - ?k)"]) simp
  next
    case False
    with assms have m: "m = 2 ^ 53" by simp
    have "\<lfloor>rat_of_int m * 2 ^ j\<rfloor> = 2 ^ (53 + j)"
      by (metis floor_of_int of_int_mult of_int_numeral of_int_power m power_add)
    then have "nat \<lfloor>rat_of_int m * 2 ^ j\<rfloor> = 1 * 2 ^ (53 + j)"
      by (simp add: nat_power_eq)
    then have "floorlog 2 (nat \<lfloor>rat_of_int m * 2 ^ j\<rfloor>) = floorlog 2 1 + (53 + j)"
      by (simp only: floorlog_power)
    then have "ulp_shift (rat_of_int m * 2 ^ j) = Suc j" by (simp add: ulp_shift_def floorlog_def)
    then show ?thesis by (intro exact [where n = "2 ^ 52"]) (simp add: m)
  qed
qed

lemma fl_scaled_error:
  assumes "0 \<le> y" shows "\<bar>fl_scaled y - y\<bar> \<le> max (1 / 2) (y / 2 ^ 53)"
proof -
  let ?k = "ulp_shift y"
  have "fl_scaled y - y = (of_int (rhe (y / 2 ^ ?k)) - y / 2 ^ ?k) * 2 ^ ?k"
    by (simp add: fl_scaled_def left_diff_distrib)
  then have "\<bar>fl_scaled y - y\<bar> \<le> 1 / 2 * 2 ^ ?k"
    using rhe_error [of "y / 2 ^ ?k"] by (simp add: abs_mult mult_right_mono)
  also have "1 / 2 * 2 ^ ?k \<le> max (1 / 2) (y / 2 ^ 53)"
  proof (cases "?k = 0")
    case False
    then have "2 ^ (52 + ?k) \<le> y" by (intro ulp_shift_lower) simp
    then have "1 / 2 * 2 ^ ?k \<le> y / 2 ^ 53" by (simp add: power_add field_simps)
    then show ?thesis by simp
  qed simp
  finally show ?thesis .
qed

section \<open>Rounding a rational\<close>

lemma fl_scale_pos [simp]: "0 < fl_scale" "fl_scale \<noteq> 0"
  by (simp_all add: fl_scale_def)

definition fl_repr :: "rat \<Rightarrow> bool" where
  "fl_repr x \<longleftrightarrow> (\<exists>m j. \<bar>m\<bar> \<le> 2 ^ 53 \<and> x * fl_scale = of_int m * 2 ^ j)"

lemma fl_zero [simp]: "fl 0 = 0"
  using fl_scaled_exact [of 0 0] by (simp add: fl_def fl_pos_def)

lemma fl_minus [simp]: "fl (- x) = - fl x"
proof (cases "x = 0")
  case False
  then show ?thesis by (auto simp: fl_def)
qed simp

lemma fl_pos_mono: "0 \<le> x \<Longrightarrow> x \<le> y \<Longrightarrow> fl_pos x \<le> fl_pos y"
  by (simp add: fl_pos_def divide_right_mono fl_scaled_mono less_imp_le)

lemma fl_pos_nonneg: "0 \<le> x \<Longrightarrow> 0 \<le> fl_pos x"
  by (simp add: fl_pos_def fl_scaled_nonneg less_imp_le)

lemma fl_mono: assumes "x \<le> y" shows "fl x \<le> fl y"
proof -
  consider "0 \<le> x" | "x < 0" "0 \<le> y" | "y < 0" using assms by linarith
  then show ?thesis
  proof cases
    case 1
    with assms show ?thesis by (simp add: fl_def fl_pos_mono)
  next
    case 2
    have "0 \<le> fl_pos (- x)" "0 \<le> fl_pos y" using 2 by (auto intro: fl_pos_nonneg)
    then show ?thesis using 2 by (simp add: fl_def)
  next
    case 3
    with assms show ?thesis by (simp add: fl_def fl_pos_mono)
  qed
qed

lemma fl_repr_minus [simp]: "fl_repr (- x) \<longleftrightarrow> fl_repr x"
proof -
  have "fl_repr (- x)" if "fl_repr x" for x
    using that unfolding fl_repr_def by (metis abs_minus_cancel mult_minus_left of_int_minus)
  from this [of x] this [of "- x"] show ?thesis by auto
qed

lemma fl_pos_exact: assumes "fl_repr x" "0 \<le> x" shows "fl_pos x = x"
proof -
  obtain m j where m: "\<bar>m\<bar> \<le> 2 ^ 53" and x: "x * fl_scale = of_int m * 2 ^ j"
    using assms(1) by (auto simp: fl_repr_def)
  from assms(2) have "0 \<le> rat_of_int m * 2 ^ j" by (simp add: x [symmetric] less_imp_le)
  then have "0 \<le> m" 
    by (metis mult_less_0_iff not_le of_int_less_0_iff zero_less_numeral zero_less_power)
  then have "fl_scaled (x * fl_scale) = x * fl_scale"
    unfolding x using m by (intro fl_scaled_exact) auto
  then show ?thesis by (simp add: fl_pos_def)
qed

lemma fl_exact: "fl_repr x \<Longrightarrow> fl x = x"
  by (simp add: fl_def fl_pos_exact)

lemma fl_repr_fl_pos: assumes "0 \<le> x" shows "fl_repr (fl_pos x)"
proof -
  let ?y = "x * fl_scale"
  have y: "0 \<le> ?y" using assms by (simp add: less_imp_le)
  have "?y / 2 ^ ulp_shift ?y \<le> of_int (2 ^ 53)"
    using ulp_shift_upper [OF y] by (simp add: power_add field_simps)
  then have "rhe (?y / 2 ^ ulp_shift ?y) \<le> 2 ^ 53" by (rule rhe_le)
  moreover have "0 \<le> rhe (?y / 2 ^ ulp_shift ?y)" using y by (intro rhe_ge) simp
  ultimately have "\<bar>rhe (?y / 2 ^ ulp_shift ?y)\<bar> \<le> 2 ^ 53" by simp
  moreover have "fl_pos x * fl_scale = of_int (rhe (?y / 2 ^ ulp_shift ?y)) * 2 ^ ulp_shift ?y"
    by (simp add: fl_pos_def fl_scaled_def)
  ultimately show ?thesis unfolding fl_repr_def by blast
qed

lemma fl_repr_fl [simp]: "fl_repr (fl x)"
  using fl_repr_fl_pos [of x] fl_repr_fl_pos [of "- x"] by (auto simp: fl_def)

lemma fl_fl [simp]: "fl (fl x) = fl x"
  by (simp add: fl_exact)

lemma fl_pos_error: assumes "0 \<le> x" shows "\<bar>fl_pos x - x\<bar> \<le> max (1 / (2 * fl_scale)) (x / 2 ^ 53)"
proof -
  have "fl_pos x - x = (fl_scaled (x * fl_scale) - x * fl_scale) / fl_scale"
    by (simp add: fl_pos_def diff_divide_distrib)
  then have "\<bar>fl_pos x - x\<bar> = \<bar>fl_scaled (x * fl_scale) - x * fl_scale\<bar> / fl_scale"
    by (simp add: abs_divide abs_of_pos)
  also have "\<dots> \<le> max (1 / 2) (x * fl_scale / 2 ^ 53) / fl_scale"
    using assms by (intro divide_right_mono fl_scaled_error) (auto simp: less_imp_le)
  also have "\<dots> = max (1 / (2 * fl_scale)) (x / 2 ^ 53)"
    by (simp add: max_divide_distrib_right less_imp_le)
  finally show ?thesis .
qed

lemma fl_error: "\<bar>fl x - x\<bar> \<le> max (1 / (2 * fl_scale)) (\<bar>x\<bar> / 2 ^ 53)"
  using fl_pos_error [of x] fl_pos_error [of "- x"] by (cases "x < 0") (auto simp: fl_def abs_minus_commute)

section \<open>The interface of a rounding\<close>

lemma double_simps [simp]:
  "Fin a + Fin b = rnd64 (a + b)"
  "Fin a - Fin b = rnd64 (a - b)"
  "Fin a * Fin b = rnd64 (a * b)"
  "Fin a / Fin b = (if b = 0 then signed_inf a else rnd64 (a / b))"
  "Fin a < Fin b \<longleftrightarrow> a < b"
  "Fin a \<le> Fin b \<longleftrightarrow> a \<le> b"
  by (simp_all add: plus_double_def minus_double_def times_double_def divide_double_def
      less_double_def less_eq_double_def)

lemma double_le_inf [simp]:
  "Fin a \<le> PInf" "NInf \<le> Fin a" "\<not> PInf \<le> Fin a" "\<not> Fin a \<le> NInf"
  "PInf \<le> PInf" "NInf \<le> NInf" "NInf \<le> PInf" "\<not> PInf \<le> NInf" "\<not> NaN \<le> x" "\<not> x \<le> NaN"
  by (cases x; simp add: less_eq_double_def)+

lemma double_less_inf [simp]:
  "Fin a < PInf" "NInf < Fin a" "\<not> PInf < x" "\<not> x < NInf" "NInf < PInf"
  "\<not> NaN < x" "\<not> x < NaN"
  by (cases x; simp add: less_double_def)+

lemma double_add_inf [simp]:
  "Fin a + PInf = PInf" "Fin a + NInf = NInf" "Fin a + NaN = NaN"
  by (simp_all add: plus_double_def)

lemma double_le_trans: "(x::double) \<le> y \<Longrightarrow> y \<le> z \<Longrightarrow> x \<le> z"
  by (cases x; cases y; cases z) auto

lemma double_le_less_trans: "(x::double) \<le> y \<Longrightarrow> y < z \<Longrightarrow> x < z"
  by (cases x; cases y; cases z) auto

lemma double_less_imp_le: "(x::double) < y \<Longrightarrow> x \<le> y"
  by (cases x; cases y) auto

lemma isfinite_simps [simp]:
  "isfinite (Fin a)" "\<not> isfinite PInf" "\<not> isfinite NInf" "\<not> isfinite NaN"
  by (simp_all add: isfinite_def)

lemma isfiniteE [elim!]: "isfinite x \<Longrightarrow> (\<And>a. x = Fin a \<Longrightarrow> P) \<Longrightarrow> P"
  by (cases x) auto

lemma double_between:
  assumes "Fin a \<le> x" "x \<le> Fin b" obtains r where "x = Fin r" "a \<le> r" "r \<le> b"
  using assms by (cases x) auto

text \<open>
  What the accounting proofs use of a rounding: it is monotone, it fixes the representable values
  and it always lands on one of them or on an infinity.
\<close>

locale rounding =
  fixes rnd :: "rat \<Rightarrow> double" and grid :: "rat \<Rightarrow> bool"
  assumes rnd_mono: "x \<le> y \<Longrightarrow> rnd x \<le> rnd y"
    and rnd_grid: "grid x \<Longrightarrow> rnd x = Fin x"
    and rnd_closed: "rnd x = Fin r \<Longrightarrow> grid r"
    and grid_zero: "grid 0"
    and grid_minus: "grid x \<Longrightarrow> grid (- x)"
begin

lemma rnd_le: "grid b \<Longrightarrow> x \<le> b \<Longrightarrow> rnd x \<le> Fin b"
  using rnd_mono [of x b] by (simp add: rnd_grid)

lemma rnd_ge: "grid a \<Longrightarrow> a \<le> x \<Longrightarrow> Fin a \<le> rnd x"
  using rnd_mono [of a x] by (simp add: rnd_grid)

lemma rnd_nonneg: "0 \<le> x \<Longrightarrow> Fin 0 \<le> rnd x"
  by (rule rnd_ge [OF grid_zero])

lemma rnd_nonpos: "x \<le> 0 \<Longrightarrow> rnd x \<le> Fin 0"
  by (rule rnd_le [OF grid_zero])

lemma rnd_between:
  assumes "grid a" "grid b" "a \<le> x" "x \<le> b"
  obtains r where "rnd x = Fin r" "a \<le> r" "r \<le> b" "grid r"
  using double_between [OF rnd_ge [OF assms(1,3)] rnd_le [OF assms(2,4)]] rnd_closed by metis

lemma rnd_idem: "rnd x = Fin r \<Longrightarrow> rnd r = Fin r"
  by (rule rnd_grid [OF rnd_closed])

lemma rnd_add_zero: "grid x \<Longrightarrow> rnd (x + 0) = Fin x"
  by (simp add: rnd_grid)

text \<open>Adding a non-negative amount never rounds below the accumulator, and subtracting a part of a
  non-negative accumulator never rounds below zero.\<close>

lemma rnd_add_ge: "grid x \<Longrightarrow> 0 \<le> y \<Longrightarrow> Fin x \<le> rnd (x + y)"
  by (rule rnd_ge) auto

lemma rnd_diff_nonneg: "y \<le> x \<Longrightarrow> Fin 0 \<le> rnd (x - y)"
  by (rule rnd_nonneg) simp

end

definition grid64 :: "rat \<Rightarrow> bool" where
  "grid64 x \<longleftrightarrow> fl_repr x \<and> \<bar>x\<bar> \<le> fl_max"

lemma fl_max_nonneg: "0 \<le> fl_max"
  by (simp add: fl_max_def)

lemma rnd64_cases:
  obtains "rnd64 x = PInf" "fl_max < fl x" | "rnd64 x = NInf" "fl x < - fl_max"
  | "rnd64 x = Fin (fl x)" "- fl_max \<le> fl x" "fl x \<le> fl_max"
  by (cases "fl_max < fl x"; cases "fl x < - fl_max") (auto simp: rnd64_def)

lemma rnd64_Fin: "rnd64 x = Fin r \<longleftrightarrow> r = fl x \<and> \<bar>fl x\<bar> \<le> fl_max"
  by (auto simp: rnd64_def split: if_splits)

lemma rnd64_mono: assumes "x \<le> y" shows "rnd64 x \<le> rnd64 y"
  using fl_mono [OF assms] fl_max_nonneg unfolding rnd64_def by auto

interpretation b64: rounding rnd64 grid64
proof
  show "rnd64 x \<le> rnd64 y" if "x \<le> y" for x y using that by (rule rnd64_mono)
  show "rnd64 x = Fin x" if "grid64 x" for x
    using that by (simp add: rnd64_Fin grid64_def fl_exact)
  show "grid64 r" if "rnd64 x = Fin r" for x r
    using that by (simp add: rnd64_Fin grid64_def)
  show "grid64 0" by (simp add: grid64_def fl_max_nonneg fl_repr_def exI [of _ 0])
  show "grid64 (- x)" if "grid64 x" for x using that by (simp add: grid64_def)
qed

lemma rnd64_not_NaN [simp]: "rnd64 x \<noteq> NaN"
  by (simp add: rnd64_def)

lemma rnd64_zero [simp]: "rnd64 0 = Fin 0"
  by (rule b64.rnd_grid [OF b64.grid_zero])

section \<open>Exact values and absolute error\<close>

lemma pow53_le_fl_max: "2 ^ 53 \<le> fl_max"
proof -
  have "(2::rat) ^ 53 \<le> 2 ^ 971" by (rule power_increasing) auto
  also have "\<dots> \<le> of_int (2 ^ 53 - 1) * 2 ^ 971" by simp
  finally show ?thesis by (simp add: fl_max_def)
qed

lemma grid64_dyadic:
  assumes "\<bar>n\<bar> \<le> 2 ^ 53" "i \<le> 1074" shows "grid64 (of_int n / 2 ^ i)"
proof -
  have "of_int n / 2 ^ i * fl_scale = of_int n * 2 ^ (1074 - i)"
    using assms(2) by (simp add: fl_scale_def power_diff)
  then have "fl_repr (of_int n / 2 ^ i)" using assms(1) unfolding fl_repr_def by blast
  moreover have "\<bar>rat_of_int n / 2 ^ i\<bar> \<le> \<bar>of_int n\<bar>"
    using mult_left_mono [of 1 "2 ^ i" "\<bar>rat_of_int n\<bar>"] by (simp add: abs_divide pos_divide_le_eq)
  moreover have "\<bar>rat_of_int n\<bar> \<le> 2 ^ 53"
    using assms(1) by (metis of_int_abs of_int_le_iff of_int_numeral of_int_power)
  ultimately show ?thesis using pow53_le_fl_max by (simp add: grid64_def)
qed

lemma grid64_int: "\<bar>n\<bar> \<le> 2 ^ 53 \<Longrightarrow> grid64 (of_int n)"
  using grid64_dyadic [of n 0] by simp

lemma rnd64_int: "\<bar>n\<bar> \<le> 2 ^ 53 \<Longrightarrow> rnd64 (of_int n) = Fin (of_int n)"
  by (rule b64.rnd_grid [OF grid64_int])

lemma rnd64_numeral [simp]: "(numeral w :: int) \<le> 2 ^ 53 \<Longrightarrow> rnd64 (numeral w) = Fin (numeral w)"
  using rnd64_int [of "numeral w"] by simp

lemma rnd64_neg_numeral [simp]:
  "(numeral w :: int) \<le> 2 ^ 53 \<Longrightarrow> rnd64 (- numeral w) = Fin (- numeral w)"
  using rnd64_int [of "- numeral w"] by simp

lemma rnd64_one [simp]: "rnd64 1 = Fin 1" "rnd64 (- 1) = Fin (- 1)"
  using rnd64_int [of 1] rnd64_int [of "- 1"] by simp_all

lemma grid64_one: "grid64 1"
  using grid64_int [of 1] by simp

text \<open>Underflow is gradual: the difference of two different doubles does not round to zero.\<close>

lemma fl_repr_int: assumes "fl_repr x" obtains n :: int where "x * fl_scale = of_int n"
  using assms unfolding fl_repr_def by (metis of_int_mult of_int_numeral of_int_power)

lemma rnd64_diff_pos: assumes "grid64 x" "grid64 y" "x < y" shows "Fin 0 < rnd64 (y - x)"
proof -
  obtain m n where m: "x * fl_scale = of_int m" and n: "y * fl_scale = of_int n"
    using assms(1,2) unfolding grid64_def by (metis fl_repr_int)
  have "x * fl_scale < y * fl_scale" using assms(3) by (rule mult_strict_right_mono) simp
  then have "rat_of_int m < of_int n" by (simp only: m n)
  then have "1 \<le> rat_of_int (n - m)" by (simp only: of_int_less_iff)
  then have le: "1 / fl_scale \<le> y - x" by (simp add: m [symmetric] n [symmetric] field_simps)
  have g: "grid64 (1 / fl_scale)" using grid64_dyadic [of 1 1074] by (simp add: fl_scale_def)
  have "Fin (1 / fl_scale) \<le> rnd64 (y - x)" by (rule b64.rnd_ge [OF g le])
  moreover have pos: "0 < 1 / fl_scale" by simp
  ultimately show ?thesis by (cases "rnd64 (y - x)") (auto dest: less_le_trans [OF pos])
qed

text \<open>Subtracting a double between one half and one from one is exact.\<close>

lemma grid64_one_minus:
  assumes "grid64 y" "1 / 2 \<le> y" "y \<le> 1" shows "grid64 (1 - y)"
proof -
  obtain m j where m: "\<bar>m\<bar> \<le> 2 ^ 53" "y * fl_scale = of_int m * 2 ^ j"
    using assms(1) by (auto simp: grid64_def fl_repr_def)
  have "(2::rat) ^ 1073 \<le> y * fl_scale"
    using mult_right_mono [OF assms(2), of fl_scale] by (simp add: fl_scale_def)
  also have "\<dots> \<le> 2 ^ 53 * 2 ^ j"
    unfolding m(2) using m(1) by (intro mult_right_mono) (auto simp: abs_le_iff simp flip: of_int_le_iff)
  finally have "(2::rat) ^ 1073 \<le> 2 ^ (53 + j)" by (simp add: power_add)
  then have "1073 \<le> 53 + j" using power_le_imp_le_exp [of "2::rat"] one_less_numeral_iff semiring_norm(76) by blast
  then have j: "j = 1020 + (j - 1020)" by simp
  define k where "k = m * 2 ^ (j - 1020)"
  have "y * fl_scale = of_int k * 2 ^ 1020"
    unfolding k_def m(2) by (subst j) (simp add: power_add)
  then have y: "y = of_int k / 2 ^ 54" by (simp add: fl_scale_def field_simps)
  then have "rat_of_int (2 ^ 53) \<le> of_int k" "of_int k \<le> rat_of_int (2 ^ 54)"
    using assms(2,3) by (simp_all add: field_simps)
  then have "2 ^ 53 \<le> k" "k \<le> 2 ^ 54" by (simp_all only: of_int_le_iff)
  then have "\<bar>2 ^ 54 - k\<bar> \<le> 2 ^ 53" by simp
  from grid64_dyadic [OF this, of 54] show ?thesis unfolding y by (simp add: diff_divide_distrib)
qed

lemma fl_error_bound:
  assumes "\<bar>x\<bar> \<le> 2 ^ e" shows "\<bar>fl x - x\<bar> \<le> 2 ^ e / 2 ^ 53"
proof -
  have "1 / (2 * fl_scale) \<le> 1 / 2 ^ 53"
    unfolding fl_scale_def by (intro divide_left_mono) (simp_all add: power_increasing)
  also have "\<dots> \<le> 2 ^ e / (2::rat) ^ 53" by (intro divide_right_mono) simp_all
  finally have "1 / (2 * fl_scale) \<le> 2 ^ e / 2 ^ 53" .
  moreover have "\<bar>x\<bar> / 2 ^ 53 \<le> 2 ^ e / 2 ^ 53" by (rule divide_right_mono [OF assms]) simp
  ultimately show ?thesis by (rule order_trans [OF fl_error max.boundedI])
qed

lemma rnd64_bounded:
  assumes "\<bar>x\<bar> \<le> 2 ^ e" "e \<le> 53"
  obtains r where "rnd64 x = Fin r" "\<bar>r - x\<bar> \<le> 2 ^ e / 2 ^ 53" "\<bar>r\<bar> \<le> 2 ^ e" "grid64 r"
proof -
  have "(2::int) ^ e \<le> 2 ^ 53" using assms(2) by (rule power_increasing) simp
  then have g: "grid64 (2 ^ e)" using grid64_int [of "2 ^ e"] by simp
  from b64.rnd_between [OF b64.grid_minus [OF g] g, of x] assms(1)
  obtain r where r: "rnd64 x = Fin r" "- (2 ^ e) \<le> r" "r \<le> 2 ^ e" "grid64 r" by (auto simp: abs_le_iff)
  then have "r = fl x" by (simp add: rnd64_Fin)
  with that r fl_error_bound [OF assms(1)] show thesis by (simp add: abs_le_iff)
qed

definition eps9_val :: rat where
  "eps9_val = fl (1 / 1000000000)"

lemma eps9_grid: "grid64 eps9_val" and eps9_Fin: "eps9 = Fin eps9_val"
  and eps9_error: "\<bar>eps9_val - 1 / 1000000000\<bar> \<le> 1 / 2 ^ 53"
proof -
  obtain r where r: "rnd64 (1 / 1000000000) = Fin r" "\<bar>r - 1 / 1000000000\<bar> \<le> 2 ^ 0 / 2 ^ 53" "grid64 r"
    by (rule rnd64_bounded [of "1 / 1000000000" 0]) auto
  then have "r = eps9_val" by (simp add: rnd64_Fin eps9_val_def)
  with r show "grid64 eps9_val" "eps9 = Fin eps9_val" "\<bar>eps9_val - 1 / 1000000000\<bar> \<le> 1 / 2 ^ 53"
    by (simp_all add: eps9_def)
qed

lemma eps9_bounds: "9 / 10000000000 \<le> eps9_val" "eps9_val \<le> 11 / 10000000000"
  using eps9_error unfolding abs_le_iff by simp_all

section \<open>Rounding of concrete values\<close>

lemma rheI: assumes "\<bar>x - of_int n\<bar> < 1 / 2" shows "rhe x = n"
proof -
  have "\<bar>of_int (rhe x) - of_int n\<bar> < (1 :: rat)" using assms rhe_error [of x] by linarith
  then have "\<bar>of_int (rhe x - n)\<bar> < (1 :: rat)" by simp
  then have "\<bar>rhe x - n\<bar> < 1" unfolding of_int_abs [symmetric] by (simp only: of_int_less_1_iff)
  then show ?thesis by simp
qed

text \<open>The rounding of a concrete value: \<open>i\<close> places its leading bit.\<close>

lemma fl_eval:
  assumes "2 ^ 52 \<le> x * 2 ^ i" "x * 2 ^ i < 2 ^ 53" "i \<le> 1074"
  shows "fl x = of_int (rhe (x * 2 ^ i)) / 2 ^ i"
proof -
  let ?y = "x * fl_scale"
  have y: "?y = x * 2 ^ i * 2 ^ (1074 - i)" using assms(3) by (simp add: fl_scale_def flip: power_add)
  have "0 < x * 2 ^ i" by (rule less_le_trans [OF _ assms(1)]) simp
  then have x: "0 \<le> x" by (simp add: zero_less_mult_iff)
  have "rat_of_int (2 ^ (1126 - i)) = 2 ^ 52 * 2 ^ (1074 - i)"
    using assms(3) unfolding power_add [symmetric] by simp
  also have "\<dots> \<le> ?y" unfolding y using assms(1) by (intro mult_right_mono) simp_all
  finally have l: "2 ^ (1126 - i) \<le> \<lfloor>?y\<rfloor>" by (simp only: le_floor_iff)
  have "?y < 2 ^ 53 * 2 ^ (1074 - i)" unfolding y using assms(2) by (intro mult_strict_right_mono) simp_all
  also have "\<dots> = rat_of_int (2 ^ (1127 - i))" using assms(3) unfolding power_add [symmetric] by simp
  finally have u: "\<lfloor>?y\<rfloor> < 2 ^ (1127 - i)" by (simp only: floor_less_iff)
  have l': "2 ^ (1126 - i) \<le> nat \<lfloor>?y\<rfloor>" using l by (simp add: le_nat_iff)
  have u': "nat \<lfloor>?y\<rfloor> < 2 ^ (1127 - i)" using u l by (simp add: nat_less_iff)
  have "floorlog 2 (nat \<lfloor>?y\<rfloor>) = 1127 - i"
  proof (rule antisym)
    show "floorlog 2 (nat \<lfloor>?y\<rfloor>) \<le> 1127 - i" by (rule floorlog_leI [OF u']) simp_all
    have "1127 - i = Suc (1126 - i)" using assms(3) by simp
    then show "1127 - i \<le> floorlog 2 (nat \<lfloor>?y\<rfloor>)" using l' by (simp add: floorlog_ge_SucI)
  qed
  then have s: "ulp_shift ?y = 1074 - i" using assms(3) by (simp add: ulp_shift_def)
  have "?y / 2 ^ (1074 - i) = x * 2 ^ i" by (simp add: y)
  then have "fl_pos x = of_int (rhe (x * 2 ^ i)) * 2 ^ (1074 - i) / fl_scale"
    by (simp add: fl_pos_def fl_scaled_def s)
  moreover have "fl_scale = 2 ^ i * 2 ^ (1074 - i)" using assms(3) by (simp add: fl_scale_def flip: power_add)
  ultimately have "fl_pos x = of_int (rhe (x * 2 ^ i)) * 2 ^ (1074 - i) / (2 ^ i * 2 ^ (1074 - i))" by (simp only:)
  then show ?thesis using x by (simp add: fl_def)
qed

lemma rnd64_eval:
  assumes "2 ^ 52 \<le> x * 2 ^ i" "x * 2 ^ i < 2 ^ 53" "i \<le> 1074" "\<bar>x * 2 ^ i - of_int n\<bar> < 1 / 2" "x \<le> 2 ^ 53"
  shows "rnd64 x = Fin (of_int n / 2 ^ i)"
proof -
  have "0 < x * 2 ^ i" by (rule less_le_trans [OF _ assms(1)]) simp
  then have "0 \<le> x" by (simp add: zero_less_mult_iff)
  then obtain r where "rnd64 x = Fin r" using rnd64_bounded [of x 53] assms(5) by (metis abs_of_nonneg order_refl)
  then show ?thesis using fl_eval [OF assms(1-3)] rheI [OF assms(4)] by (simp add: rnd64_Fin)
qed

end
