(* ===== verification/Units.thy ===== *)
theory Units
  imports Binary64
begin

text \<open>
  The typed quantities of \<^verbatim>\<open>units.hpp\<close> and the time points of \<^verbatim>\<open>clock.hpp\<close>. A quantity is its
  value in its own unit; its constructor validates the value and throws. A duration and a
  timestamp are 64-bit nanosecond counts, kept as integers with the range written out; a signed
  overflow is the value \<open>Undefined\<close>.
\<close>

section \<open>Units and their traits\<close>

datatype dimension = Power | Energy | Temperature | Time | Frequency | UtilizationDim | Efficiency

datatype unit_tag =
    WattsTag | MilliwattsTag | JoulesTag | MillijoulesTag | CelsiusTag | MillisecondsTag
  | SecondsTag | UtilizationTag | FrequencyMhzTag | MemoryFrequencyMhzTag | EnergyPerTokenTag
  | EnergyPerRequestTag | PowerEfficiencyTag

fun dim :: "unit_tag \<Rightarrow> dimension" where
  "dim WattsTag = Power"
| "dim MilliwattsTag = Power"
| "dim JoulesTag = Energy"
| "dim MillijoulesTag = Energy"
| "dim CelsiusTag = Temperature"
| "dim MillisecondsTag = Time"
| "dim SecondsTag = Time"
| "dim UtilizationTag = UtilizationDim"
| "dim FrequencyMhzTag = Frequency"
| "dim MemoryFrequencyMhzTag = Frequency"
| "dim EnergyPerTokenTag = Efficiency"
| "dim EnergyPerRequestTag = Efficiency"
| "dim PowerEfficiencyTag = Efficiency"

fun scale_to_base :: "unit_tag \<Rightarrow> double" where
  "scale_to_base MilliwattsTag = lit (1 / 1000)"
| "scale_to_base MillijoulesTag = lit (1 / 1000)"
| "scale_to_base MillisecondsTag = lit (1 / 1000)"
| "scale_to_base FrequencyMhzTag = lit 1000000"
| "scale_to_base MemoryFrequencyMhzTag = lit 1000000"
| "scale_to_base _ = lit 1"

fun unit_name :: "unit_tag \<Rightarrow> string" where
  "unit_name WattsTag = ''W''"
| "unit_name MilliwattsTag = ''mW''"
| "unit_name JoulesTag = ''J''"
| "unit_name MillijoulesTag = ''mJ''"
| "unit_name CelsiusTag = ''C''"
| "unit_name MillisecondsTag = ''ms''"
| "unit_name SecondsTag = ''s''"
| "unit_name UtilizationTag = ''frac''"
| "unit_name FrequencyMhzTag = ''MHz''"
| "unit_name MemoryFrequencyMhzTag = ''MHz''"
| "unit_name EnergyPerTokenTag = ''J/token''"
| "unit_name EnergyPerRequestTag = ''J/req''"
| "unit_name PowerEfficiencyTag = ''work/W''"

section \<open>Quantities\<close>

definition reject_non_finite :: "double \<Rightarrow> unit res" where
  "reject_non_finite v = (if \<not> isfinite v then Inl InvalidArgument else Inr ())"

definition validate_unit :: "unit_tag \<Rightarrow> double \<Rightarrow> unit res" where
  "validate_unit tag v = rbind (reject_non_finite v) (\<lambda>_.
     if dim tag = UtilizationDim then
       (if v < Fin 0 \<or> Fin 1 < v then Inl InvalidArgument else Inr ())
     else if dim tag = Temperature then
       (if v < lit (- 27315 / 100) then Inl InvalidArgument else Inr ())
     else if dim tag = Power \<or> dim tag = Energy \<or> dim tag = Efficiency then
       (if v < Fin 0 then Inl InvalidArgument else Inr ())
     else Inr ())"

text \<open>The validating constructor \<^verbatim>\<open>Quantity<Tag>(double)\<close>; the value is stored as it is.\<close>

definition Quantity :: "unit_tag \<Rightarrow> double \<Rightarrow> double res" where
  "Quantity tag v = rbind (validate_unit tag v) (\<lambda>_. Inr v)"

type_synonym watts = double
type_synonym joules = double
type_synonym celsius = double
type_synonym utilization = double
type_synonym mhz = double

abbreviation Watts :: "double \<Rightarrow> watts res" where "Watts \<equiv> Quantity WattsTag"
abbreviation Joules :: "double \<Rightarrow> joules res" where "Joules \<equiv> Quantity JoulesTag"
abbreviation Celsius :: "double \<Rightarrow> celsius res" where "Celsius \<equiv> Quantity CelsiusTag"
abbreviation Utilization :: "double \<Rightarrow> utilization res" where "Utilization \<equiv> Quantity UtilizationTag"

definition as_base :: "unit_tag \<Rightarrow> double \<Rightarrow> double" where
  "as_base tag v = v * scale_to_base tag"

text \<open>\<^verbatim>\<open>to<Other>()\<close> is \<^verbatim>\<open>noexcept\<close>: a converted value that fails validation ends the program. The
  equality of the dimensions is a \<^verbatim>\<open>static_assert\<close>.\<close>

definition convert_to :: "unit_tag \<Rightarrow> unit_tag \<Rightarrow> double \<Rightarrow> double res" where
  "convert_to tag other v = noexcept (Quantity other (as_base tag v / scale_to_base other))"

definition q_add :: "unit_tag \<Rightarrow> double \<Rightarrow> double \<Rightarrow> double res" where
  "q_add tag x y = noexcept (Quantity tag (x + y))"

definition q_sub :: "unit_tag \<Rightarrow> double \<Rightarrow> double \<Rightarrow> double res" where
  "q_sub tag x y = noexcept (Quantity tag (x - y))"

definition q_mul :: "unit_tag \<Rightarrow> double \<Rightarrow> double \<Rightarrow> double res" where
  "q_mul tag x f = noexcept (Quantity tag (x * f))"

definition q_div :: "unit_tag \<Rightarrow> double \<Rightarrow> double \<Rightarrow> double res" where
  "q_div tag x f = noexcept (Quantity tag (x / f))"

definition is_zero :: "double \<Rightarrow> bool" where "is_zero v = eq64 v (Fin 0)"
definition is_positive :: "double \<Rightarrow> bool" where "is_positive v \<longleftrightarrow> Fin 0 < v"
definition is_non_negative :: "double \<Rightarrow> bool" where "is_non_negative v \<longleftrightarrow> Fin 0 \<le> v"

text \<open>\<^verbatim>\<open>clamped\<close> maps every value that is not finite and non-negative, infinities included, to 0.\<close>

definition clamped :: "double \<Rightarrow> double" where
  "clamped v = (if isfinite v \<and> Fin 0 \<le> v then v else Fin 0)"

section \<open>Durations\<close>

type_synonym duration = int

definition kMaxNs :: int where "kMaxNs = 4611686018427387903"

definition signed64 :: "int \<Rightarrow> int res" where
  "signed64 n = (if - (2 ^ 63) \<le> n \<and> n < 2 ^ 63 then Inr n else Inl Undefined)"

definition Duration :: "int \<Rightarrow> duration res" where
  "Duration ns = (if ns < 0 then Inl InvalidArgument
                  else if kMaxNs < ns then Inl OverflowError else Inr ns)"

text \<open>C++ integer division truncates; the divisor \<open>b\<close> is a positive constant at every call.\<close>

definition check_mul :: "int \<Rightarrow> int \<Rightarrow> int res" where
  "check_mul a b = (if a = 0 \<or> b = 0 then Inr 0
     else if 0 < a \<and> 0 < b \<and> kMaxNs div b < a then Inl OverflowError
     else if a < 0 then Inl InvalidArgument
     else signed64 (a * b))"

definition nanoseconds :: "int \<Rightarrow> duration res" where "nanoseconds ns = Duration ns"
definition microseconds :: "int \<Rightarrow> duration res" where
  "microseconds us = rbind (check_mul us 1000) Duration"
definition milliseconds :: "int \<Rightarrow> duration res" where
  "milliseconds ms = rbind (check_mul ms 1000000) Duration"
definition seconds :: "int \<Rightarrow> duration res" where
  "seconds s = rbind (check_mul s 1000000000) Duration"

definition seconds_f :: "duration \<Rightarrow> double" where
  "seconds_f ns = double_of_int ns / lit 1000000000"

definition duration_add :: "duration \<Rightarrow> duration \<Rightarrow> duration res" where
  "duration_add a b = rbind (signed64 (a + b)) Duration"

definition duration_sub :: "duration \<Rightarrow> duration \<Rightarrow> duration res" where
  "duration_sub a b = rbind (signed64 (a - b)) Duration"

definition duration_mul :: "duration \<Rightarrow> double \<Rightarrow> duration res" where
  "duration_mul a f = (case int64_of_double (double_of_int a * f) of
     None \<Rightarrow> Inl Undefined | Some n \<Rightarrow> Duration n)"

section \<open>Time points\<close>

type_synonym timestamp = int

definition elapsed_since :: "timestamp \<Rightarrow> timestamp \<Rightarrow> duration res" where
  "elapsed_since t a = (if a < t then rbind (signed64 (t - a)) Duration else Duration 0)"

definition timestamp_add :: "timestamp \<Rightarrow> duration \<Rightarrow> timestamp res" where
  "timestamp_add t d = signed64 (t + d)"

definition timestamp_sub :: "timestamp \<Rightarrow> duration \<Rightarrow> timestamp res" where
  "timestamp_sub t d = signed64 (t - d)"

definition from_seconds :: "double \<Rightarrow> timestamp res" where
  "from_seconds s = (case int64_of_double (s * lit 1000000000) of
     None \<Rightarrow> Inl Undefined | Some n \<Rightarrow> Inr n)"

definition ts_is_zero :: "timestamp \<Rightarrow> bool" where "ts_is_zero t \<longleftrightarrow> t = 0"

text \<open>The deterministic test clock: \<^verbatim>\<open>now\<close> reads it, \<^verbatim>\<open>set\<close> and \<^verbatim>\<open>advance\<close> (\<^verbatim>\<open>noexcept\<close>) move it.\<close>

record test_clock =
  clk_t :: timestamp

definition clock_now :: "test_clock \<Rightarrow> timestamp" where "clock_now c = clk_t c"
definition clock_set :: "timestamp \<Rightarrow> test_clock \<Rightarrow> test_clock" where
  "clock_set t c = c\<lparr>clk_t := t\<rparr>"
definition clock_advance :: "duration \<Rightarrow> test_clock \<Rightarrow> test_clock res" where
  "clock_advance d c = rbind (timestamp_add (clk_t c) d) (\<lambda>t. Inr (c\<lparr>clk_t := t\<rparr>))"

section \<open>What a constructed quantity satisfies\<close>

lemma Quantity_Inr:
  "Quantity tag v = Inr w \<Longrightarrow> w = v \<and> isfinite v"
  by (auto simp: Quantity_def validate_unit_def reject_non_finite_def split: if_splits)

lemma Quantity_power_iff:
  "dim tag \<in> {Power, Energy, Efficiency} \<Longrightarrow>
    Quantity tag v = Inr w \<longleftrightarrow> w = v \<and> isfinite v \<and> Fin 0 \<le> v"
  by (cases v) (auto simp: Quantity_def validate_unit_def reject_non_finite_def)

lemma Quantity_power_eq:
  "dim tag \<in> {Power, Energy, Efficiency} \<Longrightarrow>
    Quantity tag v = (if isfinite v \<and> Fin 0 \<le> v then Inr v else Inl InvalidArgument)"
  by (cases v) (auto simp: Quantity_def validate_unit_def reject_non_finite_def)

lemma Watts_iff [simp]: "Watts v = Inr w \<longleftrightarrow> w = v \<and> isfinite v \<and> Fin 0 \<le> v"
  by (rule Quantity_power_iff) simp

lemma Joules_iff [simp]: "Joules v = Inr w \<longleftrightarrow> w = v \<and> isfinite v \<and> Fin 0 \<le> v"
  by (rule Quantity_power_iff) simp

lemma Watts_ok [simp]: "isfinite v \<Longrightarrow> Fin 0 \<le> v \<Longrightarrow> Watts v = Inr v"
  and Joules_ok [simp]: "isfinite v \<Longrightarrow> Fin 0 \<le> v \<Longrightarrow> Joules v = Inr v"
  by simp_all

lemma clamped_inf [simp]: "clamped PInf = Fin 0" "clamped NInf = Fin 0" "clamped NaN = Fin 0"
  by (simp_all add: clamped_def)

lemma clamped_Fin [simp]: "clamped (Fin a) = Fin (max 0 a)"
  by (simp add: clamped_def max_def)

lemma clamped_finite: "\<exists>a\<ge>0. clamped v = Fin a"
  by (cases v) (auto simp: clamped_def intro: exI [of _ 0])

lemma clamped_nonneg [simp]: "Fin 0 \<le> clamped v" "isfinite (clamped v)"
  using clamped_finite [of v] by auto

section \<open>Durations never overflow\<close>

definition ts_ok :: "timestamp \<Rightarrow> bool" where
  "ts_ok t \<longleftrightarrow> 0 \<le> t \<and> t \<le> kMaxNs"

lemma Duration_Inr [simp]: "Duration n = Inr d \<longleftrightarrow> d = n \<and> 0 \<le> n \<and> n \<le> kMaxNs"
  by (auto simp: Duration_def)

lemma Duration_ok: "0 \<le> n \<Longrightarrow> n \<le> kMaxNs \<Longrightarrow> Duration n = Inr n"
  by simp

lemma signed64_in_range: "- (2 ^ 63) \<le> n \<Longrightarrow> n < 2 ^ 63 \<Longrightarrow> signed64 n = Inr n"
  by (simp add: signed64_def)

lemma signed64_Inr: "signed64 n = Inr m \<Longrightarrow> m = n"
  by (simp add: signed64_def split: if_splits)

lemma kMaxNs_eq: "kMaxNs = 2 ^ 62 - 1"
  by (simp add: kMaxNs_def)

lemma elapsed_since_ok [simp]:
  "ts_ok t \<Longrightarrow> ts_ok a \<Longrightarrow> elapsed_since t a = Inr (max 0 (t - a))"
  by (auto simp: elapsed_since_def ts_ok_def kMaxNs_eq signed64_def Duration_def)

lemma elapsed_since_self [simp]: "elapsed_since t t = Inr 0"
  by (simp add: elapsed_since_def kMaxNs_def)

lemma elapsed_since_Inr:
  "elapsed_since t a = Inr d \<Longrightarrow> d = max 0 (t - a) \<and> d \<le> kMaxNs"
  by (auto simp: elapsed_since_def max_def dest!: signed64_Inr split: if_splits)

lemma duration_add_exact:
  assumes "ts_ok a" "ts_ok b"
  shows "duration_add a b = (if a + b \<le> kMaxNs then Inr (a + b) else Inl OverflowError)"
  using assms by (auto simp: duration_add_def ts_ok_def kMaxNs_eq signed64_def Duration_def)

lemma check_mul_exact:
  assumes "0 < b" shows "check_mul a b =
    (if a < 0 then Inl InvalidArgument else if kMaxNs < a * b then Inl OverflowError else Inr (a * b))"
proof -
  have "kMaxNs div b < a \<longleftrightarrow> kMaxNs < a * b"
    using assms by (rule int_div_less_iff)
  moreover have "0 \<le> a * b \<Longrightarrow> a * b \<le> kMaxNs \<Longrightarrow> signed64 (a * b) = Inr (a * b)"
    by (simp add: signed64_def kMaxNs_eq)
  ultimately show ?thesis using assms
    by (auto simp: check_mul_def not_less kMaxNs_def mult_nonneg_nonneg)
qed

section \<open>Accumulated quantities\<close>

text \<open>A quantity of power or energy the constructor accepts: finite, non-negative and representable.\<close>

definition quantity_ok :: "double \<Rightarrow> bool" where
  "quantity_ok w \<longleftrightarrow> (case w of Fin a \<Rightarrow> 0 \<le> a \<and> grid64 a | _ \<Rightarrow> False)"

lemma quantity_okE [elim?]:
  assumes "quantity_ok w" obtains a where "w = Fin a" "0 \<le> a" "grid64 a"
  using assms by (cases w) (auto simp: quantity_ok_def)

lemma quantity_ok_Fin [simp]: "quantity_ok (Fin a) \<longleftrightarrow> 0 \<le> a \<and> grid64 a"
  by (simp add: quantity_ok_def)

lemma quantity_ok_clamped_rnd [simp]: "quantity_ok (clamped (rnd64 x))"
  using b64.rnd_closed [of x] b64.grid_zero
  by (cases "rnd64 x") (auto simp: quantity_ok_def clamped_def max_def)

lemma quantity_ok_add: "quantity_ok x \<Longrightarrow> isfinite y \<Longrightarrow> quantity_ok (clamped (x + y))"
  and quantity_ok_sub: "quantity_ok x \<Longrightarrow> isfinite y \<Longrightarrow> quantity_ok (clamped (x - y))"
  by (auto elim!: quantity_okE)

definition dval :: "double \<Rightarrow> rat" where
  "dval w = (case w of Fin a \<Rightarrow> a | _ \<Rightarrow> 0)"

lemma dval_Fin [simp]: "dval (Fin a) = a"
  by (simp add: dval_def)

lemma clamped_add_bound:
  assumes "0 \<le> r" "0 \<le> a" "r \<le> 2 ^ 20" "a \<le> 2 ^ 21 + 1"
  shows "dval (clamped (Fin r + Fin a)) \<le> r + a + 1 / 1000000000"
proof -
  have "\<bar>r + a\<bar> \<le> 2 ^ 22" using assms by (simp add: abs_le_iff)
  then obtain w where w: "rnd64 (r + a) = Fin w" "\<bar>w - (r + a)\<bar> \<le> 2 ^ 22 / 2 ^ 53"
    by (rule rnd64_bounded) simp_all
  then show ?thesis using assms abs_le_D1 [OF w(2)] by simp
qed

lemma clamped_sub_le:
  assumes "0 \<le> r" "0 \<le> a" "grid64 r" shows "dval (clamped (Fin r - Fin a)) \<le> r"
  using b64.rnd_le [OF assms(3), of "r - a"] assms(1,2)
  by (cases "rnd64 (r - a)") (auto simp: clamped_def)

end
