(* ===== verification/Budget.thy ===== *)
theory Budget
  imports Ids Units
begin

text \<open>
  Hierarchical power budgets (\<^verbatim>\<open>budget.hpp\<close>). The \<^verbatim>\<open>BudgetManager\<close> is the association list of its
  \<^verbatim>\<open>unordered_map\<close>, one entry per budget: its definition, the power reserved and the power in use.
  Every mutation walks the chain from a budget to its root.
\<close>

section \<open>State\<close>

record power_budget =
  bud_id :: budget_id
  bud_generation :: budget_generation
  bud_domain :: power_domain_id
  bud_policy_generation :: policy_generation
  bud_parent :: "budget_id option"
  bud_name :: string
  hard_max :: watts
  soft_target :: watts
  min_reserve :: watts
  burst_allowance :: watts
  burst_window :: duration
  recovery :: duration
  bud_priority :: int
  authoritative :: bool

record budget_state =
  cfg :: power_budget
  reserved :: watts
  used :: watts

type_synonym budget_manager = "(budget_id \<times> budget_state) list"

section \<open>Operations\<close>

definition install :: "power_budget \<Rightarrow> budget_manager \<Rightarrow> bool \<times> budget_manager" where
  "install b bm = (case map_of bm (bud_id b) of
     None \<Rightarrow> (True, AList.update (bud_id b) \<lparr>cfg = b, reserved = Fin 0, used = Fin 0\<rparr> bm)
   | Some s \<Rightarrow>
       if bud_generation b \<le> bud_generation (cfg s) then (False, bm)
       else (True, AList.update (bud_id b) (s\<lparr>cfg := b\<rparr>) bm))"

definition has :: "budget_manager \<Rightarrow> budget_id \<Rightarrow> bool" where
  "has bm bid \<longleftrightarrow> map_of bm bid \<noteq> None"

definition get :: "budget_manager \<Rightarrow> budget_id \<Rightarrow> power_budget res" where
  "get bm bid = (case map_of bm bid of None \<Rightarrow> Inl OutOfRange | Some s \<Rightarrow> Inr (cfg s))"

function chain_loop :: "budget_manager \<Rightarrow> nat \<Rightarrow> budget_id option \<Rightarrow> budget_id list" where
  "chain_loop bm guard cur = (case cur of
     None \<Rightarrow> []
   | Some b \<Rightarrow>
       if \<not> is_valid b then []
       else (case map_of bm b of
          None \<Rightarrow> [b]
        | Some s \<Rightarrow>
            if 64 < Suc guard then [b]
            else b # chain_loop bm (Suc guard) (bud_parent (cfg s))))"
  by pat_completeness auto
termination
  by (relation "measure (\<lambda>(bm, guard, cur). 64 - guard)") auto

declare chain_loop.simps [simp del]

definition chain :: "budget_manager \<Rightarrow> budget_id \<Rightarrow> budget_id list" where
  "chain bm bid = chain_loop bm 0 (Some bid)"

definition own_available :: "budget_state \<Rightarrow> watts" where
  "own_available s = clamped (hard_max (cfg s) - reserved s - used s)"

definition chain_has_capacity :: "budget_manager \<Rightarrow> budget_id \<Rightarrow> watts \<Rightarrow> bool" where
  "chain_has_capacity bm bid amount = list_all (\<lambda>b. case map_of bm b of
     None \<Rightarrow> False | Some s \<Rightarrow> \<not> own_available s + eps9 < amount) (chain bm bid)"

text \<open>The mutating loops: every budget of the chain that is found is updated in turn.\<close>

definition upd_state :: "(budget_state \<Rightarrow> budget_state) \<Rightarrow> budget_id \<Rightarrow> budget_manager \<Rightarrow> budget_manager"
  where "upd_state f b bm = (case map_of bm b of None \<Rightarrow> bm | Some s \<Rightarrow> AList.update b (f s) bm)"

definition book :: "(budget_state \<Rightarrow> budget_state) \<Rightarrow> budget_id list \<Rightarrow> budget_manager \<Rightarrow> budget_manager"
  where "book f bs bm = fold (upd_state f) bs bm"

definition add_reserved :: "watts \<Rightarrow> budget_state \<Rightarrow> budget_state" where
  "add_reserved amount s = s\<lparr>reserved := clamped (reserved s + amount)\<rparr>"
definition sub_reserved :: "watts \<Rightarrow> budget_state \<Rightarrow> budget_state" where
  "sub_reserved amount s = s\<lparr>reserved := clamped (reserved s - amount)\<rparr>"
definition add_used :: "watts \<Rightarrow> budget_state \<Rightarrow> budget_state" where
  "add_used amount s = s\<lparr>used := clamped (used s + amount)\<rparr>"
definition sub_used :: "watts \<Rightarrow> budget_state \<Rightarrow> budget_state" where
  "sub_used amount s = s\<lparr>used := clamped (used s - amount)\<rparr>"

definition bad_amount :: "watts \<Rightarrow> bool" where
  "bad_amount amount \<longleftrightarrow> amount < Fin 0 \<or> \<not> isfinite amount"

definition bm_reserve ::
  "budget_manager \<Rightarrow> budget_id \<Rightarrow> watts \<Rightarrow> reservation_id \<Rightarrow> budget_generation \<Rightarrow> bool \<times> budget_manager"
where
  "bm_reserve bm bid amount rid budget_gen = (case map_of bm bid of
     None \<Rightarrow> (False, bm)
   | Some s \<Rightarrow>
       if bud_generation (cfg s) \<noteq> budget_gen then (False, bm)
       else if \<not> authoritative (cfg s) then (False, bm)
       else if bad_amount amount then (False, bm)
       else if \<not> chain_has_capacity bm bid amount then (False, bm)
       else (True, book (add_reserved amount) (chain bm bid) bm))"

definition bm_release ::
  "budget_manager \<Rightarrow> budget_id \<Rightarrow> watts \<Rightarrow> reservation_id \<Rightarrow> budget_generation \<Rightarrow> bool \<times> budget_manager"
where
  "bm_release bm bid amount rid budget_gen = (case map_of bm bid of
     None \<Rightarrow> (False, bm)
   | Some s \<Rightarrow>
       if bud_generation (cfg s) \<noteq> budget_gen then (False, bm)
       else if bad_amount amount then (False, bm)
       else if \<not> list_all (\<lambda>b. case map_of bm b of
            None \<Rightarrow> False | Some s \<Rightarrow> \<not> reserved s + eps9 < amount) (chain bm bid)
       then (False, bm)
       else (True, book (sub_reserved amount) (chain bm bid) bm))"

definition bm_activate ::
  "budget_manager \<Rightarrow> budget_id \<Rightarrow> watts \<Rightarrow> reservation_id \<Rightarrow> budget_generation \<Rightarrow> bool \<times> budget_manager"
where
  "bm_activate bm bid amount rid budget_gen = (case map_of bm bid of
     None \<Rightarrow> (False, bm)
   | Some s \<Rightarrow>
       if bud_generation (cfg s) \<noteq> budget_gen then (False, bm)
       else if bad_amount amount then (False, bm)
       else if \<not> chain_has_capacity bm bid amount then (False, bm)
       else (True, book (add_used amount) (chain bm bid) bm))"

definition bm_deactivate ::
  "budget_manager \<Rightarrow> budget_id \<Rightarrow> watts \<Rightarrow> reservation_id \<Rightarrow> budget_generation \<Rightarrow> bool \<times> budget_manager"
where
  "bm_deactivate bm bid amount rid budget_gen = (case map_of bm bid of
     None \<Rightarrow> (False, bm)
   | Some s \<Rightarrow>
       if bud_generation (cfg s) \<noteq> budget_gen then (False, bm)
       else if bad_amount amount then (False, bm)
       else if \<not> list_all (\<lambda>b. case map_of bm b of
            None \<Rightarrow> False | Some s \<Rightarrow> \<not> used s + eps9 < amount) (chain bm bid)
       then (False, bm)
       else (True, book (sub_used amount) (chain bm bid) bm))"

fun available_loop :: "budget_manager \<Rightarrow> watts \<Rightarrow> budget_id list \<Rightarrow> watts" where
  "available_loop bm avail [] = avail"
| "available_loop bm avail (b # bs) = (case map_of bm b of
     None \<Rightarrow> Fin 0
   | Some s \<Rightarrow> available_loop bm (std_min avail (own_available s)) bs)"

definition available :: "budget_manager \<Rightarrow> budget_id \<Rightarrow> watts" where
  "available bm bid = (case map_of bm bid of
     None \<Rightarrow> Fin 0 | Some s \<Rightarrow> available_loop bm (own_available s) (chain bm bid))"

definition reserved_of :: "budget_manager \<Rightarrow> budget_id \<Rightarrow> watts" where
  "reserved_of bm bid = (case map_of bm bid of None \<Rightarrow> Fin 0 | Some s \<Rightarrow> reserved s)"
definition used_of :: "budget_manager \<Rightarrow> budget_id \<Rightarrow> watts" where
  "used_of bm bid = (case map_of bm bid of None \<Rightarrow> Fin 0 | Some s \<Rightarrow> used s)"
definition hard_max_of :: "budget_manager \<Rightarrow> budget_id \<Rightarrow> watts" where
  "hard_max_of bm bid = (case map_of bm bid of None \<Rightarrow> Fin 0 | Some s \<Rightarrow> hard_max (cfg s))"

definition accounting_consistent :: "budget_manager \<Rightarrow> bool" where
  "accounting_consistent bm =
     list_all (\<lambda>(bid, s). \<not> hard_max (cfg s) < reserved s + used s + eps9) bm"

definition snapshots :: "budget_manager \<Rightarrow> power_budget list" where
  "snapshots bm = map (\<lambda>(bid, s). cfg s) bm"

definition bm_clear :: "budget_manager \<Rightarrow> budget_manager" where
  "bm_clear bm = []"

section \<open>The chain of a budget\<close>

lemma chain_Cons: "is_valid bid \<Longrightarrow> \<exists>bs. chain bm bid = bid # bs"
  by (auto simp: chain_def chain_loop.simps [of bm 0] split: option.splits)

lemma chain_invalid: "\<not> is_valid bid \<Longrightarrow> chain bm bid = []"
  by (simp add: chain_def chain_loop.simps)

lemma chain_loop_length: "length (chain_loop bm guard cur) \<le> 65 - guard \<or> length (chain_loop bm guard cur) \<le> 1"
proof (induction bm guard cur rule: chain_loop.induct)
  case (1 bm guard cur)
  then show ?case
    by (subst (1 2) chain_loop.simps) (fastforce split: option.splits if_splits)
qed

text \<open>The chain depends only on the parent links, which no accounting operation changes.\<close>

definition same_cfg :: "budget_manager \<Rightarrow> budget_manager \<Rightarrow> bool" where
  "same_cfg bm bm' \<longleftrightarrow> (\<forall>x. map_option cfg (map_of bm x) = map_option cfg (map_of bm' x))"

lemma chain_loop_same_cfg:
  "same_cfg bm bm' \<Longrightarrow> chain_loop bm guard cur = chain_loop bm' guard cur"
proof (induction bm guard cur rule: chain_loop.induct)
  case (1 bm guard cur)
  show ?case
  proof (cases cur)
    case (Some b)
    have eq: "map_option cfg (map_of bm b) = map_option cfg (map_of bm' b)"
      using "1.prems" by (simp add: same_cfg_def)
    show ?thesis
    proof (cases "map_of bm b")
      case None
      then show ?thesis using eq Some by (simp add: chain_loop.simps [of _ guard])
    next
      case s: (Some s)
      then obtain s' where s': "map_of bm' b = Some s'" "cfg s' = cfg s" using eq by (cases "map_of bm' b") auto
      show ?thesis using "1.IH" [OF Some _ s] "1.prems" s s' Some
        by (simp add: chain_loop.simps [of _ guard])
    qed
  qed (simp add: chain_loop.simps)
qed

lemma chain_same_cfg: "same_cfg bm bm' \<Longrightarrow> chain bm bid = chain bm' bid"
  by (simp add: chain_def chain_loop_same_cfg)

section \<open>Updates along a chain\<close>

lemma map_of_upd_state:
  "map_of (upd_state f b bm) x = (if x = b then map_option f (map_of bm x) else map_of bm x)"
  by (auto simp: upd_state_def update_conv' split: option.splits)

text \<open>Booking along any list of budgets updates each of them once per occurrence.\<close>

lemma map_of_book: "map_of (book f bs bm) x = map_option (f ^^ count_list bs x) (map_of bm x)"
proof (induction bs arbitrary: bm)
  case Nil
  then show ?case by (simp add: book_def option.map_ident)
next
  case (Cons b bs)
  have "map_of (book f (b # bs) bm) x = map_of (book f bs (upd_state f b bm)) x"
    by (simp add: book_def)
  also have "\<dots> = map_option (f ^^ count_list bs x) (map_of (upd_state f b bm) x)"
    by (rule Cons.IH)
  finally show ?case
    by (auto simp: map_of_upd_state option.map_comp funpow_swap1 comp_def intro!: map_option_cong)
qed

lemma map_of_book_distinct:
  "distinct bs \<Longrightarrow> map_of (book f bs bm) x =
     (if x \<in> set bs then map_option f (map_of bm x) else map_of bm x)"
  by (simp add: map_of_book count_list_distinct option.map_id)

lemma distinct_keys_upd_state: "distinct (map fst bm) \<Longrightarrow> distinct (map fst (upd_state f b bm))"
  by (auto simp: upd_state_def distinct_update split: option.split)

lemma distinct_keys_book: "distinct (map fst bm) \<Longrightarrow> distinct (map fst (book f bs bm))"
  unfolding book_def by (induction bs arbitrary: bm) (simp_all add: distinct_keys_upd_state)

lemma same_cfg_book:
  assumes "\<And>s. cfg (f s) = cfg s" shows "same_cfg bm (book f bs bm)"
proof -
  have "cfg ((f ^^ n) s) = cfg s" for n s by (induction n) (simp_all add: assms)
  then show ?thesis by (simp add: same_cfg_def map_of_book option.map_comp comp_def)
qed

lemma cfg_updates [simp]:
  "cfg (add_reserved a s) = cfg s" "cfg (sub_reserved a s) = cfg s"
  "cfg (add_used a s) = cfg s" "cfg (sub_used a s) = cfg s"
  "used (add_reserved a s) = used s" "used (sub_reserved a s) = used s"
  "reserved (add_used a s) = reserved s" "reserved (sub_used a s) = reserved s"
  "reserved (add_reserved a s) = clamped (reserved s + a)"
  "reserved (sub_reserved a s) = clamped (reserved s - a)"
  "used (add_used a s) = clamped (used s + a)"
  "used (sub_used a s) = clamped (used s - a)"
  by (simp_all add: add_reserved_def sub_reserved_def add_used_def sub_used_def)

section \<open>Well-formed managers\<close>

definition state_ok :: "budget_state \<Rightarrow> bool" where
  "state_ok s \<longleftrightarrow> quantity_ok (hard_max (cfg s)) \<and> quantity_ok (reserved s) \<and> quantity_ok (used s)"

definition wf_bm :: "budget_manager \<Rightarrow> bool" where
  "wf_bm bm \<longleftrightarrow> distinct (map fst bm) \<and>
     (\<forall>x s. map_of bm x = Some s \<longrightarrow> bud_id (cfg s) = x \<and> state_ok s)"

lemma wf_bmD: "wf_bm bm \<Longrightarrow> map_of bm x = Some s \<Longrightarrow> state_ok s"
  by (simp add: wf_bm_def)

lemma wf_bm_book:
  assumes wf: "wf_bm bm" and f: "\<And>s. state_ok s \<Longrightarrow> state_ok (f s)" "\<And>s. cfg (f s) = cfg s"
  shows "wf_bm (book f bs bm)"
proof -
  have iter: "state_ok s \<Longrightarrow> state_ok ((f ^^ n) s)" "cfg ((f ^^ n) s) = cfg s" for n s
    by (induction n) (simp_all add: f)
  show ?thesis using wf
    by (auto simp: wf_bm_def distinct_keys_book map_of_book iter)
qed

lemma state_ok_updates:
  assumes "\<not> bad_amount amount" "state_ok s"
  shows "state_ok (add_reserved amount s)" "state_ok (sub_reserved amount s)"
    "state_ok (add_used amount s)" "state_ok (sub_used amount s)"
  using assms by (simp_all add: state_ok_def bad_amount_def quantity_ok_add quantity_ok_sub)

section \<open>The contract of the accounting operations\<close>

text \<open>
  What the four accounting operations promise their callers: a refused call changes nothing, an
  accepted one names an installed budget under its current generation and a valid amount, keeps
  every budget definition and keeps the manager well formed.
\<close>

locale ledger_op =
  fixes op :: "budget_manager \<Rightarrow> budget_id \<Rightarrow> watts \<Rightarrow> reservation_id \<Rightarrow> budget_generation
    \<Rightarrow> bool \<times> budget_manager"
  assumes op_refused: "op bm b amount rid g = (False, bm') \<Longrightarrow> bm' = bm"
    and op_accepted: "op bm b amount rid g = (True, bm') \<Longrightarrow>
      \<exists>s. map_of bm b = Some s \<and> bud_generation (cfg s) = g \<and> \<not> bad_amount amount"
    and op_same_cfg: "op bm b amount rid g = (ok, bm') \<Longrightarrow> same_cfg bm bm'"
    and op_wf: "op bm b amount rid g = (ok, bm') \<Longrightarrow> wf_bm bm \<Longrightarrow> wf_bm bm'"
begin

lemma refusedI:
  assumes "\<nexists>s. map_of bm b = Some s \<and> bud_generation (cfg s) = g \<and> \<not> bad_amount amount"
  shows "op bm b amount rid g = (False, bm)"
proof -
  obtain ok bm' where op: "op bm b amount rid g = (ok, bm')" by (rule prod.exhaust)
  have "\<not> ok"
  proof
    assume ok
    with op have "op bm b amount rid g = (True, bm')" by simp
    from op_accepted [OF this] assms show False by blast
  qed
  with op have "op bm b amount rid g = (False, bm')" by simp
  with op_refused [OF this] show ?thesis by simp
qed

lemma unknown_refused: "map_of bm b = None \<Longrightarrow> op bm b amount rid g = (False, bm)"
  by (rule refusedI) simp

lemma stale_refused:
  "map_of bm b = Some s \<Longrightarrow> bud_generation (cfg s) \<noteq> g \<Longrightarrow> op bm b amount rid g = (False, bm)"
  by (rule refusedI) simp

lemma bad_amount_refused: "bad_amount amount \<Longrightarrow> op bm b amount rid g = (False, bm)"
  by (rule refusedI) simp

lemma chain_stable: "op bm b amount rid g = (ok, bm') \<Longrightarrow> chain bm' x = chain bm x"
  by (rule chain_same_cfg [symmetric]) (rule op_same_cfg)

lemma cfg_stable:
  assumes "op bm b amount rid g = (ok, bm')" "map_of bm x = Some s"
  obtains s' where "map_of bm' x = Some s'" "cfg s' = cfg s"
proof -
  have "map_option cfg (map_of bm x) = map_option cfg (map_of bm' x)"
    using op_same_cfg [OF assms(1)] by (simp add: same_cfg_def)
  then show thesis using that assms(2) by (cases "map_of bm' x") auto
qed

end

lemma same_cfg_refl [simp]: "same_cfg bm bm"
  by (simp add: same_cfg_def)

interpretation reserve_op: ledger_op bm_reserve
  by unfold_locales
    (auto simp: bm_reserve_def same_cfg_book wf_bm_book state_ok_updates split: option.splits if_splits)

interpretation release_op: ledger_op bm_release
  by unfold_locales
    (auto simp: bm_release_def same_cfg_book wf_bm_book state_ok_updates split: option.splits if_splits)

interpretation activate_op: ledger_op bm_activate
  by unfold_locales
    (auto simp: bm_activate_def same_cfg_book wf_bm_book state_ok_updates split: option.splits if_splits)

interpretation deactivate_op: ledger_op bm_deactivate
  by unfold_locales
    (auto simp: bm_deactivate_def same_cfg_book wf_bm_book state_ok_updates split: option.splits if_splits)

text \<open>
  An accounting operation acts on the chain of the named budget: it tests every budget of the chain
  against its guard and then applies its update to each of them.
\<close>

locale chain_op = ledger_op op
  for op :: "budget_manager \<Rightarrow> budget_id \<Rightarrow> watts \<Rightarrow> reservation_id \<Rightarrow> budget_generation
    \<Rightarrow> bool \<times> budget_manager" +
  fixes upd :: "watts \<Rightarrow> budget_state \<Rightarrow> budget_state"
    and guard :: "watts \<Rightarrow> budget_state \<Rightarrow> bool"
  assumes op_effect: "op bm b amount rid g = (True, bm') \<Longrightarrow>
      bm' = book (upd amount) (chain bm b) bm \<and>
      (\<forall>x \<in> set (chain bm b). \<exists>s. map_of bm x = Some s \<and> guard amount s)"
begin

lemma state_after:
  assumes op: "op bm b amount rid g = (ok, bm')" and dist: "distinct (chain bm b)"
    and s': "map_of bm' x = Some s'"
  obtains s where "map_of bm x = Some s" "s' = s"
  | s a where "map_of bm x = Some s" "amount = Fin a" "0 \<le> a" "guard (Fin a) s" "s' = upd (Fin a) s"
      "ok" "x \<in> set (chain bm b)"
proof (cases ok)
  case False
  then have "bm' = bm" using op op_refused by simp
  with s' that(1) show thesis by simp
next
  case True
  with op have op: "op bm b amount rid g = (True, bm')" by simp
  from op_effect [OF op] have bm': "bm' = book (upd amount) (chain bm b) bm"
    and g: "\<And>x. x \<in> set (chain bm b) \<Longrightarrow> \<exists>s. map_of bm x = Some s \<and> guard amount s" by auto
  from op_accepted [OF op] have "\<not> bad_amount amount" by blast
  then obtain a where a: "amount = Fin a" "0 \<le> a" by (cases amount) (auto simp: bad_amount_def)
  show thesis
  proof (cases "x \<in> set (chain bm b)")
    case False
    then have "map_of bm x = Some s'" using s' by (simp add: bm' map_of_book_distinct [OF dist])
    then show thesis using that(1) by simp
  next
    case x: True
    obtain s where s: "map_of bm x = Some s" "guard amount s" using g [OF x] by blast
    have "s' = upd amount s" using s' s x by (simp add: bm' map_of_book_distinct [OF dist])
    with s a x True show thesis using that(2) by simp
  qed
qed

text \<open>With an acyclic chain, an accepted operation updates exactly the budgets of the chain.\<close>

lemma map_after:
  assumes "op bm b amount rid g = (True, bm')" "distinct (chain bm b)"
  shows "map_of bm' x = (if x \<in> set (chain bm b) then map_option (upd amount) (map_of bm x)
                         else map_of bm x)"
  using op_effect [OF assms(1)] assms(2) by (simp add: map_of_book_distinct)

end

definition capacity_guard :: "watts \<Rightarrow> budget_state \<Rightarrow> bool" where
  "capacity_guard amount s \<longleftrightarrow> \<not> own_available s + eps9 < amount"
definition reserved_guard :: "watts \<Rightarrow> budget_state \<Rightarrow> bool" where
  "reserved_guard amount s \<longleftrightarrow> \<not> reserved s + eps9 < amount"
definition used_guard :: "watts \<Rightarrow> budget_state \<Rightarrow> bool" where
  "used_guard amount s \<longleftrightarrow> \<not> used s + eps9 < amount"

lemma list_all_found:
  "list_all (\<lambda>b. case map_of bm b of None \<Rightarrow> False | Some s \<Rightarrow> P s) bs \<longleftrightarrow>
     (\<forall>x \<in> set bs. \<exists>s. map_of bm x = Some s \<and> P s)"
  by (auto simp: list_all_iff split: option.splits)

lemmas guard_defs = capacity_guard_def reserved_guard_def used_guard_def

interpretation reserve_op: chain_op bm_reserve add_reserved capacity_guard
  by unfold_locales
    (auto simp: bm_reserve_def chain_has_capacity_def list_all_found guard_defs
      split: option.split_asm if_split_asm)

interpretation release_op: chain_op bm_release sub_reserved reserved_guard
  by unfold_locales
    (fastforce simp: bm_release_def list_all_iff guard_defs split: option.split_asm if_split_asm)

interpretation activate_op: chain_op bm_activate add_used capacity_guard
  by unfold_locales
    (auto simp: bm_activate_def chain_has_capacity_def list_all_found guard_defs
      split: option.split_asm if_split_asm)

interpretation deactivate_op: chain_op bm_deactivate sub_used used_guard
  by unfold_locales
    (fastforce simp: bm_deactivate_def list_all_iff guard_defs split: option.split_asm if_split_asm)

section \<open>Reachable managers\<close>

text \<open>A budget definition whose quantities the C++ constructors have validated.\<close>

definition budget_cfg_ok :: "power_budget \<Rightarrow> bool" where
  "budget_cfg_ok b \<longleftrightarrow> quantity_ok (hard_max b) \<and> quantity_ok (soft_target b) \<and>
     quantity_ok (min_reserve b) \<and> quantity_ok (burst_allowance b)"

text \<open>
  The mutating operations other than \<^verbatim>\<open>clear\<close>, one call at a time (\<open>bm_update\<close>) and in any number
  (\<open>bm_updates\<close>); \<open>bm_step\<close> is any mutating operation, \<^verbatim>\<open>clear\<close> included, and \<open>bm_run\<close> any sequence
  of them.
\<close>

inductive bm_update :: "budget_manager \<Rightarrow> budget_manager \<Rightarrow> bool" where
  update_install: "budget_cfg_ok b \<Longrightarrow> install b bm = (ok, bm') \<Longrightarrow> bm_update bm bm'"
| update_reserve: "bm_reserve bm b amount rid g = (ok, bm') \<Longrightarrow> bm_update bm bm'"
| update_release: "bm_release bm b amount rid g = (ok, bm') \<Longrightarrow> bm_update bm bm'"
| update_activate: "bm_activate bm b amount rid g = (ok, bm') \<Longrightarrow> bm_update bm bm'"
| update_deactivate: "bm_deactivate bm b amount rid g = (ok, bm') \<Longrightarrow> bm_update bm bm'"

inductive bm_updates :: "budget_manager \<Rightarrow> budget_manager \<Rightarrow> bool" where
  updates_refl: "bm_updates bm bm"
| updates_step: "bm_updates bm bm' \<Longrightarrow> bm_update bm' bm'' \<Longrightarrow> bm_updates bm bm''"

inductive bm_step :: "budget_manager \<Rightarrow> budget_manager \<Rightarrow> bool" where
  step_update: "bm_update bm bm' \<Longrightarrow> bm_step bm bm'"
| step_clear: "bm_step bm (bm_clear bm)"

inductive bm_run :: "budget_manager \<Rightarrow> budget_manager \<Rightarrow> bool" where
  run_refl: "bm_run bm bm"
| run_step: "bm_run bm bm' \<Longrightarrow> bm_step bm' bm'' \<Longrightarrow> bm_run bm bm''"

lemma wf_bm_Nil [simp]: "wf_bm []"
  by (simp add: wf_bm_def)

lemma wf_bm_update:
  "wf_bm bm \<Longrightarrow> state_ok s \<Longrightarrow> bud_id (cfg s) = x \<Longrightarrow> wf_bm (AList.update x s bm)"
  by (auto simp: wf_bm_def distinct_update update_conv' split: if_splits)

lemma install_wf:
  "install b bm = (ok, bm') \<Longrightarrow> budget_cfg_ok b \<Longrightarrow> wf_bm bm \<Longrightarrow> wf_bm bm'"
  by (auto simp: install_def state_ok_def budget_cfg_ok_def b64.grid_zero dest: wf_bmD
      intro!: wf_bm_update split: option.splits if_splits)

lemma bm_update_wf: "bm_update bm bm' \<Longrightarrow> wf_bm bm \<Longrightarrow> wf_bm bm'"
  by (induction rule: bm_update.induct)
    (blast intro: install_wf reserve_op.op_wf release_op.op_wf activate_op.op_wf deactivate_op.op_wf)+

lemma bm_step_wf: "bm_step bm bm' \<Longrightarrow> wf_bm bm \<Longrightarrow> wf_bm bm'"
  by (induction rule: bm_step.induct) (simp_all add: bm_clear_def bm_update_wf)

lemma bm_run_wf: "bm_run bm bm' \<Longrightarrow> wf_bm bm \<Longrightarrow> wf_bm bm'"
  by (induction rule: bm_run.induct) (auto intro: bm_step_wf)

text \<open>Until the manager is cleared, installed budgets stay installed and their generations never
  decrease.\<close>

definition gens_le :: "budget_manager \<Rightarrow> budget_manager \<Rightarrow> bool" where
  "gens_le bm bm' \<longleftrightarrow> (\<forall>x s. map_of bm x = Some s \<longrightarrow>
     (\<exists>s'. map_of bm' x = Some s' \<and> bud_generation (cfg s) \<le> bud_generation (cfg s')))"

lemma gens_le_refl [simp]: "gens_le bm bm"
  by (auto simp: gens_le_def)

lemma gens_le_trans: "gens_le a b \<Longrightarrow> gens_le b c \<Longrightarrow> gens_le a c"
  unfolding gens_le_def by (meson order_trans)

lemma gens_le_same_cfg: assumes "same_cfg bm bm'" shows "gens_le bm bm'"
  unfolding gens_le_def
proof (intro allI impI)
  fix x s assume s: "map_of bm x = Some s"
  have "map_option cfg (map_of bm x) = map_option cfg (map_of bm' x)"
    using assms by (simp add: same_cfg_def)
  with s show "\<exists>s'. map_of bm' x = Some s' \<and> bud_generation (cfg s) \<le> bud_generation (cfg s')"
    by (cases "map_of bm' x") auto
qed

lemma install_gens_le: "install b bm = (ok, bm') \<Longrightarrow> gens_le bm bm'"
  by (auto simp: install_def gens_le_def update_conv' split: option.splits if_splits)

lemma bm_update_gens_le: "bm_update bm bm' \<Longrightarrow> gens_le bm bm'"
  by (induction rule: bm_update.induct)
    (blast intro: install_gens_le gens_le_same_cfg reserve_op.op_same_cfg release_op.op_same_cfg
      activate_op.op_same_cfg deactivate_op.op_same_cfg)+

lemma bm_updates_gens_le: "bm_updates bm bm' \<Longrightarrow> gens_le bm bm'"
  by (induction rule: bm_updates.induct) (auto intro: bm_update_gens_le gens_le_trans)

end
