(* ===== verification/Authority.thy ===== *)
theory Authority
  imports Ids
begin

text \<open>
  The authority envelope and the fence of \<^verbatim>\<open>authority.hpp\<close>: a message is checked against the current
  coordinator epoch and worker boot and against one high-water generation per authority domain.
\<close>

section \<open>Envelope and gate\<close>

record authority_envelope =
  env_epoch :: coordinator_epoch
  env_boot :: worker_boot_id
  env_policy :: policy_generation
  env_budget :: budget_generation
  env_reservation :: reservation_generation
  env_observation :: observation_generation
  env_decision :: decision_generation
  env_device :: device_generation

record authority_gate =
  gate_epoch :: coordinator_epoch
  gate_boot :: worker_boot_id
  gate_policy :: policy_generation
  gate_budget :: budget_generation
  gate_reservation :: reservation_generation
  gate_observation :: observation_generation
  gate_decision :: decision_generation
  gate_device :: device_generation

datatype verdict =
    ACCEPT | STALE_EPOCH | STALE_BOOT | STALE_POLICY | STALE_BUDGET | STALE_RESERVATION
  | STALE_OBSERVATION | STALE_DECISION | STALE_DEVICE | INVALID

definition empty_envelope :: authority_envelope where
  "empty_envelope = \<lparr>env_epoch = gen_null, env_boot = id_invalid, env_policy = gen_null,
     env_budget = gen_null, env_reservation = gen_null, env_observation = gen_null,
     env_decision = gen_null, env_device = gen_null\<rparr>"

definition has_epoch_boot :: "authority_envelope \<Rightarrow> bool" where
  "has_epoch_boot e \<longleftrightarrow> is_null (env_epoch e) = False \<and> is_valid (env_boot e)"

definition new_gate :: "coordinator_epoch \<Rightarrow> worker_boot_id \<Rightarrow> authority_gate" where
  "new_gate epoch boot = \<lparr>gate_epoch = epoch, gate_boot = boot, gate_policy = gen_null,
     gate_budget = gen_null, gate_reservation = gen_null, gate_observation = gen_null,
     gate_decision = gen_null, gate_device = gen_null\<rparr>"

definition roll_epoch :: "authority_gate \<Rightarrow> authority_gate" where
  "roll_epoch g = g\<lparr>gate_epoch := gen_next (gate_epoch g)\<rparr>"
definition reset_epoch :: "coordinator_epoch \<Rightarrow> authority_gate \<Rightarrow> authority_gate" where
  "reset_epoch e g = g\<lparr>gate_epoch := e\<rparr>"
definition set_boot :: "worker_boot_id \<Rightarrow> authority_gate \<Rightarrow> authority_gate" where
  "set_boot b g = g\<lparr>gate_boot := b\<rparr>"
definition set_policy :: "policy_generation \<Rightarrow> authority_gate \<Rightarrow> authority_gate" where
  "set_policy p g = g\<lparr>gate_policy := p\<rparr>"

definition set_budget :: "budget_generation \<Rightarrow> authority_gate \<Rightarrow> authority_gate" where
  "set_budget b g = g\<lparr>gate_budget := b\<rparr>"
definition set_reservation :: "reservation_generation \<Rightarrow> authority_gate \<Rightarrow> authority_gate" where
  "set_reservation r g = g\<lparr>gate_reservation := r\<rparr>"
definition set_observation :: "observation_generation \<Rightarrow> authority_gate \<Rightarrow> authority_gate" where
  "set_observation og g = g\<lparr>gate_observation := og\<rparr>"
definition set_decision :: "decision_generation \<Rightarrow> authority_gate \<Rightarrow> authority_gate" where
  "set_decision dg g = g\<lparr>gate_decision := dg\<rparr>"
definition set_device :: "device_generation \<Rightarrow> authority_gate \<Rightarrow> authority_gate" where
  "set_device d g = g\<lparr>gate_device := d\<rparr>"

definition advance_observation :: "observation_generation \<Rightarrow> authority_gate \<Rightarrow> authority_gate" where
  "advance_observation og g =
     (if gate_observation g < og then g\<lparr>gate_observation := og\<rparr> else g)"
definition advance_decision :: "decision_generation \<Rightarrow> authority_gate \<Rightarrow> authority_gate" where
  "advance_decision dg g = (if gate_decision g < dg then g\<lparr>gate_decision := dg\<rparr> else g)"

definition gen_stale :: "'t generation \<Rightarrow> 't generation \<Rightarrow> bool" where
  "gen_stale msg current = (if is_null msg then False else msg < current)"

definition check :: "authority_gate \<Rightarrow> authority_envelope \<Rightarrow> verdict" where
  "check g e =
     (if \<not> has_epoch_boot e then INVALID
      else if env_epoch e \<noteq> gate_epoch g then STALE_EPOCH
      else if env_boot e \<noteq> gate_boot g then STALE_BOOT
      else if gen_stale (env_policy e) (gate_policy g) then STALE_POLICY
      else if gen_stale (env_budget e) (gate_budget g) then STALE_BUDGET
      else if gen_stale (env_reservation e) (gate_reservation g) then STALE_RESERVATION
      else if gen_stale (env_observation e) (gate_observation g) then STALE_OBSERVATION
      else if gen_stale (env_decision e) (gate_decision g) then STALE_DECISION
      else if gen_stale (env_device e) (gate_device g) then STALE_DEVICE
      else ACCEPT)"

text \<open>One line of \<^verbatim>\<open>adopt\<close>: the mark moves to the carried generation when that is newer.\<close>

definition adopt_gen :: "'t generation \<Rightarrow> 't generation \<Rightarrow> 't generation" where
  "adopt_gen msg current = (if is_null msg = False \<and> current < msg then msg else current)"

definition adopt :: "authority_envelope \<Rightarrow> authority_gate \<Rightarrow> authority_gate" where
  "adopt e g = g\<lparr>
     gate_policy := adopt_gen (env_policy e) (gate_policy g),
     gate_budget := adopt_gen (env_budget e) (gate_budget g),
     gate_reservation := adopt_gen (env_reservation e) (gate_reservation g),
     gate_observation := adopt_gen (env_observation e) (gate_observation g),
     gate_decision := adopt_gen (env_decision e) (gate_decision g),
     gate_device := adopt_gen (env_device e) (gate_device g)\<rparr>"

fun verdict_to_string :: "verdict \<Rightarrow> string" where
  "verdict_to_string ACCEPT = ''ACCEPT''"
| "verdict_to_string STALE_EPOCH = ''STALE_EPOCH''"
| "verdict_to_string STALE_BOOT = ''STALE_BOOT''"
| "verdict_to_string STALE_POLICY = ''STALE_POLICY''"
| "verdict_to_string STALE_BUDGET = ''STALE_BUDGET''"
| "verdict_to_string STALE_RESERVATION = ''STALE_RESERVATION''"
| "verdict_to_string STALE_OBSERVATION = ''STALE_OBSERVATION''"
| "verdict_to_string STALE_DECISION = ''STALE_DECISION''"
| "verdict_to_string STALE_DEVICE = ''STALE_DEVICE''"
| "verdict_to_string INVALID = ''INVALID''"

section \<open>High-water marks\<close>

text \<open>The pointwise order of the marks of two gates of one epoch and boot.\<close>

definition marks_le :: "authority_gate \<Rightarrow> authority_gate \<Rightarrow> bool" where
  "marks_le g h \<longleftrightarrow> gate_policy g \<le> gate_policy h \<and> gate_budget g \<le> gate_budget h \<and>
     gate_reservation g \<le> gate_reservation h \<and> gate_observation g \<le> gate_observation h \<and>
     gate_decision g \<le> gate_decision h \<and> gate_device g \<le> gate_device h"

text \<open>Some generation the envelope carries is older than a mark of the gate.\<close>

definition carries_stale :: "authority_gate \<Rightarrow> authority_envelope \<Rightarrow> bool" where
  "carries_stale g e \<longleftrightarrow> gen_stale (env_policy e) (gate_policy g) \<or>
     gen_stale (env_budget e) (gate_budget g) \<or> gen_stale (env_reservation e) (gate_reservation g) \<or>
     gen_stale (env_observation e) (gate_observation g) \<or>
     gen_stale (env_decision e) (gate_decision g) \<or> gen_stale (env_device e) (gate_device g)"

lemma check_ACCEPT:
  "check g e = ACCEPT \<longleftrightarrow> has_epoch_boot e \<and> env_epoch e = gate_epoch g \<and>
     env_boot e = gate_boot g \<and> \<not> carries_stale g e"
  by (auto simp: check_def carries_stale_def)

lemma adopt_gen_ge: "current \<le> adopt_gen msg current"
  by (auto simp: adopt_gen_def)

lemma adopt_gen_max: "adopt_gen msg current = max msg current"
  by (auto simp: adopt_gen_def max_def is_null_def less_eq_generation_def less_generation_def
      intro: generation.expand)

lemma gen_stale_mono: "gen_stale m c \<Longrightarrow> c \<le> d \<Longrightarrow> gen_stale m d"
  by (auto simp: gen_stale_def split: if_splits)

lemma marks_le_refl [simp]: "marks_le g g"
  by (simp add: marks_le_def)

lemma marks_le_trans: "marks_le f g \<Longrightarrow> marks_le g h \<Longrightarrow> marks_le f h"
  by (auto simp: marks_le_def)

lemma marks_le_adopt: "marks_le g (adopt e g)"
  by (simp add: marks_le_def adopt_def adopt_gen_ge)

lemma marks_le_advance:
  "marks_le g (advance_observation og g)" "marks_le g (advance_decision dg g)"
  by (auto simp: marks_le_def advance_observation_def advance_decision_def)

lemma carries_stale_mono: "carries_stale g e \<Longrightarrow> marks_le g h \<Longrightarrow> carries_stale h e"
  unfolding carries_stale_def marks_le_def by (blast intro: gen_stale_mono)

section \<open>Runs of a gate\<close>

text \<open>The mutations a gate sees between two resets of its identity: adopting an envelope it accepted,
  advancing a mark, and rolling the epoch.\<close>

inductive gate_step :: "authority_gate \<Rightarrow> authority_gate \<Rightarrow> bool" where
  step_adopt: "check g e = ACCEPT \<Longrightarrow> gate_step g (adopt e g)"
| step_observation: "gate_step g (advance_observation og g)"
| step_decision: "gate_step g (advance_decision dg g)"
| step_roll: "gate_step g (roll_epoch g)"

inductive gate_run :: "authority_gate \<Rightarrow> authority_gate \<Rightarrow> bool" where
  run_refl: "gate_run g g"
| run_step: "gate_run f g \<Longrightarrow> gate_step g h \<Longrightarrow> gate_run f h"

lemma gate_step_marks: "gate_step g h \<Longrightarrow> marks_le g h"
  by (induction rule: gate_step.induct)
    (auto simp: marks_le_adopt marks_le_advance, simp add: roll_epoch_def marks_le_def)

lemma gate_run_marks: "gate_run g h \<Longrightarrow> marks_le g h"
  by (induction rule: gate_run.induct) (auto intro: gate_step_marks marks_le_trans)

lemma gate_step_boot: "gate_step g h \<Longrightarrow> gate_boot h = gate_boot g"
  by (induction rule: gate_step.induct)
    (simp_all add: adopt_def advance_observation_def advance_decision_def roll_epoch_def)

lemma gate_run_boot: "gate_run g h \<Longrightarrow> gate_boot h = gate_boot g"
  by (induction rule: gate_run.induct) (simp_all add: gate_step_boot)

end
