(* ===== verification/Thermal.thy ===== *)
theory Thermal
  imports Units Ids
begin

text \<open>
  The thermal governor of \<^verbatim>\<open>thermal.hpp\<close>: a classifier of temperature samples with hysteresis, and
  the power ceiling it derives from a temperature.
\<close>

section \<open>State\<close>

datatype thermal_state = TS_UNKNOWN | COOL | NORMAL | WARM | HOT | THERMALLY_CONSTRAINED | RECOVERING

fun thermal_to_string :: "thermal_state \<Rightarrow> string" where
  "thermal_to_string TS_UNKNOWN = ''UNKNOWN''"
| "thermal_to_string COOL = ''COOL''"
| "thermal_to_string NORMAL = ''NORMAL''"
| "thermal_to_string WARM = ''WARM''"
| "thermal_to_string HOT = ''HOT''"
| "thermal_to_string THERMALLY_CONSTRAINED = ''THERMALLY_CONSTRAINED''"
| "thermal_to_string RECOVERING = ''RECOVERING''"

datatype thermal_trend = TT_UNKNOWN | RISING | FALLING | STABLE

fun trend_to_string :: "thermal_trend \<Rightarrow> string" where
  "trend_to_string TT_UNKNOWN = ''UNKNOWN''"
| "trend_to_string RISING = ''RISING''"
| "trend_to_string FALLING = ''FALLING''"
| "trend_to_string STABLE = ''STABLE''"

record thermal_thresholds =
  cool_max :: celsius
  normal_max :: celsius
  warm_max :: celsius
  hot_max :: celsius
  recovery_margin :: celsius
  constrained_reduction :: double
  constrained_confirm_count :: int

definition default_thermal :: thermal_thresholds where
  "default_thermal = \<lparr>cool_max = lit 40, normal_max = lit 60, warm_max = lit 75, hot_max = lit 85,
     recovery_margin = lit 5, constrained_reduction = lit (3 / 5), constrained_confirm_count = 2\<rparr>"

record thermal_observation =
  tobs_id :: observation_id
  temperature :: "celsius option"
  tobs_generation :: observation_generation
  tobs_domain :: thermal_domain_id
  tobs_timestamp :: timestamp
  tobs_boot :: worker_boot_id
  tobs_device_gen :: device_generation

record thermal_governor =
  thresholds :: thermal_thresholds
  th_domain :: thermal_domain_id
  th_state :: thermal_state
  need_confirm :: int
  th_generation :: thermal_generation
  last_temp :: "celsius option"
  last_now :: timestamp

definition new_thermal :: "thermal_thresholds \<Rightarrow> thermal_domain_id \<Rightarrow> thermal_governor" where
  "new_thermal t d = \<lparr>thresholds = t, th_domain = d, th_state = TS_UNKNOWN, need_confirm = 0,
     th_generation = gen_null, last_temp = None, last_now = 0\<rparr>"

section \<open>Operations\<close>

definition classify_raw :: "thermal_thresholds \<Rightarrow> double \<Rightarrow> thermal_state" where
  "classify_raw th t =
     (if t < cool_max th then COOL
      else if t < normal_max th then NORMAL
      else if t < warm_max th then WARM
      else if t < hot_max th then HOT
      else THERMALLY_CONSTRAINED)"

definition observe :: "celsius option \<Rightarrow> timestamp \<Rightarrow> thermal_governor \<Rightarrow> thermal_state \<times> thermal_governor" where
  "observe temp now g0 = (let g = g0\<lparr>last_now := now\<rparr> in
     case temp of
       None \<Rightarrow> (TS_UNKNOWN, g\<lparr>th_state := TS_UNKNOWN\<rparr>)
     | Some t \<Rightarrow>
         let th = thresholds g; raw = classify_raw th t;
             g = g\<lparr>last_temp := Some t, th_generation := gen_next (th_generation g)\<rparr>
         in if raw = THERMALLY_CONSTRAINED then
              (if th_state g \<noteq> THERMALLY_CONSTRAINED then
                 (let n = need_confirm g + 1 in
                  if constrained_confirm_count th \<le> n
                  then (THERMALLY_CONSTRAINED, g\<lparr>th_state := THERMALLY_CONSTRAINED, need_confirm := 0\<rparr>)
                  else (th_state g, g\<lparr>need_confirm := n\<rparr>))
               else (THERMALLY_CONSTRAINED, g\<lparr>need_confirm := 0\<rparr>))
            else
              let g = g\<lparr>need_confirm := 0\<rparr>
              in if th_state g = THERMALLY_CONSTRAINED then
                   (if t < hot_max th - recovery_margin th
                    then (RECOVERING, g\<lparr>th_state := RECOVERING\<rparr>)
                    else (THERMALLY_CONSTRAINED, g))
                 else if th_state g = RECOVERING then
                   (if t \<le> warm_max th then (NORMAL, g\<lparr>th_state := NORMAL\<rparr>) else (RECOVERING, g))
                 else (raw, g\<lparr>th_state := raw\<rparr>))"

definition headroom_fraction :: "thermal_thresholds \<Rightarrow> celsius option \<Rightarrow> double" where
  "headroom_fraction th temp = (case temp of
     None \<Rightarrow> lit 1
   | Some t \<Rightarrow>
       let nm = normal_max th; hm = hot_max th; red = constrained_reduction th
       in if t \<le> nm then lit 1
          else if t < hm then (let frac = (t - nm) / (hm - nm) in lit 1 - frac * (lit 1 - red))
          else red)"

definition permitted_power :: "thermal_thresholds \<Rightarrow> watts \<Rightarrow> celsius option \<Rightarrow> watts option res" where
  "permitted_power th nominal_cap temp = noexcept (case temp of
     None \<Rightarrow> Inr None
   | Some t \<Rightarrow> rbind (Watts (nominal_cap * headroom_fraction th temp)) (\<lambda>w. Inr (Some w)))"

definition th_reset :: "thermal_governor \<Rightarrow> thermal_governor" where
  "th_reset g = g\<lparr>th_state := TS_UNKNOWN, need_confirm := 0, th_generation := gen_null,
     last_temp := None, last_now := 0\<rparr>"

text \<open>A series of samples, oldest first.\<close>

definition observe_all :: "(celsius option \<times> timestamp) list \<Rightarrow> thermal_governor \<Rightarrow> thermal_governor" where
  "observe_all samples g = fold (\<lambda>(temp, now) g. snd (observe temp now g)) samples g"

section \<open>Hysteresis\<close>

lemma observe_result: "fst (observe temp now g) = th_state (snd (observe temp now g))"
  by (auto simp: observe_def Let_def split: option.split)

lemma observe_thresholds [simp]: "thresholds (snd (observe temp now g)) = thresholds g"
  by (auto simp: observe_def Let_def split: option.split)

lemma observe_all_simps [simp]:
  "observe_all [] g = g"
  "observe_all ((temp, now) # xs) g = observe_all xs (snd (observe temp now g))"
  by (simp_all add: observe_all_def)

definition over_limit :: "thermal_thresholds \<Rightarrow> celsius option \<Rightarrow> bool" where
  "over_limit th temp \<longleftrightarrow> (\<exists>t. temp = Some t \<and> classify_raw th t = THERMALLY_CONSTRAINED)"

lemma observe_over_limit:
  assumes "over_limit (thresholds g) temp" "th_state g \<noteq> THERMALLY_CONSTRAINED"
  shows "th_state (snd (observe temp now g)) =
      (if constrained_confirm_count (thresholds g) \<le> need_confirm g + 1 then THERMALLY_CONSTRAINED
       else th_state g)"
    "need_confirm (snd (observe temp now g)) =
      (if constrained_confirm_count (thresholds g) \<le> need_confirm g + 1 then 0 else need_confirm g + 1)"
  using assms by (auto simp: over_limit_def observe_def Let_def)

lemma observe_all_confirming:
  assumes "\<forall>x \<in> set xs. over_limit (thresholds g) (fst x)" "th_state g \<noteq> THERMALLY_CONSTRAINED"
    "need_confirm g + int (length xs) < constrained_confirm_count (thresholds g)"
  shows "th_state (observe_all xs g) = th_state g \<and>
    need_confirm (observe_all xs g) = need_confirm g + int (length xs) \<and>
    thresholds (observe_all xs g) = thresholds g"
  using assms
proof (induction xs arbitrary: g)
  case (Cons x xs)
  obtain temp now where x: "x = (temp, now)" by (cases x)
  let ?g = "snd (observe temp now g)"
  have o: "th_state ?g = th_state g" "need_confirm ?g = need_confirm g + 1"
    using observe_over_limit [of g temp now] Cons.prems by (auto simp: x)
  have "th_state (observe_all xs ?g) = th_state ?g \<and>
      need_confirm (observe_all xs ?g) = need_confirm ?g + int (length xs) \<and>
      thresholds (observe_all xs ?g) = thresholds ?g"
    using Cons.prems by (intro Cons.IH) (auto simp: o)
  then show ?case by (simp add: x o)
qed simp

text \<open>A sample that keeps a constrained device constrained.\<close>

definition holds_constraint :: "thermal_thresholds \<Rightarrow> celsius option \<Rightarrow> bool" where
  "holds_constraint th temp \<longleftrightarrow> (\<exists>t. temp = Some t \<and>
     (classify_raw th t = THERMALLY_CONSTRAINED \<or> \<not> t < hot_max th - recovery_margin th))"

lemma observe_constrained:
  assumes "th_state g = THERMALLY_CONSTRAINED"
  shows "th_state (snd (observe temp now g)) = (case temp of None \<Rightarrow> TS_UNKNOWN
    | Some t \<Rightarrow> if holds_constraint (thresholds g) temp then THERMALLY_CONSTRAINED else RECOVERING)"
  using assms by (auto simp: observe_def Let_def holds_constraint_def split: option.split)

lemma observe_all_constrained:
  assumes "th_state g = THERMALLY_CONSTRAINED" "\<forall>x \<in> set xs. holds_constraint (thresholds g) (fst x)"
  shows "th_state (observe_all xs g) = THERMALLY_CONSTRAINED \<and> thresholds (observe_all xs g) = thresholds g"
  using assms
proof (induction xs arbitrary: g)
  case (Cons x xs)
  obtain temp now where x: "x = (temp, now)" by (cases x)
  have "th_state (snd (observe temp now g)) = THERMALLY_CONSTRAINED"
    using observe_constrained [OF Cons.prems(1), of temp now] Cons.prems(2)
    by (auto simp: x holds_constraint_def split: option.splits)
  then show ?case using Cons.IH [of "snd (observe temp now g)"] Cons.prems(2) by (simp add: x)
qed simp

section \<open>Headroom\<close>

text \<open>Thresholds under which the linear ramp makes sense: representable, ordered, and a reduction
  between one half and one.\<close>

definition thermal_ok :: "thermal_thresholds \<Rightarrow> bool" where
  "thermal_ok th \<longleftrightarrow> (case (normal_max th, hot_max th, constrained_reduction th) of
     (Fin nm, Fin hm, Fin red) \<Rightarrow> grid64 nm \<and> grid64 hm \<and> grid64 red \<and> nm < hm \<and>
        \<bar>nm\<bar> \<le> 1000000 \<and> \<bar>hm\<bar> \<le> 1000000 \<and> 1 / 2 \<le> red \<and> red \<le> 1
   | _ \<Rightarrow> False)"

lemma thermal_okE:
  assumes "thermal_ok th"
  obtains nm hm red where "normal_max th = Fin nm" "hot_max th = Fin hm" "constrained_reduction th = Fin red"
    "grid64 nm" "grid64 hm" "grid64 red" "nm < hm" "\<bar>nm\<bar> \<le> 1000000" "\<bar>hm\<bar> \<le> 1000000" "1 / 2 \<le> red" "red \<le> 1"
  using assms by (auto simp: thermal_ok_def split: double.splits)

lemma ramp:
  assumes ok: "thermal_ok th" and th: "normal_max th = Fin nm" "hot_max th = Fin hm"
    "constrained_reduction th = Fin red" and a: "nm < a" "a < hm"
  obtains d e f p v where "rnd64 (a - nm) = Fin d" "rnd64 (hm - nm) = Fin e" "0 < e"
    "rnd64 (d / e) = Fin f" "rnd64 (f * (1 - red)) = Fin p" "rnd64 (1 - p) = Fin v"
    "headroom_fraction th (Some (Fin a)) = Fin v" "red \<le> v" "v \<le> 1"
proof -
  from ok th have g: "grid64 nm" "grid64 hm" "grid64 red" "nm < hm" "\<bar>nm\<bar> \<le> 1000000" "\<bar>hm\<bar> \<le> 1000000"
    "1 / 2 \<le> red" "red \<le> 1" by (auto elim!: thermal_okE)
  have b: "\<bar>a - nm\<bar> \<le> 2 ^ 21" "\<bar>hm - nm\<bar> \<le> 2 ^ 21" using g(5,6) a by (auto simp: abs_le_iff)
  obtain d where d: "rnd64 (a - nm) = Fin d" by (rule rnd64_bounded [OF b(1)]) simp_all
  obtain e where e: "rnd64 (hm - nm) = Fin e" by (rule rnd64_bounded [OF b(2)]) simp_all
  have e0: "0 < e" using rnd64_diff_pos [OF g(1,2,4)] by (simp add: e)
  have "0 \<le> d" using b64.rnd_diff_nonneg [of nm a] a by (simp add: d)
  moreover have "d \<le> e" using rnd64_mono [of "a - nm" "hm - nm"] a by (simp add: d e)
  ultimately have "0 \<le> d / e" "d / e \<le> 1" using e0 by simp_all
  then obtain f where f: "rnd64 (d / e) = Fin f" "0 \<le> f" "f \<le> 1"
    using b64.rnd_between [OF b64.grid_zero grid64_one, of "d / e"] by auto
  have r: "rnd64 (1 - red) = Fin (1 - red)" and gr: "grid64 (1 - red)"
    using grid64_one_minus [OF g(3,7,8)] by (simp_all add: b64.rnd_grid)
  have "0 \<le> f * (1 - red)" "f * (1 - red) \<le> 1 - red"
    using f g(8) mult_right_mono [of f 1 "1 - red"] by simp_all
  then obtain p where p: "rnd64 (f * (1 - red)) = Fin p" "0 \<le> p" "p \<le> 1 - red"
    using b64.rnd_between [OF b64.grid_zero gr, of "f * (1 - red)"] by auto
  then obtain v where v: "rnd64 (1 - p) = Fin v" "red \<le> v" "v \<le> 1"
    using b64.rnd_between [OF g(3) grid64_one, of "1 - p"] by auto
  have "headroom_fraction th (Some (Fin a)) = Fin v"
    using a e0 by (simp add: headroom_fraction_def th Let_def d e f r p v)
  with that d e e0 f p v show thesis by blast
qed

lemma headroom_bounds:
  assumes ok: "thermal_ok th" and th: "constrained_reduction th = Fin red"
  obtains v where "headroom_fraction th (Some (Fin a)) = Fin v" "red \<le> v" "v \<le> 1"
proof -
  from ok obtain nm hm where t: "normal_max th = Fin nm" "hot_max th = Fin hm" "red \<le> 1"
    using th by (auto elim!: thermal_okE)
  consider "a \<le> nm" | "nm < a" "a < hm" | "nm < a" "hm \<le> a" by linarith
  then show thesis
  proof cases
    case 2
    then show ?thesis using ramp [OF ok t(1,2) th] that by metis
  qed (use t th that in \<open>auto simp: headroom_fraction_def Let_def\<close>)
qed

lemma headroom_antimono:
  assumes ok: "thermal_ok th" and le: "a \<le> b"
  shows "headroom_fraction th (Some (Fin b)) \<le> headroom_fraction th (Some (Fin a))"
proof -
  from ok obtain nm hm red where t: "normal_max th = Fin nm" "hot_max th = Fin hm"
    "constrained_reduction th = Fin red" "red \<le> 1" by (auto elim!: thermal_okE)
  obtain v w where v: "headroom_fraction th (Some (Fin a)) = Fin v" "red \<le> v" "v \<le> 1"
    and w: "headroom_fraction th (Some (Fin b)) = Fin w" "red \<le> w" "w \<le> 1"
    using headroom_bounds [OF ok t(3)] by metis
  consider "a \<le> nm" | "hm \<le> b" "nm < b" | "nm < a" "b < hm" using le by linarith
  then show ?thesis
  proof cases
    case 1
    then show ?thesis using w t by (simp add: headroom_fraction_def Let_def)
  next
    case 2
    then have "headroom_fraction th (Some (Fin b)) = Fin red" by (simp add: headroom_fraction_def Let_def t)
    then show ?thesis using v by simp
  next
    case 3
    then have ab: "nm < a" "a < hm" "nm < b" "b < hm" using le by simp_all
    obtain d e f p where a: "rnd64 (a - nm) = Fin d" "rnd64 (hm - nm) = Fin e" "0 < e"
      "rnd64 (d / e) = Fin f" "rnd64 (f * (1 - red)) = Fin p" "rnd64 (1 - p) = Fin v"
      by (rule ramp [OF ok t(1-3) ab(1,2)]) (simp add: v(1))
    obtain d' f' p' where b: "rnd64 (b - nm) = Fin d'" "rnd64 (d' / e) = Fin f'"
      "rnd64 (f' * (1 - red)) = Fin p'" "rnd64 (1 - p') = Fin w"
      by (rule ramp [OF ok t(1-3) ab(3,4)]) (simp add: w(1) a(2))
    have "d \<le> d'" using rnd64_mono [of "a - nm" "b - nm"] le by (simp add: a b)
    then have "d / e \<le> d' / e" using a(3) by (simp add: divide_right_mono)
    then have "f \<le> f'" using rnd64_mono [of "d / e" "d' / e"] by (simp add: a b)
    then have "f * (1 - red) \<le> f' * (1 - red)" using t(4) by (simp add: mult_right_mono)
    then have "p \<le> p'" using rnd64_mono [of "f * (1 - red)" "f' * (1 - red)"] by (simp add: a b)
    then have "w \<le> v" using rnd64_mono [of "1 - p'" "1 - p"] by (simp add: a b)
    then show ?thesis by (simp add: v w)
  qed
qed

lemma default_thermal_ok: "thermal_ok default_thermal"
proof -
  obtain r where r: "rnd64 (3 / 5) = Fin r" "\<bar>r - 3 / 5\<bar> \<le> 2 ^ 0 / 2 ^ 53" "grid64 r"
    by (rule rnd64_bounded [of "3 / 5" 0]) simp_all
  have "1 / 2 \<le> r" "r \<le> 1" using abs_le_D1 [OF r(2)] abs_le_D2 [OF r(2)] by simp_all
  then show ?thesis using r grid64_int [of 60] grid64_int [of 85]
    by (simp add: thermal_ok_def default_thermal_def)
qed

section \<open>Properties\<close>

text \<open>C35: The power ceiling derived from a temperature never exceeds the nominal cap and the
  derivation never terminates the program: for representable, ordered thresholds and a reduction
  between one half and one, every finite temperature yields a ceiling between 0 and the nominal cap,
  and a hotter reading never yields a higher ceiling. Without a temperature there is no ceiling.\<close>

theorem permitted_power_bounded:
  assumes "thermal_ok th" "quantity_ok (Fin c)" "a \<le> b"
  shows "permitted_power th (Fin c) None = Inr None \<and>
    (\<exists>p q. permitted_power th (Fin c) (Some (Fin a)) = Inr (Some (Fin p)) \<and>
       permitted_power th (Fin c) (Some (Fin b)) = Inr (Some (Fin q)) \<and> 0 \<le> q \<and> q \<le> p \<and> p \<le> c)"
proof -
  from assms(1) obtain red where red: "constrained_reduction th = Fin red" "1 / 2 \<le> red" by (auto elim!: thermal_okE)
  obtain v where v: "headroom_fraction th (Some (Fin a)) = Fin v" "red \<le> v" "v \<le> 1"
    by (rule headroom_bounds [OF assms(1) red(1)])
  obtain w where w: "headroom_fraction th (Some (Fin b)) = Fin w" "red \<le> w" "w \<le> 1"
    by (rule headroom_bounds [OF assms(1) red(1)])
  have wv: "w \<le> v" using headroom_antimono [OF assms(1,3)] by (simp add: v w)
  have c: "0 \<le> c" "grid64 c" using assms(2) by simp_all
  have cv: "0 \<le> c * x \<and> c * x \<le> c" if "red \<le> x" "x \<le> 1" for x
    using mult_left_mono [of x 1 c] that red(2) c(1) by simp
  obtain p q where p: "rnd64 (c * v) = Fin p" "p \<le> c" "0 \<le> p" and q: "rnd64 (c * w) = Fin q" "0 \<le> q"
    using b64.rnd_between [OF b64.grid_zero c(2)] cv [OF v(2,3)] cv [OF w(2,3)] by metis
  have "q \<le> p" using rnd64_mono [of "c * w" "c * v"] wv c(1) by (simp add: p q mult_left_mono)
  with p q show ?thesis by (simp add: permitted_power_def v w Quantity_power_eq)
qed

theorem permitted_power_bounded_witness:
  "\<exists>p q. permitted_power default_thermal (Fin 400) (Some (Fin 70)) = Inr (Some (Fin p)) \<and>
     permitted_power default_thermal (Fin 400) (Some (Fin 80)) = Inr (Some (Fin q)) \<and>
     0 \<le> q \<and> q \<le> p \<and> p \<le> 400"
  using permitted_power_bounded [OF default_thermal_ok, of 400 70 80] grid64_int [of 400] by simp

text \<open>Constraint needs confirmation: starting from a device that is not constrained and has no
  pending confirmation, fewer consecutive over-limit samples than the configured count leave its state
  unchanged, and exactly that many declare it constrained.\<close>

lemma constraint_needs_confirmation:
  assumes "th_state g \<noteq> THERMALLY_CONSTRAINED" "need_confirm g = 0"
    "\<forall>x \<in> set xs. over_limit (thresholds g) (fst x)" "over_limit (thresholds g) temp"
    "int (length xs) + 1 = constrained_confirm_count (thresholds g)"
  shows "th_state (observe_all xs g) = th_state g \<and>
    th_state (observe_all (xs @ [(temp, now)]) g) = THERMALLY_CONSTRAINED"
proof -
  have o: "th_state (observe_all xs g) = th_state g \<and> need_confirm (observe_all xs g) = int (length xs) \<and>
      thresholds (observe_all xs g) = thresholds g"
    using observe_all_confirming [OF assms(3,1)] assms(2,5) by simp
  have "observe_all (xs @ [(temp, now)]) g = snd (observe temp now (observe_all xs g))"
    by (simp add: observe_all_def)
  then show ?thesis using observe_over_limit [of "observe_all xs g" temp now] assms o by simp
qed

lemma constraint_needs_confirmation_witness:
  "th_state (observe_all [(Some (Fin 90), 1), (Some (Fin 91), 2)] (new_thermal default_thermal id_invalid))
     = THERMALLY_CONSTRAINED"
  using constraint_needs_confirmation [of "new_thermal default_thermal id_invalid" "[(Some (Fin 90), 1)]"
      "Some (Fin 91)" 2]
  by (simp add: new_thermal_def default_thermal_def over_limit_def classify_raw_def)

text \<open>A constrained device recovers only through the margin: it stays constrained through any
  series of samples that are over the limit or within the recovery margin of it, and the first sample
  below the margin takes it to \<^verbatim>\<open>RECOVERING\<close>, never directly to a normal state.\<close>

theorem recovery_needs_margin:
  assumes "th_state g = THERMALLY_CONSTRAINED" "\<forall>x \<in> set xs. holds_constraint (thresholds g) (fst x)"
    "\<not> holds_constraint (thresholds g) (Some t)"
  shows "th_state (observe_all xs g) = THERMALLY_CONSTRAINED \<and>
    th_state (observe_all (xs @ [(Some t, now)]) g) = RECOVERING"
proof -
  have "observe_all (xs @ [(Some t, now)]) g = snd (observe (Some t) now (observe_all xs g))"
    by (simp add: observe_all_def)
  then show ?thesis
    using observe_all_constrained [OF assms(1,2)] observe_constrained [of "observe_all xs g" "Some t" now] assms(3)
    by simp
qed

theorem recovery_needs_margin_witness:
  "th_state (observe_all [(Some (Fin 82), 3), (Some (Fin 79), 4)]
     ((new_thermal default_thermal id_invalid)\<lparr>th_state := THERMALLY_CONSTRAINED\<rparr>)) = RECOVERING"
  using recovery_needs_margin [of "(new_thermal default_thermal id_invalid)\<lparr>th_state := THERMALLY_CONSTRAINED\<rparr>"
      "[(Some (Fin 82), 3)]" "Fin 79" 4]
  by (simp add: new_thermal_def default_thermal_def holds_constraint_def classify_raw_def)

text \<open>A lost reading forgets the constraint. After one missing sample a constrained device is
  \<^verbatim>\<open>UNKNOWN\<close>, and the next sample inside the recovery margin, which would have kept it constrained, is
  classified as if the device had never been constrained.\<close>

theorem missing_sample_forgets_constraint:
  assumes "th_state g = THERMALLY_CONSTRAINED" "holds_constraint (thresholds g) (Some t)"
    "classify_raw (thresholds g) t \<noteq> THERMALLY_CONSTRAINED"
  shows "th_state (observe_all [(Some t, now)] g) = THERMALLY_CONSTRAINED \<and>
    th_state (observe_all [(None, now), (Some t, now')] g) = classify_raw (thresholds g) t"
  using observe_constrained [OF assms(1), of "Some t" now] assms
  by (simp add: observe_def Let_def)

theorem missing_sample_forgets_constraint_witness:
  "th_state (observe_all [(None, 3), (Some (Fin 82), 4)]
     ((new_thermal default_thermal id_invalid)\<lparr>th_state := THERMALLY_CONSTRAINED\<rparr>)) = HOT"
  using missing_sample_forgets_constraint
    [of "(new_thermal default_thermal id_invalid)\<lparr>th_state := THERMALLY_CONSTRAINED\<rparr>" "Fin 82" 3 4]
  by (simp add: new_thermal_def default_thermal_def holds_constraint_def classify_raw_def)

end
