(* ===== verification/Workload.thy ===== *)
theory Workload
  imports Units
begin

text \<open>
  Workload power classes and their rules (\<^verbatim>\<open>workload_class.hpp\<close>) and the performance states
  (\<^verbatim>\<open>perf_state.hpp\<close>).
\<close>

section \<open>Workload power classes\<close>

datatype workload_power_class =
    LATENCY_CRITICAL
  | THROUGHPUT
  | BATCH
  | BACKGROUND
  | BEST_EFFORT
  | ENERGY_OPTIMIZED
  | THERMALLY_SENSITIVE
  | CUSTOM

fun class_to_string :: "workload_power_class \<Rightarrow> string" where
  "class_to_string LATENCY_CRITICAL = ''LATENCY_CRITICAL''"
| "class_to_string THROUGHPUT = ''THROUGHPUT''"
| "class_to_string BATCH = ''BATCH''"
| "class_to_string BACKGROUND = ''BACKGROUND''"
| "class_to_string BEST_EFFORT = ''BEST_EFFORT''"
| "class_to_string ENERGY_OPTIMIZED = ''ENERGY_OPTIMIZED''"
| "class_to_string THERMALLY_SENSITIVE = ''THERMALLY_SENSITIVE''"
| "class_to_string CUSTOM = ''CUSTOM''"

definition workload_class_from_string :: "string \<Rightarrow> workload_power_class res" where
  "workload_class_from_string s =
    (if s = ''LATENCY_CRITICAL'' then Inr LATENCY_CRITICAL
     else if s = ''THROUGHPUT'' then Inr THROUGHPUT
     else if s = ''BATCH'' then Inr BATCH
     else if s = ''BACKGROUND'' then Inr BACKGROUND
     else if s = ''BEST_EFFORT'' then Inr BEST_EFFORT
     else if s = ''ENERGY_OPTIMIZED'' then Inr ENERGY_OPTIMIZED
     else if s = ''THERMALLY_SENSITIVE'' then Inr THERMALLY_SENSITIVE
     else if s = ''CUSTOM'' then Inr CUSTOM
     else Inl InvalidArgument)"

record workload_class_rule =
  cls :: workload_power_class
  rule_priority :: int
  max_power_share :: "watts option"
  energy_target :: "joules option"
  burst_eligible :: bool
  latency_sensitivity :: int
  throttling_tolerance :: int
  min_service_level :: double

text \<open>The member initialisers of \<^verbatim>\<open>WorkloadClassRule\<close>.\<close>

definition empty_rule :: workload_class_rule where
  "empty_rule = \<lparr>cls = THROUGHPUT, rule_priority = 50, max_power_share = None, energy_target = None,
     burst_eligible = False, latency_sensitivity = 50, throttling_tolerance = 50,
     min_service_level = lit 0\<rparr>"

definition set_rule :: "int \<Rightarrow> bool \<Rightarrow> int \<Rightarrow> int \<Rightarrow> double \<Rightarrow> workload_class_rule \<Rightarrow> workload_class_rule" where
  "set_rule p b l t m r = r\<lparr>rule_priority := p, burst_eligible := b, latency_sensitivity := l,
     throttling_tolerance := t, min_service_level := m\<rparr>"

definition default_rule_for :: "workload_power_class \<Rightarrow> workload_class_rule" where
  "default_rule_for c = (let r = empty_rule\<lparr>cls := c\<rparr> in
     case c of
       LATENCY_CRITICAL \<Rightarrow> set_rule 100 True 100 5 (lit (19 / 20)) r
     | THROUGHPUT \<Rightarrow> set_rule 70 False 40 40 (lit (4 / 5)) r
     | BATCH \<Rightarrow> set_rule 55 False 20 70 (lit (1 / 2)) r
     | BACKGROUND \<Rightarrow> set_rule 25 False 5 90 (lit (1 / 5)) r
     | BEST_EFFORT \<Rightarrow> set_rule 10 False 5 100 (lit (0)) r
     | ENERGY_OPTIMIZED \<Rightarrow> set_rule 60 False 30 60 (lit (3 / 5)) r
     | THERMALLY_SENSITIVE \<Rightarrow> set_rule 85 False 90 10 (lit (9 / 10)) r
     | CUSTOM \<Rightarrow> r)"

section \<open>Performance states\<close>

datatype performance_state =
    ECO
  | EFFICIENT
  | BALANCED
  | PERFORMANCE
  | MAX_PERFORMANCE
  | THROTTLED
  | RECOVERY

fun perf_to_string :: "performance_state \<Rightarrow> string" where
  "perf_to_string ECO = ''ECO''"
| "perf_to_string EFFICIENT = ''EFFICIENT''"
| "perf_to_string BALANCED = ''BALANCED''"
| "perf_to_string PERFORMANCE = ''PERFORMANCE''"
| "perf_to_string MAX_PERFORMANCE = ''MAX_PERFORMANCE''"
| "perf_to_string THROTTLED = ''THROTTLED''"
| "perf_to_string RECOVERY = ''RECOVERY''"

definition perf_state_from_string :: "string \<Rightarrow> performance_state res" where
  "perf_state_from_string s =
    (if s = ''ECO'' then Inr ECO
     else if s = ''EFFICIENT'' then Inr EFFICIENT
     else if s = ''BALANCED'' then Inr BALANCED
     else if s = ''PERFORMANCE'' then Inr PERFORMANCE
     else if s = ''MAX_PERFORMANCE'' then Inr MAX_PERFORMANCE
     else if s = ''THROTTLED'' then Inr THROTTLED
     else if s = ''RECOVERY'' then Inr RECOVERY
     else Inl InvalidArgument)"

record performance_state_set =
  perf_requested :: performance_state
  perf_effective :: performance_state
  perf_observed :: performance_state
  throttling_inferred :: bool

section \<open>Names and rules\<close>

lemma class_string_roundtrip: "workload_class_from_string (class_to_string c) = Inr c"
  by (cases c) (simp_all add: workload_class_from_string_def)

lemma class_from_string_Inr: "workload_class_from_string s = Inr c \<Longrightarrow> class_to_string c = s"
  by (auto simp: workload_class_from_string_def split: if_splits)

lemma perf_string_roundtrip: "perf_state_from_string (perf_to_string p) = Inr p"
  by (cases p) (simp_all add: perf_state_from_string_def)

lemma perf_from_string_Inr: "perf_state_from_string s = Inr p \<Longrightarrow> perf_to_string p = s"
  by (auto simp: perf_state_from_string_def split: if_splits)

end
