(* ===== verification/Policy.thy ===== *)
theory Policy
  imports Thermal Workload
begin

text \<open>The power policy of \<^verbatim>\<open>policy.hpp\<close>.\<close>

section \<open>Parts of a policy\<close>

record energy_window =
  ew_budget :: joules
  ew_window :: duration
  ew_enforce :: bool

record burst_limits =
  bl_allowance :: watts
  bl_window :: duration
  bl_refill :: duration
  bl_enabled :: bool

record oversubscription_policy =
  os_allowed :: bool
  max_overcommit_factor :: double
  require_authority :: bool

datatype degraded_mode = REJECT_NEW | THROTTLE_ALL | DRAIN | UNCHANGED

fun degraded_to_string :: "degraded_mode \<Rightarrow> string" where
  "degraded_to_string REJECT_NEW = ''REJECT_NEW''"
| "degraded_to_string THROTTLE_ALL = ''THROTTLE_ALL''"
| "degraded_to_string DRAIN = ''DRAIN''"
| "degraded_to_string UNCHANGED = ''UNCHANGED''"

record hardware_control_permissions =
  set_power_limit :: bool
  set_clocks :: bool

definition default_energy_window :: energy_window where
  "default_energy_window = \<lparr>ew_budget = Fin 0, ew_window = 1000000000, ew_enforce = False\<rparr>"

definition default_burst_limits :: burst_limits where
  "default_burst_limits = \<lparr>bl_allowance = Fin 0, bl_window = 1000000000, bl_refill = 1000000000,
     bl_enabled = False\<rparr>"

definition default_oversubscription :: oversubscription_policy where
  "default_oversubscription = \<lparr>os_allowed = False, max_overcommit_factor = lit 1, require_authority = True\<rparr>"

definition default_permissions :: hardware_control_permissions where
  "default_permissions = \<lparr>set_power_limit = False, set_clocks = False\<rparr>"

section \<open>The policy\<close>

record power_policy =
  pol_id :: policy_id
  pol_generation :: policy_generation
  pol_name :: string
  fleet_hard_cap :: "watts option"
  node_hard_cap :: "watts option"
  device_hard_cap :: "watts option"
  pol_soft_target :: "watts option"
  energy_window :: energy_window
  burst_limits :: burst_limits
  thermal_thresholds :: thermal_thresholds
  default_priority :: int
  min_reserve_fraction :: double
  oversubscription :: oversubscription_policy
  degraded_mode :: degraded_mode
  hardware_controls :: hardware_control_permissions
  observation_freshness :: duration
  observation_stale :: duration
  observation_expired :: duration
  min_stable_duration :: duration
  decision_hysteresis :: duration
  recovery_threshold :: duration
  class_rules :: "(workload_power_class \<times> workload_class_rule) list"

definition empty_policy :: power_policy where
  "empty_policy = \<lparr>pol_id = id_invalid, pol_generation = gen_null, pol_name = '''',
     fleet_hard_cap = None, node_hard_cap = None, device_hard_cap = None, pol_soft_target = None,
     energy_window = default_energy_window, burst_limits = default_burst_limits,
     thermal_thresholds = default_thermal, default_priority = 50, min_reserve_fraction = lit (1 / 10),
     oversubscription = default_oversubscription, degraded_mode = UNCHANGED,
     hardware_controls = default_permissions, observation_freshness = 250000000,
     observation_stale = 1000000000, observation_expired = 10000000000,
     min_stable_duration = 200000000, decision_hysteresis = 150000000,
     recovery_threshold = 2000000000, class_rules = []\<rparr>"

definition all_classes :: "workload_power_class list" where
  "all_classes = [LATENCY_CRITICAL, THROUGHPUT, BATCH, BACKGROUND, BEST_EFFORT, ENERGY_OPTIMIZED,
     THERMALLY_SENSITIVE, CUSTOM]"

text \<open>\<^verbatim>\<open>p.class_rules[c] = default_rule_for(c)\<close> for every class in turn.\<close>

definition policy_defaults :: "policy_id \<Rightarrow> string \<Rightarrow> power_policy" where
  "policy_defaults pid name = empty_policy\<lparr>pol_id := pid, pol_generation := gen_first, pol_name := name,
     class_rules := fold (\<lambda>c rules. AList.update c (default_rule_for c) rules) all_classes []\<rparr>"

definition bump_generation :: "power_policy \<Rightarrow> power_policy" where
  "bump_generation p = p\<lparr>pol_generation := gen_next (pol_generation p)\<rparr>"

definition rule_for :: "power_policy \<Rightarrow> workload_power_class \<Rightarrow> workload_class_rule" where
  "rule_for p c = (case map_of (class_rules p) c of Some r \<Rightarrow> r | None \<Rightarrow> default_rule_for CUSTOM)"

definition policy_validate :: "power_policy \<Rightarrow> unit res" where
  "policy_validate p =
     (if min_reserve_fraction p < Fin 0 \<or> Fin 1 < min_reserve_fraction p then Inl InvalidArgument
      else if max_overcommit_factor (oversubscription p) < Fin 1 then Inl InvalidArgument
      else if ew_enforce (energy_window p) \<and> is_zero (ew_budget (energy_window p)) then Inl InvalidArgument
      else Inr ())"

section \<open>Default policies\<close>

lemma policy_defaults_rules:
  "map_of (class_rules (policy_defaults pid name)) c = Some (default_rule_for c)"
  by (cases c) (simp_all add: policy_defaults_def all_classes_def update_conv')

lemma rule_for_defaults: "rule_for (policy_defaults pid name) c = default_rule_for c"
  by (simp add: rule_for_def policy_defaults_rules)

lemma policy_defaults_valid: "policy_validate (policy_defaults pid name) = Inr ()"
proof -
  obtain r where r: "rnd64 (1 / 10) = Fin r" "0 \<le> r" "r \<le> 1"
    using b64.rnd_between [OF b64.grid_zero grid64_one, of "1 / 10"] by auto
  then show ?thesis
    by (simp add: policy_validate_def policy_defaults_def empty_policy_def default_oversubscription_def
        default_energy_window_def)
qed

end
