(* ===== verification/Energy.thy ===== *)
theory Energy
  imports Policy
begin

text \<open>
  Energy accounting (\<^verbatim>\<open>energy.hpp\<close>): the meter with one total per provenance, the window of power
  samples, and the energy budget of a window. The contract the energy window shares with the burst
  budget of \<^verbatim>\<open>burst.hpp\<close> is the locale \<open>window_budget\<close>.
\<close>

section \<open>Energy meter\<close>

datatype energy_provenance = MEASURED | REPORTED | DERIVED | ESTIMATED | EP_UNKNOWN

fun provenance_to_string :: "energy_provenance \<Rightarrow> string" where
  "provenance_to_string MEASURED = ''MEASURED''"
| "provenance_to_string REPORTED = ''REPORTED''"
| "provenance_to_string DERIVED = ''DERIVED''"
| "provenance_to_string ESTIMATED = ''ESTIMATED''"
| "provenance_to_string EP_UNKNOWN = ''UNKNOWN''"

fun provenance_index :: "energy_provenance \<Rightarrow> nat" where
  "provenance_index MEASURED = 0"
| "provenance_index REPORTED = 1"
| "provenance_index DERIVED = 2"
| "provenance_index ESTIMATED = 3"
| "provenance_index EP_UNKNOWN = 4"

record energy_sample =
  es_joules :: joules
  es_provenance :: energy_provenance
  es_at :: timestamp
  es_boot :: worker_boot_id
  es_generation :: observation_generation

record energy_meter =
  em_total :: joules
  by_provenance :: "joules list"
  em_last :: timestamp
  em_samples :: u64

definition new_meter :: energy_meter where
  "new_meter = \<lparr>em_total = Fin 0, by_provenance = replicate 5 (Fin 0), em_last = 0, em_samples = 0\<rparr>"

definition meter_add :: "joules \<Rightarrow> energy_provenance \<Rightarrow> timestamp \<Rightarrow> energy_meter \<Rightarrow> energy_meter res" where
  "meter_add j p t m = (if j < Fin 0 \<or> \<not> isfinite j then Inl InvalidArgument
     else let i = provenance_index p in
       Inr (m\<lparr>em_total := clamped (em_total m + j),
              by_provenance := (by_provenance m)[i := clamped (by_provenance m ! i + j)],
              em_last := t, em_samples := em_samples m + 1\<rparr>))"

definition meter_add_sample :: "energy_sample \<Rightarrow> energy_meter \<Rightarrow> energy_meter res" where
  "meter_add_sample s m = meter_add (es_joules s) (es_provenance s) (es_at s) m"

definition meter_by :: "energy_provenance \<Rightarrow> energy_meter \<Rightarrow> joules" where
  "meter_by p m = by_provenance m ! provenance_index p"

section \<open>Power window\<close>

record power_sample =
  ps_t :: timestamp
  ps_p :: watts

record power_window =
  pw_capacity :: duration
  pw_samples :: "power_sample list"
  pw_peak :: watts

definition new_power_window :: "duration \<Rightarrow> power_window" where
  "new_power_window d = \<lparr>pw_capacity = d, pw_samples = [], pw_peak = Fin 0\<rparr>"

text \<open>
  Trimming drops samples one by one and throws where the age of the oldest is not representable, so
  both loops return what the window holds when they end, with the exception if there is one. \<open>outcome_of\<close>
  is the view of a caller that does not catch it.
\<close>

fun trim :: "duration \<Rightarrow> timestamp \<Rightarrow> power_sample list \<Rightarrow> exn option \<times> power_sample list" where
  "trim cap now (x # y # z # rest) = (case elapsed_since now (ps_t x) of
     Inl e \<Rightarrow> (Some e, x # y # z # rest)
   | Inr age \<Rightarrow> if cap < age then trim cap now (y # z # rest) else (None, x # y # z # rest))"
| "trim cap now xs = (None, xs)"

definition pw_record :: "timestamp \<Rightarrow> watts \<Rightarrow> power_window \<Rightarrow> exn option \<times> power_window" where
  "pw_record t p w =
     (if \<not> isfinite p then (Some InvalidArgument, w)
      else if p < Fin 0 then (Some InvalidArgument, w)
      else if pw_samples w \<noteq> [] \<and> t < ps_t (last (pw_samples w)) then (Some InvalidArgument, w)
      else (case trim (pw_capacity w) t (pw_samples w @ [\<lparr>ps_t = t, ps_p = p\<rparr>]) of
        (e, xs) \<Rightarrow> (e, w\<lparr>pw_samples := xs, pw_peak := (if pw_peak w < p then p else pw_peak w)\<rparr>)))"

definition outcome_of :: "exn option \<times> 'a \<Rightarrow> 'a res" where
  "outcome_of r = (case r of (None, x) \<Rightarrow> Inr x | (Some e, _) \<Rightarrow> Inl e)"

fun integrate :: "double \<Rightarrow> power_sample list \<Rightarrow> double res" where
  "integrate acc (x # y # rest) = rbind (elapsed_since (ps_t y) (ps_t x)) (\<lambda>d.
     integrate (acc + lit (1 / 2) * (ps_p x + ps_p y) * seconds_f d) (y # rest))"
| "integrate acc _ = Inr acc"

definition integrated_energy_us :: "power_window \<Rightarrow> joules res" where
  "integrated_energy_us w = noexcept
     (if length (pw_samples w) < 2 then Joules (Fin 0)
      else rbind (integrate (lit 0) (pw_samples w)) Joules)"

definition span_seconds :: "power_window \<Rightarrow> double res" where
  "span_seconds w = noexcept
     (if length (pw_samples w) < 2 then Inr (lit 0)
      else rbind (elapsed_since (ps_t (last (pw_samples w))) (ps_t (hd (pw_samples w)))) (\<lambda>d.
        Inr (seconds_f d)))"

definition average_power :: "power_window \<Rightarrow> double res" where
  "average_power w = noexcept
     (if length (pw_samples w) < 2
      then Inr (if pw_samples w = [] then lit 0 else ps_p (hd (pw_samples w)))
      else rbind (integrated_energy_us w) (\<lambda>e. rbind (span_seconds w) (\<lambda>span.
        if span \<le> Fin 0 then Inr (ps_p (last (pw_samples w))) else Inr (e / span))))"

definition pw_clear :: "power_window \<Rightarrow> power_window" where
  "pw_clear w = w\<lparr>pw_samples := [], pw_peak := Fin 0\<rparr>"

section \<open>Energy window account\<close>

record energy_window_account =
  ewa_cfg :: energy_window
  ewa_consumed :: joules
  ewa_window_start :: timestamp
  ewa_started :: bool

definition new_account :: "energy_window \<Rightarrow> energy_window_account" where
  "new_account c = \<lparr>ewa_cfg = c, ewa_consumed = Fin 0, ewa_window_start = 0, ewa_started = False\<rparr>"

definition ewa_reset :: "energy_window_account \<Rightarrow> energy_window_account" where
  "ewa_reset a = a\<lparr>ewa_consumed := Fin 0, ewa_window_start := 0, ewa_started := False\<rparr>"

definition ewa_set_config :: "energy_window \<Rightarrow> energy_window_account \<Rightarrow> energy_window_account" where
  "ewa_set_config c a = ewa_reset (a\<lparr>ewa_cfg := c\<rparr>)"

definition ewa_elapsed :: "timestamp \<Rightarrow> energy_window_account \<Rightarrow> bool res" where
  "ewa_elapsed now a = (if \<not> ewa_started a then Inr False
     else rbind (elapsed_since now (ewa_window_start a)) (\<lambda>d. Inr (ew_window (ewa_cfg a) \<le> d)))"

definition ewa_remaining :: "timestamp \<Rightarrow> energy_window_account \<Rightarrow> joules res" where
  "ewa_remaining now a =
     (if \<not> ew_enforce (ewa_cfg a) then Joules (Fin 0)
      else rbind (ewa_elapsed now a) (\<lambda>el.
        if el then Inr (ew_budget (ewa_cfg a))
        else let left = ew_budget (ewa_cfg a) - ewa_consumed a
             in Joules (if left < Fin 0 then Fin 0 else left)))"

definition ewa_can_consume :: "joules \<Rightarrow> timestamp \<Rightarrow> energy_window_account \<Rightarrow> bool res" where
  "ewa_can_consume j now a =
     (if \<not> ew_enforce (ewa_cfg a) then Inr (Fin 0 \<le> j \<and> isfinite j)
      else rbind (ewa_remaining now a) (\<lambda>r. Inr (j \<le> r + eps9 \<and> Fin 0 \<le> j)))"

definition ewa_consume :: "joules \<Rightarrow> timestamp \<Rightarrow> energy_window_account \<Rightarrow> (bool \<times> energy_window_account) res" where
  "ewa_consume j now a =
     (if \<not> ew_enforce (ewa_cfg a) then Inr (True, a\<lparr>ewa_consumed := clamped (ewa_consumed a + j)\<rparr>)
      else rbind
        (if \<not> ewa_started a then Inr (a\<lparr>ewa_window_start := now, ewa_started := True\<rparr>)
         else rbind (elapsed_since now (ewa_window_start a)) (\<lambda>d.
           if ew_window (ewa_cfg a) \<le> d
           then Inr (a\<lparr>ewa_window_start := now, ewa_consumed := Fin 0\<rparr>) else Inr a)) (\<lambda>a.
        rbind (ewa_can_consume j now a) (\<lambda>ok.
          if \<not> ok then Inr (False, a)
          else Inr (True, a\<lparr>ewa_consumed := clamped (ewa_consumed a + j)\<rparr>))))"

definition ewa_consumed_at :: "timestamp \<Rightarrow> energy_window_account \<Rightarrow> joules res" where
  "ewa_consumed_at now a =
     (if ew_enforce (ewa_cfg a) \<and> ewa_started a
      then rbind (elapsed_since now (ewa_window_start a)) (\<lambda>d.
        if ew_window (ewa_cfg a) \<le> d then Joules (Fin 0) else Inr (ewa_consumed a))
      else Inr (ewa_consumed a))"

section \<open>The meter\<close>

definition meter_sum :: "energy_meter \<Rightarrow> rat" where
  "meter_sum m = sum_list (map dval (by_provenance m))"

text \<open>The meter holds whole joules and its total is the sum of the per-provenance totals.\<close>

definition meter_exact :: "nat \<Rightarrow> energy_meter \<Rightarrow> bool" where
  "meter_exact n m \<longleftrightarrow> em_total m = Fin (of_nat n) \<and>
     (\<exists>ns. by_provenance m = map (\<lambda>k. Fin (of_nat k)) ns \<and> length ns = 5 \<and> sum_list ns = n)"

lemma rnd64_nat: "n \<le> 2 ^ 53 \<Longrightarrow> rnd64 (of_nat n) = Fin (of_nat n)"
  using rnd64_int [of "int n"] by (simp flip: of_nat_le_iff)

lemma clamped_add_nat: "a + b \<le> 2 ^ 53 \<Longrightarrow> clamped (Fin (of_nat a) + Fin (of_nat b)) = Fin (of_nat (a + b))"
  using rnd64_nat [of "a + b"] by simp

lemma provenance_index_less: "provenance_index p < 5"
  by (cases p) simp_all

lemma meter_add_exact:
  assumes "meter_exact n m" "n + k \<le> 2 ^ 53" "meter_add (Fin (of_nat k)) p t m = Inr m'"
  shows "meter_exact (n + k) m'"
    and "meter_by p m' = Fin (dval (meter_by p m) + of_nat k)"
    and "q \<noteq> p \<Longrightarrow> meter_by q m' = meter_by q m"
proof -
  obtain ns where ns: "by_provenance m = map (\<lambda>k. Fin (of_nat k)) ns" "length ns = 5" "sum_list ns = n"
    and tot: "em_total m = Fin (of_nat n)" using assms(1) by (auto simp: meter_exact_def)
  let ?i = "provenance_index p"
  have i: "?i < length ns" using provenance_index_less ns(2) by simp
  have le: "ns ! ?i + k \<le> 2 ^ 53" using elem_le_sum_list [OF i] ns(3) assms(2) by simp
  have m': "m' = m\<lparr>em_total := clamped (em_total m + Fin (of_nat k)),
      by_provenance := (by_provenance m)[?i := clamped (by_provenance m ! ?i + Fin (of_nat k))],
      em_last := t, em_samples := em_samples m + 1\<rparr>"
    using assms(3) by (simp add: meter_add_def Let_def)
  have upd: "by_provenance m' = map (\<lambda>k. Fin (of_nat k)) (ns[?i := ns ! ?i + k])"
    using i clamped_add_nat [OF le] by (simp add: m' ns(1) map_update)
  moreover have "sum_list (ns[?i := ns ! ?i + k]) = n + k"
    using sum_list_update [OF i, of "ns ! ?i + k"] elem_le_sum_list [OF i] ns(3) by simp
  moreover have "em_total m' = Fin (of_nat (n + k))"
    using clamped_add_nat [OF assms(2)] by (simp add: m' tot)
  ultimately show "meter_exact (n + k) m'" using ns(2) by (auto simp: meter_exact_def)
  show "meter_by p m' = Fin (dval (meter_by p m) + of_nat k)"
    using i by (simp add: meter_by_def upd ns(1))
  have ne: "provenance_index q \<noteq> ?i" if "q \<noteq> p" using that by (cases p; cases q) simp_all
  show "meter_by q m' = meter_by q m" if "q \<noteq> p" using ne [OF that] by (simp add: meter_by_def m')
qed

section \<open>The power window\<close>

definition pw_ok :: "power_window \<Rightarrow> bool" where
  "pw_ok w \<longleftrightarrow> sorted (map ps_t (pw_samples w)) \<and>
     (\<forall>x \<in> set (pw_samples w). ts_ok (ps_t x) \<and> isfinite (ps_p x) \<and> Fin 0 \<le> ps_p x \<and> ps_p x \<le> pw_peak w)"

lemma trim_suffix: "trim cap now xs = (e, ys) \<Longrightarrow> \<exists>zs. xs = zs @ ys"
proof (induction cap now xs rule: trim.induct)
  case (1 cap now x y z rest)
  then show ?case by (auto split: if_splits sum.splits)
qed auto

lemma trim_total:
  "\<forall>x \<in> set xs. ts_ok (ps_t x) \<Longrightarrow> ts_ok now \<Longrightarrow> \<exists>ys. trim cap now xs = (None, ys)"
  by (induction cap now xs rule: trim.induct) auto

lemma trim_result: "trim cap now xs = (None, ys) \<Longrightarrow> length ys \<le> 2 \<or> now - ps_t (hd ys) \<le> cap"
proof (induction cap now xs rule: trim.induct)
  case (1 cap now x y z rest)
  from "1.prems" obtain age where age: "elapsed_since now (ps_t x) = Inr age"
    "(if cap < age then trim cap now (y # z # rest) else (None, x # y # z # rest)) = (None, ys)"
    by (auto split: sum.splits)
  then show ?case using "1.IH" elapsed_since_Inr [OF age(1)] by (cases "cap < age") auto
qed auto

lemma trim_last: "trim cap now xs = (e, ys) \<Longrightarrow> xs \<noteq> [] \<Longrightarrow> ys \<noteq> [] \<and> last ys = last xs"
  by (induction cap now xs rule: trim.induct) (auto split: if_splits sum.splits)

text \<open>A sample the trimming throws on is in the window all the same, and counts for the peak.\<close>

lemma pw_record_keeps_sample:
  assumes "isfinite p" "Fin 0 \<le> p" "pw_samples w \<noteq> [] \<Longrightarrow> ps_t (last (pw_samples w)) \<le> t"
  shows "last (pw_samples (snd (pw_record t p w))) = \<lparr>ps_t = t, ps_p = p\<rparr> \<and>
    pw_peak (snd (pw_record t p w)) = (if pw_peak w < p then p else pw_peak w)"
proof -
  obtain e ys where ys: "trim (pw_capacity w) t (pw_samples w @ [\<lparr>ps_t = t, ps_p = p\<rparr>]) = (e, ys)"
    by (rule prod.exhaust)
  have "\<not> p < Fin 0" using assms(1,2) by auto
  then show ?thesis using assms ys trim_last [OF ys] by (auto simp: pw_record_def)
qed

lemma pw_record_ok:
  assumes ok: "pw_ok w" and t: "ts_ok t" "pw_samples w \<noteq> [] \<Longrightarrow> ps_t (last (pw_samples w)) \<le> t"
    and p: "isfinite p" "Fin 0 \<le> p" and peak: "isfinite (pw_peak w)"
  obtains w' where "pw_record t p w = (None, w')" "pw_ok w'" "isfinite (pw_peak w')"
    "last (pw_samples w') = \<lparr>ps_t = t, ps_p = p\<rparr>" "pw_samples w' \<noteq> []"
    "length (pw_samples w') \<le> 2 \<or> t - ps_t (hd (pw_samples w')) \<le> pw_capacity w"
proof -
  let ?s = "\<lparr>ps_t = t, ps_p = p\<rparr>"
  let ?xs = "pw_samples w @ [?s]"
  let ?pk = "if pw_peak w < p then p else pw_peak w"
  have sorted_le: "ps_t x \<le> t" if "x \<in> set (pw_samples w)" for x
  proof -
    have "ps_t x \<le> ps_t (last (pw_samples w))" using ok that by (simp add: pw_ok_def sorted_map_last)
    then show ?thesis using t(2) that by fastforce
  qed
  have srt: "sorted (map ps_t ?xs)" using ok sorted_le by (auto simp: pw_ok_def sorted_append)
  have pk: "isfinite ?pk" "p \<le> ?pk" "\<And>x. x \<le> pw_peak w \<Longrightarrow> x \<le> ?pk"
    using p peak by (auto simp: not_less double_le_trans)
  have all: "\<forall>x \<in> set ?xs. ts_ok (ps_t x) \<and> isfinite (ps_p x) \<and> Fin 0 \<le> ps_p x \<and> ps_p x \<le> ?pk"
    using ok t(1) p pk by (auto simp: pw_ok_def)
  obtain ys where ys: "trim (pw_capacity w) t ?xs = (None, ys)"
    using trim_total [of ?xs t] all t(1) by blast
  then obtain zs where zs: "?xs = zs @ ys" using trim_suffix by blast
  let ?w = "w\<lparr>pw_samples := ys, pw_peak := ?pk\<rparr>"
  have "\<not> p < Fin 0" using p by auto
  then have "pw_record t p w = (None, ?w)"
    using p ys t(2) by (auto simp: pw_record_def)
  moreover have "pw_ok ?w"
    using srt all unfolding zs by (simp add: pw_ok_def sorted_append)
  moreover have "ys \<noteq> [] \<and> last ys = ?s" using trim_last [OF ys] by simp
  ultimately show thesis using that [of ?w] pk(1) trim_result [OF ys] by simp
qed

section \<open>Budgets that refill with a window\<close>

definition clamp_neg :: "double \<Rightarrow> double" where
  "clamp_neg d = (if d < Fin 0 then Fin 0 else d)"

lemma Joules_clamp_neg:
  assumes "quantity_ok x" "quantity_ok y" shows "Joules (clamp_neg (x - y)) = Inr (clamp_neg (x - y))"
proof -
  obtain a b where x: "x = Fin a" "0 \<le> a" "grid64 a" and y: "y = Fin b" "0 \<le> b" "grid64 b"
    using assms by (auto elim!: quantity_okE)
  obtain r where "rnd64 (a - b) = Fin r"
    using b64.rnd_between [OF b64.grid_minus [OF y(3)] x(3), of "a - b"] x(2) y(2) by auto
  then show ?thesis by (simp add: x(1) y(1) clamp_neg_def)
qed

lemma quantity_ok_clamped_add: "quantity_ok c \<Longrightarrow> quantity_ok (clamped (c + j))"
  using b64.grid_zero by (cases j) (auto elim!: quantity_okE)

text \<open>Attempts to consume, one after the other.\<close>

fun consume_all :: "(joules \<Rightarrow> timestamp \<Rightarrow> 's \<Rightarrow> (bool \<times> 's) res) \<Rightarrow> (joules \<times> timestamp) list \<Rightarrow> 's \<Rightarrow> 's res"
where
  "consume_all consume [] s = Inr s"
| "consume_all consume ((j, now) # xs) s = rbind (consume j now s) (\<lambda>(ok, s). consume_all consume xs s)"

text \<open>
  The contract: an attempt keeps the capacity; a refusal leaves the consumed energy or resets it at a
  window boundary; an acceptance adds an amount that fits what is left, up to the tolerance.
\<close>

locale window_budget =
  fixes consume :: "joules \<Rightarrow> timestamp \<Rightarrow> 's \<Rightarrow> (bool \<times> 's) res"
    and spent :: "'s \<Rightarrow> joules" and cap :: "'s \<Rightarrow> joules" and enforced :: "'s \<Rightarrow> bool"
  assumes consume_keeps: "enforced s \<Longrightarrow> consume j now s = Inr (ok, s') \<Longrightarrow> enforced s' \<and> cap s' = cap s"
    and consume_refused: "enforced s \<Longrightarrow> consume j now s = Inr (False, s') \<Longrightarrow>
      spent s' = spent s \<or> spent s' = Fin 0"
    and consume_accepted: "enforced s \<Longrightarrow> consume j now s = Inr (True, s') \<Longrightarrow>
      \<exists>c. (c = spent s \<or> c = Fin 0) \<and> spent s' = clamped (c + j) \<and> Fin 0 \<le> j \<and>
        j \<le> clamp_neg (cap s - c) + eps9"
begin

definition in_budget :: "nat \<Rightarrow> 's \<Rightarrow> bool" where
  "in_budget n s \<longleftrightarrow> enforced s \<and> quantity_ok (cap s) \<and> dval (cap s) \<le> 2 ^ 20 - 1 \<and> quantity_ok (spent s) \<and>
     dval (spent s) \<le> dval (cap s) + 3 * of_nat n / 1000000000"

lemma step_in_budget:
  assumes inv: "in_budget n s" and n: "n \<le> 100000000" and step: "consume j now s = Inr (ok, s')"
  shows "in_budget (Suc n) s'"
proof -
  obtain b where b: "cap s = Fin b" "0 \<le> b" "b \<le> 2 ^ 20 - 1" "grid64 b"
    using inv by (auto simp: in_budget_def elim!: quantity_okE)
  have keep: "enforced s'" "cap s' = Fin b" using consume_keeps [OF _ step] inv b by (auto simp: in_budget_def)
  have nn: "rat_of_nat n \<le> 100000000" using n by (metis of_nat_le_iff of_nat_numeral)
  have small: "\<exists>c. x = Fin c \<and> 0 \<le> c \<and> c \<le> 2 ^ 20 \<and> grid64 c \<and> c \<le> b + 3 * of_nat n / 1000000000"
    if "x = spent s \<or> x = Fin 0" for x
    using that inv b nn b64.grid_zero by (auto simp: in_budget_def elim!: quantity_okE)
  show ?thesis
  proof (cases ok)
    case False
    with step have "spent s' = spent s \<or> spent s' = Fin 0"
      using consume_refused inv by (auto simp: in_budget_def)
    from small [OF this] show ?thesis using keep b by (auto simp: in_budget_def field_simps)
  next
    case True
    with step have acc: "consume j now s = Inr (True, s')" by simp
    have "enforced s" using inv by (simp add: in_budget_def)
    from consume_accepted [OF this acc] obtain x where x: "x = spent s \<or> x = Fin 0"
      "spent s' = clamped (x + j)" "Fin 0 \<le> j" "j \<le> clamp_neg (cap s - x) + eps9" by blast
    from small [OF x(1)] obtain c where c: "x = Fin c" "0 \<le> c" "c \<le> 2 ^ 20"
      "c \<le> b + 3 * of_nat n / 1000000000" by blast
    have "\<bar>b - c\<bar> \<le> 2 ^ 20" using b c by (simp add: abs_le_iff)
    then obtain d where d: "rnd64 (b - c) = Fin d" "\<bar>d - (b - c)\<bar> \<le> 2 ^ 20 / 2 ^ 53" "\<bar>d\<bar> \<le> 2 ^ 20"
      by (rule rnd64_bounded) simp_all
    have "\<bar>max 0 d + eps9_val\<bar> \<le> 2 ^ 21" using d(3) eps9_bounds by (simp add: abs_le_iff max_def)
    then obtain w where w: "rnd64 (max 0 d + eps9_val) = Fin w" "\<bar>w - (max 0 d + eps9_val)\<bar> \<le> 2 ^ 21 / 2 ^ 53"
      by (rule rnd64_bounded) simp_all
    have "clamp_neg (Fin d) = Fin (max 0 d)" by (simp add: clamp_neg_def max_def)
    then have "j \<le> Fin w" using x(4) by (simp add: b c(1) d(1) eps9_Fin w)
    then obtain a where a: "j = Fin a" "0 \<le> a" "a \<le> w" using x(3) by (cases j) auto
    have "a + c \<le> max c b + 2 / 1000000000" "a \<le> 2 ^ 21 + 1"
      using a(3) abs_le_D1 [OF w(2)] abs_le_D1 [OF d(2)] abs_le_D1 [OF d(3)] eps9_bounds
      by (cases "0 \<le> d"; cases "c \<le> b"; simp add: max_def)+
    moreover note clamped_add_bound [OF c(2) a(2) c(3) this(2)]
    ultimately have "dval (spent s') \<le> b + 3 * of_nat (Suc n) / 1000000000"
      using c(4) unfolding x(2) c(1) a(1) by (simp add: field_simps max_def split: if_splits)
    moreover have "quantity_ok (spent s')" unfolding x(2) c(1) a(1) by simp
    ultimately show ?thesis using keep b by (simp add: in_budget_def)
  qed
qed

lemma consume_all_in_budget:
  "in_budget n s \<Longrightarrow> n + length xs \<le> 100000000 \<Longrightarrow> consume_all consume xs s = Inr s' \<Longrightarrow>
    in_budget (n + length xs) s' \<and> cap s' = cap s"
proof (induction xs arbitrary: n s)
  case (Cons x xs)
  obtain j now where x: "x = (j, now)" by (cases x)
  from Cons.prems(3) obtain ok t where t: "consume j now s = Inr (ok, t)" "consume_all consume xs t = Inr s'"
    by (auto simp: x)
  have "in_budget (Suc n) t" using step_in_budget [OF Cons.prems(1) _ t(1)] Cons.prems(2) by simp
  from Cons.IH [OF this _ t(2)] Cons.prems(2) have "in_budget (n + length (x # xs)) s'" "cap s' = cap t"
    by simp_all
  moreover have "cap t = cap s" using consume_keeps [OF _ t(1)] Cons.prems(1) by (simp add: in_budget_def)
  ultimately show ?case by simp
qed simp

lemma never_overrun:
  assumes "in_budget 0 s" "length xs \<le> 100000000" "consume_all consume xs s = Inr s'"
  shows "dval (spent s') \<le> dval (cap s) + 3 * of_nat (length xs) / 1000000000"
  using consume_all_in_budget [OF assms(1) _ assms(3)] assms(2) by (auto simp: in_budget_def)

end

text \<open>A budget whose attempts always return, for time stamps the duration type can hold.\<close>

locale total_window_budget = window_budget consume spent cap enforced
  for consume :: "joules \<Rightarrow> timestamp \<Rightarrow> 's \<Rightarrow> (bool \<times> 's) res"
    and spent :: "'s \<Rightarrow> joules" and cap :: "'s \<Rightarrow> joules" and enforced :: "'s \<Rightarrow> bool" +
  fixes ready :: "'s \<Rightarrow> bool"
  assumes consume_returns: "enforced s \<Longrightarrow> ready s \<Longrightarrow> ts_ok now \<Longrightarrow>
    \<exists>ok s'. consume j now s = Inr (ok, s') \<and> ready s'"
begin

lemma consume_all_returns:
  "enforced s \<Longrightarrow> ready s \<Longrightarrow> \<forall>(j, now) \<in> set xs. ts_ok now \<Longrightarrow> \<exists>s'. consume_all consume xs s = Inr s'"
proof (induction xs arbitrary: s)
  case (Cons x xs)
  obtain j now where x: "x = (j, now)" by (cases x)
  have "ts_ok now" using Cons.prems(3) by (simp add: x)
  from consume_returns [OF Cons.prems(1,2) this, of j]
  obtain ok t where t: "consume j now s = Inr (ok, t)" "ready t" by blast
  have "enforced t" using consume_keeps [OF Cons.prems(1) t(1)] by simp
  then show ?case using Cons.IH [of t] Cons.prems(3) t by (auto simp: x)
qed simp

lemma returns_within_budget:
  assumes "in_budget 0 s" "ready s" "\<forall>(j, now) \<in> set xs. ts_ok now" "length xs \<le> 100000000"
  shows "\<exists>s'. consume_all consume xs s = Inr s' \<and>
    dval (spent s') \<le> dval (cap s) + 3 * of_nat (length xs) / 1000000000"
  using consume_all_returns [OF _ assms(2,3)] never_overrun [OF assms(1,4)] assms(1)
  by (auto simp: in_budget_def)

end

text \<open>An enforced account that has not opened a window has consumed nothing.\<close>

definition ewa_enforced :: "energy_window_account \<Rightarrow> bool" where
  "ewa_enforced a \<longleftrightarrow> ew_enforce (ewa_cfg a) \<and> (\<not> ewa_started a \<longrightarrow> ewa_consumed a = Fin 0)"

definition ewa_cap :: "energy_window_account \<Rightarrow> joules" where
  "ewa_cap a = ew_budget (ewa_cfg a)"

lemma ewa_can_consume_fits:
  assumes "ewa_enforced a" "ewa_can_consume j now a = Inr True"
  shows "Fin 0 \<le> j \<and> (j \<le> clamp_neg (ewa_cap a - ewa_consumed a) + eps9 \<or>
    ewa_elapsed now a = Inr True \<and> j \<le> ewa_cap a + eps9)"
  using assms
  by (auto simp: ewa_can_consume_def ewa_remaining_def ewa_enforced_def ewa_cap_def clamp_neg_def Let_def
      split: if_splits)

lemma ewa_elapsed_fresh:
  "ewa_elapsed now (a\<lparr>ewa_window_start := now, ewa_started := True\<rparr>) = Inr (ew_window (ewa_cfg a) \<le> 0)"
  by (simp add: ewa_elapsed_def)

lemma ewa_consume_cases:
  assumes "ewa_enforced a" "ewa_consume j now a = Inr (ok, a')"
  obtains b where "ewa_enforced b" "ewa_cap b = ewa_cap a" "ewa_cfg b = ewa_cfg a"
    "ewa_can_consume j now b = Inr ok"
    "ewa_consumed b = ewa_consumed a \<or> ewa_consumed b = Fin 0"
    "ewa_elapsed now b = Inr True \<longrightarrow> ewa_consumed b = Fin 0"
    "a' = (if ok then b\<lparr>ewa_consumed := clamped (ewa_consumed b + j)\<rparr> else b)" "ewa_started b"
proof (cases "ewa_started a")
  case False
  let ?b = "a\<lparr>ewa_window_start := now, ewa_started := True\<rparr>"
  show ?thesis using assms False
    by (intro that [of ?b]) (auto simp: ewa_consume_def ewa_enforced_def ewa_cap_def split: if_splits)
next
  case True
  from assms True obtain d where d: "elapsed_since now (ewa_window_start a) = Inr d"
    by (auto simp: ewa_consume_def ewa_enforced_def split: if_splits)
  let ?b = "if ew_window (ewa_cfg a) \<le> d then a\<lparr>ewa_window_start := now, ewa_consumed := Fin 0\<rparr> else a"
  show ?thesis using assms True d
    by (intro that [of ?b]) (auto simp: ewa_consume_def ewa_enforced_def ewa_cap_def ewa_elapsed_def split: if_splits)
qed

lemma clamp_neg_minus_zero: "quantity_ok c \<Longrightarrow> clamp_neg (c - Fin 0) = c"
  by (auto simp: clamp_neg_def b64.rnd_grid elim!: quantity_okE)

interpretation energy_account: window_budget ewa_consume ewa_consumed ewa_cap
    "\<lambda>a. ewa_enforced a \<and> quantity_ok (ewa_cap a)"
proof
  fix a j now ok a'
  assume a: "ewa_enforced a \<and> quantity_ok (ewa_cap a)" and c: "ewa_consume j now a = Inr (ok, a')"
  obtain b where "ewa_enforced b" "ewa_cap b = ewa_cap a" "ewa_started b"
    "a' = (if ok then b\<lparr>ewa_consumed := clamped (ewa_consumed b + j)\<rparr> else b)"
    by (rule ewa_consume_cases [OF conjunct1 [OF a] c])
  then show "(ewa_enforced a' \<and> quantity_ok (ewa_cap a')) \<and> ewa_cap a' = ewa_cap a"
    using a by (auto simp: ewa_enforced_def ewa_cap_def)
next
  fix a j now a'
  assume a: "ewa_enforced a \<and> quantity_ok (ewa_cap a)" and c: "ewa_consume j now a = Inr (False, a')"
  show "ewa_consumed a' = ewa_consumed a \<or> ewa_consumed a' = Fin 0"
    by (rule ewa_consume_cases [OF conjunct1 [OF a] c]) auto
next
  fix a j now a'
  assume a: "ewa_enforced a \<and> quantity_ok (ewa_cap a)" and c: "ewa_consume j now a = Inr (True, a')"
  obtain b where b: "ewa_enforced b" "ewa_cap b = ewa_cap a" "ewa_can_consume j now b = Inr True"
    "ewa_consumed b = ewa_consumed a \<or> ewa_consumed b = Fin 0"
    "ewa_elapsed now b = Inr True \<longrightarrow> ewa_consumed b = Fin 0"
    "a' = b\<lparr>ewa_consumed := clamped (ewa_consumed b + j)\<rparr>"
    by (rule ewa_consume_cases [OF conjunct1 [OF a] c]) auto
  show "\<exists>x. (x = ewa_consumed a \<or> x = Fin 0) \<and> ewa_consumed a' = clamped (x + j) \<and> Fin 0 \<le> j \<and>
      j \<le> clamp_neg (ewa_cap a - x) + eps9"
    using ewa_can_consume_fits [OF b(1,3)] b a clamp_neg_minus_zero [of "ewa_cap a"]
    by (intro exI [of _ "ewa_consumed b"]) auto
qed

lemma ewa_remaining_returns:
  assumes "quantity_ok (ewa_cap a)" "quantity_ok (ewa_consumed a)" "ewa_elapsed now a = Inr el"
  shows "\<exists>r. ewa_remaining now a = Inr r"
  using assms Joules_clamp_neg [OF assms(1,2)]
  by (auto simp: ewa_remaining_def ewa_cap_def clamp_neg_def Let_def Quantity_power_eq)

interpretation energy_account: total_window_budget ewa_consume ewa_consumed ewa_cap
    "\<lambda>a. ewa_enforced a \<and> quantity_ok (ewa_cap a)"
    "\<lambda>a. quantity_ok (ewa_consumed a) \<and> ts_ok (ewa_window_start a)"
proof
  fix a j now
  assume en: "ewa_enforced a \<and> quantity_ok (ewa_cap a)"
    and r: "quantity_ok (ewa_consumed a) \<and> ts_ok (ewa_window_start a)" and now: "ts_ok now"
  define b where "b = (if \<not> ewa_started a then a\<lparr>ewa_window_start := now, ewa_started := True\<rparr>
    else if ew_window (ewa_cfg a) \<le> max 0 (now - ewa_window_start a)
    then a\<lparr>ewa_window_start := now, ewa_consumed := Fin 0\<rparr> else a)"
  have b: "quantity_ok (ewa_cap b)" "quantity_ok (ewa_consumed b)" "ts_ok (ewa_window_start b)" "ew_enforce (ewa_cfg b)"
    using en r now b64.grid_zero by (auto simp: ewa_cap_def ewa_enforced_def b_def)
  obtain el where "ewa_elapsed now b = Inr el" using now b(3) by (cases "ewa_started b") (auto simp: ewa_elapsed_def)
  from ewa_remaining_returns [OF b(1,2) this] obtain q where q: "ewa_remaining now b = Inr q" by blast
  have can: "ewa_can_consume j now b = Inr (j \<le> q + eps9 \<and> Fin 0 \<le> j)"
    using b(4) q by (simp add: ewa_can_consume_def)
  have "ewa_consume j now a = rbind (Inr b) (\<lambda>a. rbind (ewa_can_consume j now a) (\<lambda>ok.
      if \<not> ok then Inr (False, a) else Inr (True, a\<lparr>ewa_consumed := clamped (ewa_consumed a + j)\<rparr>)))"
    using en r now unfolding ewa_consume_def b_def ewa_enforced_def by simp
  then have "ewa_consume j now a = (if j \<le> q + eps9 \<and> Fin 0 \<le> j
      then Inr (True, b\<lparr>ewa_consumed := clamped (ewa_consumed b + j)\<rparr>) else Inr (False, b))"
    by (simp add: can)
  then show "\<exists>ok s'. ewa_consume j now a = Inr (ok, s') \<and>
      quantity_ok (ewa_consumed s') \<and> ts_ok (ewa_window_start s')"
    using b quantity_ok_clamped_add [OF b(2), of j]
    by (cases "j \<le> q + eps9 \<and> Fin 0 \<le> j") auto
qed

section \<open>Properties\<close>



text \<open>The meter separates provenances without losing energy: while whole joules are metered and
  the total stays below \<open>2 ^ 53\<close>, the total is exactly the sum of the per-provenance totals, and a
  sample changes only the total of its own provenance.\<close>

theorem meter_keeps_provenance:
  assumes "meter_exact n m" "n + k \<le> 2 ^ 53" "meter_add (Fin (of_nat k)) p t m = Inr m'"
  shows "dval (em_total m') = meter_sum m' \<and> dval (em_total m') = dval (em_total m) + of_nat k \<and>
    meter_by p m' = Fin (dval (meter_by p m) + of_nat k) \<and>
    (\<forall>q. q \<noteq> p \<longrightarrow> meter_by q m' = meter_by q m) \<and> meter_exact (n + k) m'"
proof -
  have sum: "dval (em_total x) = meter_sum x \<and> dval (em_total x) = of_nat i" if "meter_exact i x" for i x
    using that by (auto simp: meter_exact_def meter_sum_def comp_def of_nat_sum_list)
  show ?thesis using meter_add_exact [OF assms] meter_add_exact(3) [OF assms] sum [OF assms(1)]
      sum [OF meter_add_exact(1) [OF assms]] by simp
qed

theorem meter_keeps_provenance_witness:
  "\<exists>m'. meter_add (Fin 5) MEASURED 1 new_meter = Inr m' \<and> dval (em_total m') = meter_sum m'"
proof -
  have "meter_exact 0 new_meter"
    by (auto simp: meter_exact_def new_meter_def intro!: exI [of _ "replicate 5 0"])
  moreover obtain m' where "meter_add (Fin (of_nat 5)) MEASURED 1 new_meter = Inr m'"
    by (simp add: meter_add_def Let_def)
  ultimately show ?thesis using meter_keeps_provenance [of 0 new_meter 5 MEASURED 1 m'] by auto
qed

text \<open>The power window keeps its samples in order and bounded: recording a later sample of finite,
  non-negative power always succeeds; afterwards the retained samples are in time order and end with
  the new one, none exceeds the recorded peak, and unless only two are left they all lie within the
  window's capacity.\<close>

theorem power_window_record:
  assumes "pw_ok w" "isfinite (pw_peak w)" "ts_ok t" "\<forall>x \<in> set (pw_samples w). ps_t x \<le> t"
    "isfinite p" "Fin 0 \<le> p"
  shows "\<exists>w'. pw_record t p w = (None, w') \<and> pw_ok w' \<and> isfinite (pw_peak w') \<and>
    last (pw_samples w') = \<lparr>ps_t = t, ps_p = p\<rparr> \<and>
    (length (pw_samples w') \<le> 2 \<or> (\<forall>x \<in> set (pw_samples w'). t - ps_t x \<le> pw_capacity w))"
proof -
  obtain w' where w': "pw_record t p w = (None, w')" "pw_ok w'" "isfinite (pw_peak w')"
    "last (pw_samples w') = \<lparr>ps_t = t, ps_p = p\<rparr>" "pw_samples w' \<noteq> []"
    "length (pw_samples w') \<le> 2 \<or> t - ps_t (hd (pw_samples w')) \<le> pw_capacity w"
    using pw_record_ok [OF assms(1,3) _ assms(5,6,2)] assms(4) by auto
  have "ps_t (hd (pw_samples w')) \<le> ps_t x" if "x \<in> set (pw_samples w')" for x
    using w'(2,5) that by (cases "pw_samples w'") (auto simp: pw_ok_def)
  then show ?thesis using w' by fastforce
qed

theorem power_window_record_witness:
  "\<exists>w'. pw_record 5 (Fin 100) (new_power_window 1000) = (None, w') \<and> pw_ok w'"
  using power_window_record [of "new_power_window 1000" 5 "Fin 100"]
  by (auto simp: new_power_window_def pw_ok_def ts_ok_def kMaxNs_def)

end
