(* ===== verification/Reservation.thy ===== *)
theory Reservation
  imports Budget Authority Energy
begin

text \<open>
  The reservation manager of \<^verbatim>\<open>reservation.hpp\<close>: its \<^verbatim>\<open>unordered_map\<close> of reservations is an association
  list, the static allocator of \<^verbatim>\<open>ReservationId\<close> is a counter, and the budget manager a call mutates is
  passed in and returned. An unknown identifier throws \<open>OutOfRange\<close>.
\<close>

section \<open>State\<close>

datatype reservation_state = PLANNED | VALIDATED | RESERVED | ADMITTED | ACTIVE | RELEASED | EXPIRED

fun reservation_to_string :: "reservation_state \<Rightarrow> string" where
  "reservation_to_string PLANNED = ''PLANNED''"
| "reservation_to_string VALIDATED = ''VALIDATED''"
| "reservation_to_string RESERVED = ''RESERVED''"
| "reservation_to_string ADMITTED = ''ADMITTED''"
| "reservation_to_string ACTIVE = ''ACTIVE''"
| "reservation_to_string RELEASED = ''RELEASED''"
| "reservation_to_string EXPIRED = ''EXPIRED''"

record reservation =
  res_id :: reservation_id
  res_generation :: reservation_generation
  workload :: workload_id
  request_class :: request_class_id
  power_class :: workload_power_class
  scope :: power_domain_id
  res_budget :: budget_id
  requested_power :: watts
  requested_energy :: joules
  res_policy_generation :: policy_generation
  res_device_generation :: device_generation
  res_budget_generation :: budget_generation
  authority :: authority_envelope
  created :: timestamp
  validity :: duration
  state :: reservation_state
  reserved_power :: watts
  energy_used :: joules
  activated_at :: timestamp
  released_at :: timestamp

record res_result =
  ok :: bool
  reason :: string
  rr_id :: reservation_id

type_synonym reservation_manager = "(reservation_id \<times> reservation) list"

abbreviation Result :: "bool \<Rightarrow> string \<Rightarrow> res_result" where
  "Result b s \<equiv> \<lparr>ok = b, reason = s, rr_id = id_invalid\<rparr>"

section \<open>Queries\<close>

definition rm_exists :: "reservation_manager \<Rightarrow> reservation_id \<Rightarrow> bool" where
  "rm_exists rm rid \<longleftrightarrow> map_of rm rid \<noteq> None"

definition rm_get :: "reservation_manager \<Rightarrow> reservation_id \<Rightarrow> reservation res" where
  "rm_get rm rid = (case map_of rm rid of None \<Rightarrow> Inl OutOfRange | Some r \<Rightarrow> Inr r)"

definition rm_state :: "reservation_manager \<Rightarrow> reservation_id \<Rightarrow> reservation_state" where
  "rm_state rm rid = (case map_of rm rid of None \<Rightarrow> EXPIRED | Some r \<Rightarrow> state r)"

definition rm_all :: "reservation_manager \<Rightarrow> reservation list" where
  "rm_all rm = sort_key res_id (map snd rm)"

definition rm_restore :: "reservation \<Rightarrow> reservation_manager \<Rightarrow> bool \<times> reservation_manager" where
  "rm_restore r rm = (if map_of rm (res_id r) \<noteq> None then (False, rm)
     else (True, AList.update (res_id r) r rm))"

definition active_count :: "reservation_manager \<Rightarrow> nat" where
  "active_count rm = length (filter (\<lambda>(k, r). state r = ACTIVE) rm)"

definition res_expired :: "reservation \<Rightarrow> timestamp \<Rightarrow> bool res" where
  "res_expired r now = noexcept (if ts_is_zero (created r) then Inr False
     else rbind (elapsed_since now (created r)) (\<lambda>d. Inr (validity r < d)))"

fun audit_loop :: "timestamp \<Rightarrow> reservation_manager \<Rightarrow> bool res" where
  "audit_loop now [] = Inr True"
| "audit_loop now ((k, r) # rm) =
     (if state r = RELEASED \<or> state r = EXPIRED then audit_loop now rm
      else if ts_is_zero (created r) = False then
        rbind (elapsed_since now (created r)) (\<lambda>age.
          if validity r < age then Inr False else audit_loop now rm)
      else audit_loop now rm)"

definition audit_no_leaks :: "timestamp \<Rightarrow> reservation_manager \<Rightarrow> bool res" where
  "audit_no_leaks now rm = noexcept (audit_loop now rm)"

section \<open>Lifecycle\<close>

definition rm_plan ::
  "workload_id \<Rightarrow> workload_power_class \<Rightarrow> power_domain_id \<Rightarrow> budget_id \<Rightarrow> watts \<Rightarrow> joules \<Rightarrow>
   policy_generation \<Rightarrow> device_generation \<Rightarrow> authority_envelope \<Rightarrow> timestamp \<Rightarrow> duration \<Rightarrow>
   u64 \<Rightarrow> reservation_manager \<Rightarrow> res_result \<times> u64 \<times> reservation_manager"
where
  "rm_plan wl pc sc bud pw energy policy_gen device_gen auth now val ctr rm =
     (let (rid, ctr') = allocate ctr;
          r = \<lparr>res_id = rid, res_generation = gen_first, workload = wl, request_class = id_invalid,
               power_class = pc, scope = sc, res_budget = bud, requested_power = pw,
               requested_energy = energy, res_policy_generation = policy_gen,
               res_device_generation = device_gen, res_budget_generation = gen_null,
               authority = auth, created = now, validity = val, state = PLANNED,
               reserved_power = Fin 0, energy_used = Fin 0, activated_at = 0, released_at = 0\<rparr>
      in if map_of rm rid \<noteq> None
         then (\<lparr>ok = False, reason = ''duplicate reservation id'', rr_id = rid\<rparr>, ctr', rm)
         else (\<lparr>ok = True, reason = ''planned'', rr_id = rid\<rparr>, ctr', AList.update rid r rm))"

definition rm_validate ::
  "reservation_id \<Rightarrow> policy_generation \<Rightarrow> reservation_manager \<Rightarrow> (res_result \<times> reservation_manager) res"
where
  "rm_validate rid policy_gen rm = rbind (rm_get rm rid) (\<lambda>r.
     if state r \<noteq> PLANNED then Inr (Result False ''reservation not in PLANNED'', rm)
     else if res_policy_generation r \<noteq> policy_gen then Inr (Result False ''policy generation mismatch'', rm)
     else Inr (Result True ''validated'', AList.update rid (r\<lparr>state := VALIDATED\<rparr>) rm))"

definition rm_reserve ::
  "reservation_id \<Rightarrow> budget_generation \<Rightarrow> timestamp \<Rightarrow> budget_manager \<Rightarrow> reservation_manager \<Rightarrow>
   (res_result \<times> budget_manager \<times> reservation_manager) res"
where
  "rm_reserve rid budget_gen now bm rm = rbind (rm_get rm rid) (\<lambda>r.
     if state r \<noteq> VALIDATED \<and> state r \<noteq> PLANNED
     then Inr (Result False ''reservation not reservable (already reserved/active/released)'', bm, rm)
     else rbind (res_expired r now) (\<lambda>ex.
       if ex then Inr (Result False ''reservation expired'', bm, AList.update rid (r\<lparr>state := EXPIRED\<rparr>) rm)
       else case bm_reserve bm (res_budget r) (requested_power r) rid budget_gen of (done, bm') \<Rightarrow>
         if \<not> done then Inr (Result False ''budget reserve failed (capacity/generation/authority)'', bm', rm)
         else Inr (Result True ''reserved'', bm', AList.update rid
                (r\<lparr>res_budget_generation := budget_gen, reserved_power := requested_power r,
                   state := RESERVED\<rparr>) rm)))"

definition rm_admit ::
  "reservation_id \<Rightarrow> timestamp \<Rightarrow> reservation_manager \<Rightarrow> (res_result \<times> reservation_manager) res"
where
  "rm_admit rid now rm = rbind (rm_get rm rid) (\<lambda>r.
     if state r \<noteq> RESERVED then Inr (Result False ''reservation not RESERVED'', rm)
     else rbind (res_expired r now) (\<lambda>ex.
       if ex then Inr (Result False ''reservation expired'', AList.update rid (r\<lparr>state := EXPIRED\<rparr>) rm)
       else Inr (Result True ''admitted'', AList.update rid (r\<lparr>state := ADMITTED\<rparr>) rm)))"

definition rm_activate ::
  "reservation_id \<Rightarrow> budget_generation \<Rightarrow> timestamp \<Rightarrow> budget_manager \<Rightarrow> reservation_manager \<Rightarrow>
   (res_result \<times> budget_manager \<times> reservation_manager) res"
where
  "rm_activate rid budget_gen now bm rm = rbind (rm_get rm rid) (\<lambda>r.
     if state r \<noteq> ADMITTED \<and> state r \<noteq> RESERVED
     then Inr (Result False ''stale activation: reservation not admitted'', bm, rm)
     else rbind (res_expired r now) (\<lambda>ex.
       if ex then Inr (Result False ''reservation expired'', bm, AList.update rid (r\<lparr>state := EXPIRED\<rparr>) rm)
       else if res_budget_generation r \<noteq> budget_gen
       then Inr (Result False ''stale activation: budget generation changed'', bm, rm)
       else case bm_activate bm (res_budget r) (requested_power r) rid budget_gen of (done, bm') \<Rightarrow>
         if \<not> done then Inr (Result False ''budget activate failed'', bm', rm)
         else Inr (Result True ''active'', bm', AList.update rid
                (r\<lparr>state := ACTIVE, activated_at := now\<rparr>) rm)))"

definition rm_account_energy ::
  "reservation_id \<Rightarrow> joules \<Rightarrow> energy_provenance \<Rightarrow> timestamp \<Rightarrow> reservation_manager \<Rightarrow>
   (res_result \<times> reservation_manager) res"
where
  "rm_account_energy rid energy provenance now rm = rbind (rm_get rm rid) (\<lambda>r.
     if state r \<noteq> ACTIVE then Inr (Result False ''energy only accounted for ACTIVE'', rm)
     else if energy < Fin 0 \<or> \<not> isfinite energy
     then Inr (Result False ''non-finite or negative energy'', rm)
     else Inr (Result True ''accounted'', AList.update rid
            (r\<lparr>energy_used := clamped (energy_used r + energy)\<rparr>) rm))"

definition rm_release ::
  "reservation_id \<Rightarrow> budget_generation \<Rightarrow> timestamp \<Rightarrow> budget_manager \<Rightarrow> reservation_manager \<Rightarrow>
   (res_result \<times> budget_manager \<times> reservation_manager) res"
where
  "rm_release rid budget_gen now bm rm = rbind (rm_get rm rid) (\<lambda>r.
     if state r = RELEASED then Inr (Result False ''double release'', bm, rm)
     else if state r = EXPIRED then Inr (Result False ''already expired'', bm, rm)
     else if is_null (res_budget_generation r) \<and> (state r = ADMITTED \<or> state r = ACTIVE)
     then Inr (Result False ''release with unknown budget generation'', bm, rm)
     else case bm_release bm (res_budget r) (reserved_power r) rid budget_gen of (released, bm1) \<Rightarrow>
       if \<not> released
       then Inr (Result False ''budget release failed (over-release/stale generation)'', bm1, rm)
       else let bm2 = (if state r = ACTIVE \<or> state r = ADMITTED \<or> state r = RESERVED
                       then snd (bm_deactivate bm1 (res_budget r) (reserved_power r) rid budget_gen)
                       else bm1)
            in Inr (Result True ''released'', bm2, AList.update rid
                  (r\<lparr>state := RELEASED, released_at := now\<rparr>) rm))"

section \<open>Steps\<close>

text \<open>The pair of managers a governor keeps; one step per lifecycle call that returns.\<close>

type_synonym res_sys = "reservation_manager \<times> budget_manager"

inductive res_step :: "res_sys \<Rightarrow> res_sys \<Rightarrow> bool" where
  step_plan: "rm_plan wl pc sc b pw energy pg dg auth now val ctr rm = (res, ctr', rm') \<Longrightarrow>
    res_step (rm, bm) (rm', bm)"
| step_validate: "rm_validate rid pg rm = Inr (res, rm') \<Longrightarrow> res_step (rm, bm) (rm', bm)"
| step_reserve: "rm_reserve rid g now bm rm = Inr (res, bm', rm') \<Longrightarrow> res_step (rm, bm) (rm', bm')"
| step_admit: "rm_admit rid now rm = Inr (res, rm') \<Longrightarrow> res_step (rm, bm) (rm', bm)"
| step_activate: "rm_activate rid g now bm rm = Inr (res, bm', rm') \<Longrightarrow> res_step (rm, bm) (rm', bm')"
| step_account: "rm_account_energy rid e pv now rm = Inr (res, rm') \<Longrightarrow> res_step (rm, bm) (rm', bm)"
| step_release: "rm_release rid g now bm rm = Inr (res, bm', rm') \<Longrightarrow> res_step (rm, bm) (rm', bm')"

inductive res_run :: "res_sys \<Rightarrow> res_sys \<Rightarrow> bool" where
  run_refl: "res_run s s"
| run_step: "res_run s t \<Longrightarrow> res_step t u \<Longrightarrow> res_run s u"

end
