(* ===== verification/Capacity.thy ===== *)
theory Capacity
  imports Budget
begin

text \<open>
  How far the accounting of \<^verbatim>\<open>budget.hpp\<close> keeps a budget within its hard maximum, with every
  rounding of the double arithmetic and the tolerance \<^verbatim>\<open>1e-9\<close> counted; the agreement of the
  \<^verbatim>\<open>available\<close> query with what \<^verbatim>\<open>reserve\<close> admits; and the round trip of a reservation.
\<close>

section \<open>The booked power of a budget\<close>

definition booked :: "budget_state \<Rightarrow> rat" where
  "booked s = dval (reserved s) + dval (used s)"

text \<open>No quantity of the state exceeds one megawatt (\<open>2 ^ 20\<close> W).\<close>

definition mega_bounded :: "budget_state \<Rightarrow> bool" where
  "mega_bounded s \<longleftrightarrow> dval (hard_max (cfg s)) \<le> 2 ^ 20 \<and> dval (reserved s) \<le> 2 ^ 20 \<and>
     dval (used s) \<le> 2 ^ 20"

lemma state_okE:
  assumes "state_ok s"
  obtains h r u where "hard_max (cfg s) = Fin h" "reserved s = Fin r" "used s = Fin u"
    "0 \<le> h" "0 \<le> r" "0 \<le> u" "grid64 h" "grid64 r" "grid64 u"
  using assms unfolding state_ok_def by (elim conjE quantity_okE)

lemma not_bad_amountE:
  assumes "\<not> bad_amount amount" obtains a where "amount = Fin a" "0 \<le> a"
  using assms by (cases amount) (auto simp: bad_amount_def)

section \<open>One booking\<close>

text \<open>The capacity test bounds the amount: three roundings and the tolerance away from the exact
  free capacity.\<close>

lemma own_available_bound:
  assumes ok: "state_ok s" and b: "mega_bounded s"
  obtains v where "own_available s = Fin v" "0 \<le> v" "v \<le> 2 ^ 21"
    "v + booked s \<le> max (booked s) (dval (hard_max (cfg s)) + 3 / 2 ^ 33)"
proof -
  obtain h r u where s: "hard_max (cfg s) = Fin h" "reserved s = Fin r" "used s = Fin u"
    "0 \<le> h" "0 \<le> r" "0 \<le> u" by (rule state_okE [OF ok])
  have m: "h \<le> 2 ^ 20" "r \<le> 2 ^ 20" "u \<le> 2 ^ 20" using b by (simp_all add: mega_bounded_def s)
  have "\<bar>h - r\<bar> \<le> 2 ^ 20" using s m by (simp add: abs_le_iff)
  then obtain d where d: "rnd64 (h - r) = Fin d" "\<bar>d - (h - r)\<bar> \<le> 2 ^ 20 / 2 ^ 53" "\<bar>d\<bar> \<le> 2 ^ 20"
    by (rule rnd64_bounded) simp_all
  have "\<bar>d - u\<bar> \<le> 2 ^ 21" using d(3) s m by (simp add: abs_le_iff)
  then obtain e where e: "rnd64 (d - u) = Fin e" "\<bar>e - (d - u)\<bar> \<le> 2 ^ 21 / 2 ^ 53" "\<bar>e\<bar> \<le> 2 ^ 21"
    by (rule rnd64_bounded) simp_all
  have "own_available s = Fin (max 0 e)" by (simp add: own_available_def s d e)
  moreover have "max 0 e \<le> 2 ^ 21" using e(3) by (simp add: abs_le_iff)
  moreover have "e + (r + u) \<le> h + 3 / 2 ^ 33" using abs_le_D1 [OF d(2)] abs_le_D1 [OF e(2)] by simp
  then have "max 0 e + booked s \<le> max (booked s) (dval (hard_max (cfg s)) + 3 / 2 ^ 33)"
    by (simp add: booked_def s max_def)
  ultimately show thesis using that by simp
qed

lemma capacity_bound:
  assumes ok: "state_ok s" and b: "mega_bounded s" and cap: "\<not> own_available s + eps9 < Fin a"
  shows "a + booked s \<le> max (booked s) (dval (hard_max (cfg s))) + 2 / 1000000000" "a \<le> 2 ^ 21 + 1"
proof -
  obtain v where v: "own_available s = Fin v" "0 \<le> v" "v \<le> 2 ^ 21"
    "v + booked s \<le> max (booked s) (dval (hard_max (cfg s)) + 3 / 2 ^ 33)"
    by (rule own_available_bound [OF ok b])
  have "\<bar>v + eps9_val\<bar> \<le> 2 ^ 22" using v eps9_bounds by (simp add: abs_le_iff)
  then obtain w where w: "rnd64 (v + eps9_val) = Fin w" "\<bar>w - (v + eps9_val)\<bar> \<le> 2 ^ 22 / 2 ^ 53"
    by (rule rnd64_bounded) simp_all
  have "a \<le> w" using cap by (simp add: v eps9_Fin w)
  then have a: "a \<le> v + 16 / 10000000000" using abs_le_D1 [OF w(2)] eps9_bounds by simp
  then show "a \<le> 2 ^ 21 + 1" using v by simp
  have "max (booked s) (dval (hard_max (cfg s)) + 3 / 2 ^ 33)
      \<le> max (booked s) (dval (hard_max (cfg s))) + 3 / 2 ^ 33" by (simp add: max_def)
  then show "a + booked s \<le> max (booked s) (dval (hard_max (cfg s))) + 2 / 1000000000"
    using a v(4) by simp
qed

lemma booking_bound:
  assumes "state_ok s" "mega_bounded s" "0 \<le> a" "\<not> own_available s + eps9 < Fin a"
  shows "booked (add_reserved (Fin a) s) \<le> max (booked s) (dval (hard_max (cfg s))) + 3 / 1000000000"
    and "booked (add_used (Fin a) s) \<le> max (booked s) (dval (hard_max (cfg s))) + 3 / 1000000000"
proof -
  obtain h r u where s: "hard_max (cfg s) = Fin h" "reserved s = Fin r" "used s = Fin u"
    "0 \<le> h" "0 \<le> r" "0 \<le> u" by (rule state_okE [OF assms(1)])
  have m: "r \<le> 2 ^ 20" "u \<le> 2 ^ 20" using assms(2) by (simp_all add: mega_bounded_def s)
  note cap = capacity_bound [OF assms(1,2,4)]
  note r = clamped_add_bound [OF s(5) assms(3) m(1) cap(2)]
  note u = clamped_add_bound [OF s(6) assms(3) m(2) cap(2)]
  show "booked (add_reserved (Fin a) s) \<le> max (booked s) (dval (hard_max (cfg s))) + 3 / 1000000000"
    using r cap(1) by (simp add: booked_def s)
  show "booked (add_used (Fin a) s) \<le> max (booked s) (dval (hard_max (cfg s))) + 3 / 1000000000"
    using u cap(1) by (simp add: booked_def s)
qed

text \<open>Giving power back never raises what is booked.\<close>

lemma unbooking_bound:
  assumes "state_ok s" "0 \<le> a"
  shows "booked (sub_reserved (Fin a) s) \<le> booked s" "booked (sub_used (Fin a) s) \<le> booked s"
proof -
  obtain h r u where s: "reserved s = Fin r" "used s = Fin u" "0 \<le> r" "0 \<le> u" "grid64 r" "grid64 u"
    by (rule state_okE [OF assms(1)])
  show "booked (sub_reserved (Fin a) s) \<le> booked s" "booked (sub_used (Fin a) s) \<le> booked s"
    using clamped_sub_le [OF s(3) assms(2) s(5)] clamped_sub_le [OF s(4) assms(2) s(6)]
    by (simp_all add: booked_def s)
qed

section \<open>Runs\<close>

text \<open>
  The life of a budget manager from its construction: \<open>ledger_run n bm\<close> says that \<open>bm\<close> is
  reached with at most \<open>n\<close> calls of \<^verbatim>\<open>reserve\<close> and \<^verbatim>\<open>activate\<close>. It is a part of \<open>bm_run\<close>: the code has no
  test for the three conditions below, and each is needed. Every installed hard maximum is at most
  \<open>2 ^ 20 - 1\<close> W (so that a rounding error stays below the tolerance), a re-issue of a budget does not
  lower its hard maximum (the power already booked stays), and every call names a budget whose chain
  holds no budget twice (a repeated budget is booked once per occurrence after a single test).
\<close>

inductive ledger_run :: "nat \<Rightarrow> budget_manager \<Rightarrow> bool" where
  ledger_empty: "ledger_run 0 []"
| ledger_install: "ledger_run n bm \<Longrightarrow> budget_cfg_ok b \<Longrightarrow> dval (hard_max b) \<le> 2 ^ 20 - 1 \<Longrightarrow>
    (\<And>s. map_of bm (bud_id b) = Some s \<Longrightarrow> dval (hard_max (cfg s)) \<le> dval (hard_max b)) \<Longrightarrow>
    install b bm = (ok, bm') \<Longrightarrow> ledger_run n bm'"
| ledger_reserve: "ledger_run n bm \<Longrightarrow> distinct (chain bm b) \<Longrightarrow>
    bm_reserve bm b amount rid g = (ok, bm') \<Longrightarrow> ledger_run (Suc n) bm'"
| ledger_activate: "ledger_run n bm \<Longrightarrow> distinct (chain bm b) \<Longrightarrow>
    bm_activate bm b amount rid g = (ok, bm') \<Longrightarrow> ledger_run (Suc n) bm'"
| ledger_release: "ledger_run n bm \<Longrightarrow> distinct (chain bm b) \<Longrightarrow>
    bm_release bm b amount rid g = (ok, bm') \<Longrightarrow> ledger_run n bm'"
| ledger_deactivate: "ledger_run n bm \<Longrightarrow> distinct (chain bm b) \<Longrightarrow>
    bm_deactivate bm b amount rid g = (ok, bm') \<Longrightarrow> ledger_run n bm'"
| ledger_clear: "ledger_run n bm \<Longrightarrow> ledger_run n (bm_clear bm)"

lemma ledger_run_bm_run: "ledger_run n bm \<Longrightarrow> bm_run [] bm"
  by (induction rule: ledger_run.induct) (blast intro: bm_run.intros bm_step.intros bm_update.intros)+

definition in_limit :: "nat \<Rightarrow> budget_state \<Rightarrow> bool" where
  "in_limit n s \<longleftrightarrow> dval (hard_max (cfg s)) \<le> 2 ^ 20 - 1 \<and>
     booked s \<le> dval (hard_max (cfg s)) + 3 * of_nat n / 1000000000"

lemma in_limit_mega:
  assumes "state_ok s" "in_limit n s" "n \<le> 100000000" shows "mega_bounded s"
proof -
  obtain h r u where s: "hard_max (cfg s) = Fin h" "reserved s = Fin r" "used s = Fin u"
    "0 \<le> h" "0 \<le> r" "0 \<le> u" by (rule state_okE [OF assms(1)])
  have "rat_of_nat n \<le> 100000000" using assms(3) by (metis of_nat_le_iff of_nat_numeral)
  then show ?thesis using assms(2) s by (simp add: in_limit_def mega_bounded_def booked_def)
qed

lemma in_limit_booking:
  assumes "state_ok s" "in_limit n s" "Suc n \<le> 100000000" "0 \<le> a" "capacity_guard (Fin a) s"
  shows "in_limit (Suc n) (add_reserved (Fin a) s)" "in_limit (Suc n) (add_used (Fin a) s)"
proof -
  have m: "mega_bounded s" using assms by (intro in_limit_mega) auto
  have "max (booked s) (dval (hard_max (cfg s))) \<le> dval (hard_max (cfg s)) + 3 * of_nat n / 1000000000"
    using assms(2) by (simp add: in_limit_def)
  then have le: "max (booked s) (dval (hard_max (cfg s))) + 3 / 1000000000
      \<le> dval (hard_max (cfg s)) + 3 * of_nat (Suc n) / 1000000000" by (simp add: field_simps)
  note bound = booking_bound [OF assms(1) m assms(4) assms(5) [unfolded capacity_guard_def]]
  show "in_limit (Suc n) (add_reserved (Fin a) s)" "in_limit (Suc n) (add_used (Fin a) s)"
    using order_trans [OF bound(1) le] order_trans [OF bound(2) le] assms(2)
    by (simp_all add: in_limit_def)
qed

lemma in_limit_mono: "in_limit n s \<Longrightarrow> n \<le> m \<Longrightarrow> in_limit m s"
proof -
  assume "in_limit n s" "n \<le> m"
  moreover have "rat_of_nat n \<le> of_nat m" using \<open>n \<le> m\<close> by simp
  ultimately show ?thesis by (simp add: in_limit_def)
qed

lemma in_limit_unbooking:
  assumes "state_ok s" "in_limit n s" "0 \<le> a"
  shows "in_limit n (sub_reserved (Fin a) s)" "in_limit n (sub_used (Fin a) s)"
  using unbooking_bound [OF assms(1,3)] assms(2) by (simp_all add: in_limit_def)

lemma in_limit_install:
  assumes "\<And>x s. map_of bm x = Some s \<Longrightarrow> in_limit n s" "dval (hard_max b) \<le> 2 ^ 20 - 1"
    "\<And>s. map_of bm (bud_id b) = Some s \<Longrightarrow> dval (hard_max (cfg s)) \<le> dval (hard_max b)"
    "budget_cfg_ok b" "install b bm = (ok, bm')" "map_of bm' x = Some s"
  shows "in_limit n s"
proof (cases "map_of bm (bud_id b)")
  case None
  have "0 \<le> dval (hard_max b)" using assms(4) by (auto simp: budget_cfg_ok_def elim: quantity_okE)
  then have "in_limit n \<lparr>cfg = b, reserved = Fin 0, used = Fin 0\<rparr>"
    using assms(2) by (simp add: in_limit_def booked_def)
  then show ?thesis using assms None by (auto simp: install_def update_conv' split: if_splits)
next
  case (Some t)
  from assms(1,3) [OF this] assms(2) have "in_limit n (t\<lparr>cfg := b\<rparr>)"
    by (simp add: in_limit_def booked_def)
  then show ?thesis using assms Some by (auto simp: install_def update_conv' split: if_splits)
qed

lemma ledger_run_inv:
  "ledger_run n bm \<Longrightarrow> n \<le> 100000000 \<Longrightarrow> wf_bm bm \<and> (\<forall>x s. map_of bm x = Some s \<longrightarrow> in_limit n s)"
proof (induction rule: ledger_run.induct)
  case ledger_empty
  then show ?case by simp
next
  case (ledger_install n bm b ok bm')
  then show ?case by (blast intro: install_wf in_limit_install)
next
  case (ledger_reserve n bm b amount rid g ok bm')
  then have wf: "wf_bm bm" and w: "\<And>x s. map_of bm x = Some s \<Longrightarrow> in_limit n s" by auto
  have "in_limit (Suc n) s'" if "map_of bm' x = Some s'" for x s'
    by (rule reserve_op.state_after [OF ledger_reserve.hyps(3,2) that])
      (use ledger_reserve.prems in \<open>auto intro: in_limit_mono [OF w] in_limit_booking wf_bmD [OF wf] w\<close>)
  then show ?case using reserve_op.op_wf [OF ledger_reserve.hyps(3) wf] by blast
next
  case (ledger_activate n bm b amount rid g ok bm')
  then have wf: "wf_bm bm" and w: "\<And>x s. map_of bm x = Some s \<Longrightarrow> in_limit n s" by auto
  have "in_limit (Suc n) s'" if "map_of bm' x = Some s'" for x s'
    by (rule activate_op.state_after [OF ledger_activate.hyps(3,2) that])
      (use ledger_activate.prems in \<open>auto intro: in_limit_mono [OF w] in_limit_booking wf_bmD [OF wf] w\<close>)
  then show ?case using activate_op.op_wf [OF ledger_activate.hyps(3) wf] by blast
next
  case (ledger_release n bm b amount rid g ok bm')
  then have wf: "wf_bm bm" and w: "\<And>x s. map_of bm x = Some s \<Longrightarrow> in_limit n s" by auto
  have "in_limit n s'" if "map_of bm' x = Some s'" for x s'
    by (rule release_op.state_after [OF ledger_release.hyps(3,2) that])
      (auto intro: w in_limit_unbooking wf_bmD [OF wf])
  then show ?case using release_op.op_wf [OF ledger_release.hyps(3) wf] by blast
next
  case (ledger_deactivate n bm b amount rid g ok bm')
  then have wf: "wf_bm bm" and w: "\<And>x s. map_of bm x = Some s \<Longrightarrow> in_limit n s" by auto
  have "in_limit n s'" if "map_of bm' x = Some s'" for x s'
    by (rule deactivate_op.state_after [OF ledger_deactivate.hyps(3,2) that])
      (auto intro: w in_limit_unbooking wf_bmD [OF wf])
  then show ?case using deactivate_op.op_wf [OF ledger_deactivate.hyps(3) wf] by blast
next
  case (ledger_clear n bm)
  then show ?case by (simp add: bm_clear_def)
qed

section \<open>The capacity query\<close>

lemma std_min_tolerance:
  "std_min (Fin v) (Fin w) + eps9 < z \<longleftrightarrow> Fin v + eps9 < z \<or> Fin w + eps9 < z"
  using double_le_less_trans [OF rnd64_mono, of "v + eps9_val" "w + eps9_val" z]
    double_le_less_trans [OF rnd64_mono, of "w + eps9_val" "v + eps9_val" z]
  by (auto simp: std_min_def eps9_Fin)

lemma own_available_Fin: obtains v where "own_available s = Fin v"
  using clamped_finite unfolding own_available_def by blast

lemma available_loop_tolerance:
  assumes "\<forall>x \<in> set bs. \<exists>s. map_of bm x = Some s"
  shows "available_loop bm (Fin v) bs + eps9 < z \<longleftrightarrow>
     Fin v + eps9 < z \<or> (\<exists>x \<in> set bs. \<exists>s. map_of bm x = Some s \<and> own_available s + eps9 < z)"
  using assms
proof (induction bs arbitrary: v)
  case (Cons b bs)
  from Cons.prems obtain s where s: "map_of bm b = Some s" by auto
  obtain w where w: "own_available s = Fin w" by (rule own_available_Fin)
  have "\<exists>m. std_min (Fin v) (Fin w) = Fin m" by (simp add: std_min_def)
  then obtain m where m: "std_min (Fin v) (Fin w) = Fin m" by blast
  have "available_loop bm (Fin v) (b # bs) + eps9 < z \<longleftrightarrow> available_loop bm (Fin m) bs + eps9 < z"
    by (simp add: s w m)
  also have "\<dots> \<longleftrightarrow> Fin m + eps9 < z \<or>
      (\<exists>x \<in> set bs. \<exists>s. map_of bm x = Some s \<and> own_available s + eps9 < z)"
    using Cons.prems by (intro Cons.IH) simp
  also have "Fin m + eps9 < z \<longleftrightarrow> Fin v + eps9 < z \<or> Fin w + eps9 < z"
    unfolding m [symmetric] by (rule std_min_tolerance)
  finally show ?case by (auto simp: s w)
qed simp

lemma available_iff_capacity:
  assumes "is_valid b" "\<forall>x \<in> set (chain bm b). \<exists>s. map_of bm x = Some s"
  shows "chain_has_capacity bm b amount \<longleftrightarrow> \<not> available bm b + eps9 < amount"
proof -
  obtain bs where bs: "chain bm b = b # bs" using chain_Cons [OF assms(1)] by blast
  then obtain s where s: "map_of bm b = Some s" using assms(2) by auto
  obtain v where v: "own_available s = Fin v" by (rule own_available_Fin)
  have "available bm b + eps9 < amount \<longleftrightarrow>
      (\<exists>x \<in> set (chain bm b). \<exists>s. map_of bm x = Some s \<and> own_available s + eps9 < amount)"
    using available_loop_tolerance [OF assms(2), of v amount] s v bs by (auto simp: available_def)
  then show ?thesis using assms(2) by (fastforce simp: chain_has_capacity_def list_all_found)
qed

section \<open>Releasing what was reserved\<close>

text \<open>When the reserved power of a budget and the amount add up without rounding, a release undoes
  a reservation exactly.\<close>

lemma sub_add_reserved:
  assumes "reserved s = Fin r" "0 \<le> r" "0 \<le> a" "grid64 r" "grid64 (r + a)"
  shows "sub_reserved (Fin a) (add_reserved (Fin a) s) = s"
    and "grid64 a \<Longrightarrow> reserved_guard (Fin a) (add_reserved (Fin a) s)"
proof -
  have r: "reserved (add_reserved (Fin a) s) = Fin (r + a)"
    using assms by (simp add: b64.rnd_grid)
  show "sub_reserved (Fin a) (add_reserved (Fin a) s) = s"
    unfolding sub_reserved_def r using assms
    by (simp add: b64.rnd_grid add_reserved_def)
  have "Fin a \<le> rnd64 (r + a + eps9_val)" if "grid64 a"
    using assms eps9_bounds that by (intro b64.rnd_ge) auto
  then show "reserved_guard (Fin a) (add_reserved (Fin a) s)" if "grid64 a"
    using that unfolding reserved_guard_def r eps9_Fin
    by (cases "rnd64 (r + a + eps9_val)") (auto simp: not_less)
qed

section \<open>What the tolerance lets through\<close>

lemma rnd64_add_eps9:
  assumes "0 \<le> x" "x \<le> 2 ^ 20"
  obtains w where "rnd64 (x + eps9_val) = Fin w" "x + 5 / 10000000000 \<le> w" "grid64 w" "w \<le> 2 ^ 21"
proof -
  have "\<bar>x + eps9_val\<bar> \<le> 2 ^ 21" using assms eps9_bounds by (simp add: abs_le_iff)
  then obtain w where w: "rnd64 (x + eps9_val) = Fin w" "\<bar>w - (x + eps9_val)\<bar> \<le> 2 ^ 21 / 2 ^ 53"
    "\<bar>w\<bar> \<le> 2 ^ 21" "grid64 w"
    by (rule rnd64_bounded) simp_all
  have "x + 5 / 10000000000 \<le> w" using abs_le_D2 [OF w(2)] eps9_bounds by simp
  with w that show thesis by (simp add: abs_le_iff)
qed

lemma chain_root: "is_valid b \<Longrightarrow> map_of bm b = Some s \<Longrightarrow> bud_parent (cfg s) = None \<Longrightarrow> chain bm b = [b]"
  by (simp add: chain_def chain_loop.simps [of bm 0] chain_loop.simps [of bm "Suc 0"])

lemma chain_loop_self:
  assumes "is_valid b" "map_of bm b = Some s" "bud_parent (cfg s) = Some b" "guard \<le> 64"
  shows "chain_loop bm guard (Some b) = replicate (65 - guard) b"
  using assms(4)
proof (induction "64 - guard" arbitrary: guard)
  case 0
  then show ?case using assms by (simp add: chain_loop.simps)
next
  case (Suc n)
  have "chain_loop bm (Suc guard) (Some b) = replicate (65 - Suc guard) b"
    using Suc.hyps(2) by (intro Suc.hyps(1)) auto
  moreover have "65 - guard = Suc (65 - Suc guard)" using Suc.hyps(2) by simp
  ultimately show ?case using assms Suc.hyps(2) by (simp add: chain_loop.simps [of bm guard])
qed

lemma add_reserved_iterate:
  assumes "reserved s = Fin (of_int r)" "0 \<le> r" "0 \<le> a" "r + int n * a \<le> 2 ^ 53"
  shows "reserved ((add_reserved (Fin (of_int a)) ^^ n) s) = Fin (of_int (r + int n * a))"
  using assms(4)
proof (induction n)
  case 0
  then show ?case using assms by simp
next
  case (Suc n)
  have eq: "r + int (Suc n) * a = r + int n * a + a" by (simp add: distrib_right)
  have le: "r + int n * a \<le> 2 ^ 53" using Suc.prems eq assms(3) by linarith
  have "0 \<le> r + int (Suc n) * a" using assms by simp
  then have "\<bar>r + int (Suc n) * a\<bar> \<le> 2 ^ 53" using Suc.prems by (simp only: abs_of_nonneg)
  then have "rnd64 (of_int (r + int (Suc n) * a)) = Fin (of_int (r + int (Suc n) * a))"
    by (rule rnd64_int)
  moreover have "of_int (r + int n * a) + of_int a = rat_of_int (r + int (Suc n) * a)"
    by (simp add: distrib_right)
  moreover have "0 \<le> rat_of_int (r + int (Suc n) * a)" using assms by (simp del: of_int_add)
  ultimately show ?case using Suc.IH [OF le] by (simp del: of_int_add of_int_mult)
qed

section \<open>A two-level example\<close>

text \<open>The node and accelerator budgets the command line tool installs (450 W and 402 W).\<close>

definition demo_budget :: "u64 \<Rightarrow> budget_id option \<Rightarrow> rat \<Rightarrow> power_budget" where
  "demo_budget n parent w = \<lparr>bud_id = StrongId n, bud_generation = gen_first,
     bud_domain = StrongId n, bud_policy_generation = gen_null, bud_parent = parent,
     bud_name = ''budget'', hard_max = Fin w, soft_target = Fin 0, min_reserve = Fin 0,
     burst_allowance = Fin 0, burst_window = 0, recovery = 500000000, bud_priority = 50,
     authoritative = True\<rparr>"

definition demo_state :: "u64 \<Rightarrow> budget_id option \<Rightarrow> rat \<Rightarrow> rat \<Rightarrow> rat \<Rightarrow> budget_state" where
  "demo_state n parent w r u = \<lparr>cfg = demo_budget n parent w, reserved = Fin r, used = Fin u\<rparr>"

definition demo_bm :: "rat \<Rightarrow> rat \<Rightarrow> budget_manager" where
  "demo_bm r u = [(StrongId 1, demo_state 1 None 450 r u),
                  (StrongId 2, demo_state 2 (Some (StrongId 1)) 402 r u)]"

lemmas demo_defs = demo_budget_def demo_state_def demo_bm_def gen_first_def gen_null_def

lemma demo_chain: "chain (demo_bm r u) (StrongId 2) = [StrongId 2, StrongId 1]"
  by (simp add: chain_def demo_defs chain_loop.simps)

lemma demo_chain_1: "chain (demo_bm r u) (StrongId 1) = [StrongId 1]"
  by (simp add: chain_def demo_defs chain_loop.simps)

lemma demo_reserve: "bm_reserve (demo_bm 0 0) (StrongId 2) (Fin 100) rid gen_first = (True, demo_bm 100 0)"
proof -
  have a: "own_available (demo_state 1 None 450 0 0) = Fin 450"
    "own_available (demo_state 2 (Some (StrongId 1)) 402 0 0) = Fin 402"
    by (simp_all add: own_available_def demo_defs)
  have "\<not> Fin 450 + eps9 < Fin 100" "\<not> Fin 402 + eps9 < Fin 100"
    using b64.rnd_ge [of 100 "450 + eps9_val"] b64.rnd_ge [of 100 "402 + eps9_val"] eps9_bounds
      grid64_int [of 100]
    by (cases "rnd64 (450 + eps9_val)"; cases "rnd64 (402 + eps9_val)"; simp add: eps9_Fin not_less)+
  then show ?thesis
    unfolding bm_reserve_def chain_has_capacity_def demo_chain
    by (simp add: a demo_bm_def book_def upd_state_def bad_amount_def
        demo_state_def demo_budget_def gen_first_def add_reserved_def own_available_def)
qed

section \<open>Properties of the budget accounting\<close>

text \<open>C1: The hard maximum of every budget holds up to the tolerance of the code. Take any sequence of
  install, reserve, activate, release, deactivate and clear calls on a new manager in which the
  quantities of every installed budget are validated, its hard maximum is at most \<open>2 ^ 20 - 1\<close> W, no
  re-issue of a budget lowers its hard maximum, and every accounting call names a budget whose ancestor chain contains no budget
  twice; the amounts are arbitrary. After at most \<open>n \<le> 10 ^ 8\<close> reserve and activate calls the power
  reserved and in use on any budget exceeds its hard maximum by no more than 3 nW per such call, every
  rounding of the double arithmetic included.\<close>

theorem hard_max_respected:
  assumes "ledger_run n bm" "n \<le> 100000000" "map_of bm x = Some s"
  shows "dval (reserved s) + dval (used s) \<le> dval (hard_max (cfg s)) + 3 * of_nat n / 1000000000"
  using ledger_run_inv [OF assms(1,2)] assms(3) by (auto simp: in_limit_def booked_def)

lemma demo_run: "ledger_run 1 (demo_bm 100 0)"
proof -
  have ok: "budget_cfg_ok (demo_budget n p 450)" "budget_cfg_ok (demo_budget n p 402)" for n p
    using grid64_int [of 450] grid64_int [of 402] b64.grid_zero
    by (simp_all add: budget_cfg_ok_def demo_budget_def)
  have i1: "install (demo_budget 1 None 450) [] = (True, [(StrongId 1, demo_state 1 None 450 0 0)])"
    by (simp add: install_def demo_defs)
  have r1: "ledger_run 0 [(StrongId 1, demo_state 1 None 450 0 0)]"
    by (rule ledger_install [OF ledger_empty ok(1) _ _ i1]) (simp_all add: demo_defs)
  have i2: "install (demo_budget 2 (Some (StrongId 1)) 402) [(StrongId 1, demo_state 1 None 450 0 0)]
      = (True, demo_bm 0 0)"
    by (simp add: install_def demo_defs)
  have r2: "ledger_run 0 (demo_bm 0 0)"
    by (rule ledger_install [OF r1 ok(2) _ _ i2]) (simp_all add: demo_defs)
  have "ledger_run (Suc 0) (demo_bm 100 0)"
    by (rule ledger_reserve [OF r2 _ demo_reserve [of id_invalid]]) (simp add: demo_chain)
  then show ?thesis by simp
qed

theorem hard_max_respected_witness:
  "dval (reserved (demo_state 2 (Some (StrongId 1)) 402 100 0))
     + dval (used (demo_state 2 (Some (StrongId 1)) 402 100 0)) \<le> 402 + 3 / 1000000000"
  using hard_max_respected [OF demo_run, of "StrongId 2" "demo_state 2 (Some (StrongId 1)) 402 100 0"]
  by (simp add: demo_defs)

text \<open>C18: A reservation is all or nothing along the ancestor chain. It is accepted exactly when the
  named budget is installed, authoritative and of the caller's generation, the amount is finite and
  not negative, and every budget of the chain is installed and has the capacity. If it is refused, no
  budget changes. If it is accepted, every budget books the amount once per occurrence in the chain:
  the budgets outside the chain do not change, and when the chain has no repetition (no budget is its
  own ancestor) each budget of the chain books it exactly once.\<close>

theorem reserve_all_or_nothing:
  "(fst (bm_reserve bm b amount rid g) \<longleftrightarrow>
      (\<exists>s. map_of bm b = Some s \<and> bud_generation (cfg s) = g \<and> authoritative (cfg s)) \<and>
      \<not> bad_amount amount \<and>
      (\<forall>x \<in> set (chain bm b). \<exists>s. map_of bm x = Some s \<and> \<not> own_available s + eps9 < amount)) \<and>
    (\<not> fst (bm_reserve bm b amount rid g) \<longrightarrow> snd (bm_reserve bm b amount rid g) = bm) \<and>
    (fst (bm_reserve bm b amount rid g) \<longrightarrow>
      (\<forall>x. map_of (snd (bm_reserve bm b amount rid g)) x =
        map_option (add_reserved amount ^^ count_list (chain bm b) x) (map_of bm x)) \<and>
      (distinct (chain bm b) \<longrightarrow> (\<forall>x. map_of (snd (bm_reserve bm b amount rid g)) x =
        (if x \<in> set (chain bm b) then map_option (add_reserved amount) (map_of bm x) else map_of bm x))))"
    (is "?accepted \<and> ?refused \<and> ?effect")
proof (intro conjI)
  obtain ok bm' where op: "bm_reserve bm b amount rid g = (ok, bm')" by (rule prod.exhaust)
  show ?accepted
    by (auto simp: bm_reserve_def chain_has_capacity_def list_all_found split: option.split)
  show ?refused using reserve_op.op_refused [of bm b amount rid g bm'] op by auto
  show ?effect
    using reserve_op.op_effect [of bm b amount rid g bm'] op
    by (auto simp: map_of_book_distinct) (simp add: map_of_book)
qed

theorem reserve_all_or_nothing_witness:
  "map_of (snd (bm_reserve (demo_bm 0 0) (StrongId 2) (Fin 100) id_invalid gen_first)) (StrongId 1)
     = Some (demo_state 1 None 450 100 0)"
proof -
  have "distinct (chain (demo_bm 0 0) (StrongId 2))" by (simp add: demo_chain)
  with reserve_all_or_nothing [of "demo_bm 0 0" "StrongId 2" "Fin 100" id_invalid gen_first]
  have "map_of (demo_bm 100 0) (StrongId 1) = map_option (add_reserved (Fin 100)) (map_of (demo_bm 0 0) (StrongId 1))"
    by (simp add: demo_chain demo_reserve)
  then show ?thesis
    unfolding demo_reserve by (simp add: demo_bm_def demo_state_def add_reserved_def)
qed

text \<open>C26: The capacity query agrees with admission. On an authoritative budget of the caller's
  generation whose chain consists of installed budgets, a reservation of a finite amount that is not
  negative is accepted if and only if the amount does not exceed \<^verbatim>\<open>available\<close> by more than the tolerance;
  so a child is never admitted beyond the capacity of any ancestor. The one exception is the null
  identifier 0, which \<^verbatim>\<open>install\<close> accepts although it is no valid identifier: its chain is empty, and
  every such reservation on it is accepted whatever its capacity.\<close>

theorem reserve_iff_available:
  assumes "\<forall>x \<in> set (chain bm b). \<exists>s. map_of bm x = Some s"
    "map_of bm b = Some s" "bud_generation (cfg s) = g" "authoritative (cfg s)" "\<not> bad_amount amount"
  shows "fst (bm_reserve bm b amount rid g) \<longleftrightarrow> \<not> is_valid b \<or> \<not> available bm b + eps9 < amount"
proof (cases "is_valid b")
  case True
  then show ?thesis using available_iff_capacity [OF True assms(1), of amount] assms(2-5)
    by (simp add: bm_reserve_def)
next
  case False
  then show ?thesis using assms(2-5) by (simp add: bm_reserve_def chain_has_capacity_def chain_invalid)
qed

theorem reserve_iff_available_witness:
  "fst (bm_reserve (demo_bm 0 0) (StrongId 2) (Fin 100) id_invalid gen_first) \<longleftrightarrow>
     \<not> available (demo_bm 0 0) (StrongId 2) + eps9 < Fin 100"
proof -
  have "fst (bm_reserve (demo_bm 0 0) (StrongId 2) (Fin 100) id_invalid gen_first) \<longleftrightarrow>
      \<not> is_valid (StrongId 2 :: budget_id) \<or> \<not> available (demo_bm 0 0) (StrongId 2) + eps9 < Fin 100"
    by (rule reserve_iff_available [where s = "demo_state 2 (Some (StrongId 1)) 402 0 0"])
      (simp_all add: demo_chain, simp_all add: demo_defs bad_amount_def)
  then show ?thesis by (simp add: is_valid_def)
qed

text \<open>The accounting of a budget installed under the null identifier. No capacity limits it, and what
  is reserved on it is not booked anywhere.\<close>

lemma null_budget_unlimited:
  assumes "map_of bm id_invalid = Some s" "authoritative (cfg s)" "\<not> bad_amount amount"
  shows "bm_reserve bm id_invalid amount rid (bud_generation (cfg s)) = (True, bm)"
  using assms by (simp add: bm_reserve_def chain_has_capacity_def chain_invalid is_valid_def
      id_invalid_def book_def)

lemma null_budget_installs:
  "bud_id b = id_invalid \<Longrightarrow> map_of bm id_invalid = None \<Longrightarrow>
   \<exists>bm'. install b bm = (True, bm') \<and> (\<exists>s. map_of bm' id_invalid = Some s \<and> cfg s = b)"
  by (simp add: install_def update_conv')

text \<open>C31: Releasing a reservation restores the books. If the amounts on the chain add up without
  rounding, a release of the reserved amount under the same generation is accepted and every budget
  is back in the state it had before the reservation.\<close>

theorem reserve_release_restores:
  assumes wf: "wf_bm bm" and dist: "distinct (chain bm b)" and q: "quantity_ok (Fin a)"
    and res: "bm_reserve bm b (Fin a) rid g = (True, bm')"
    and exact: "\<forall>x \<in> set (chain bm b). \<forall>s. map_of bm x = Some s \<longrightarrow> grid64 (dval (reserved s) + a)"
  shows "fst (bm_release bm' b (Fin a) rid g) \<and>
    (\<forall>x. map_of (snd (bm_release bm' b (Fin a) rid g)) x = map_of bm x)"
proof -
  have ch: "chain bm' b = chain bm b" by (rule reserve_op.chain_stable [OF res])
  have after: "map_of bm' y = (if y \<in> set (chain bm b) then map_option (add_reserved (Fin a)) (map_of bm y)
      else map_of bm y)" for y by (rule reserve_op.map_after [OF res dist])
  have undo: "sub_reserved (Fin a) (add_reserved (Fin a) s) = s \<and> reserved_guard (Fin a) (add_reserved (Fin a) s)"
    if "y \<in> set (chain bm b)" "map_of bm y = Some s" for y s
    using sub_add_reserved [of s _ a] exact that wf_bmD [OF wf that(2)] q
    by (auto simp: state_ok_def elim!: quantity_okE)
  have found: "\<exists>s. map_of bm y = Some s" if "y \<in> set (chain bm b)" for y
    using reserve_op.op_effect [OF res] that by blast
  have pass: "list_all (\<lambda>y. case map_of bm' y of None \<Rightarrow> False | Some s \<Rightarrow> \<not> reserved s + eps9 < Fin a)
      (chain bm' b)"
    unfolding list_all_found ch using found undo by (fastforce simp: after reserved_guard_def)
  obtain s where s: "map_of bm b = Some s" "bud_generation (cfg s) = g"
    using reserve_op.op_accepted [OF res] by blast
  obtain s' where s': "map_of bm' b = Some s'" "cfg s' = cfg s"
    by (rule reserve_op.cfg_stable [OF res s(1)])
  have rel: "bm_release bm' b (Fin a) rid g = (True, book (sub_reserved (Fin a)) (chain bm' b) bm')"
    using pass s s' q by (simp add: bm_release_def bad_amount_def)
  have "map_of (snd (bm_release bm' b (Fin a) rid g)) x = map_of bm x" for x
    using undo dist by (cases "map_of bm x") (auto simp: rel ch map_of_book_distinct after)
  with rel show ?thesis by simp
qed

lemma demo_wf: "wf_bm (demo_bm 0 0)"
  using grid64_int [of 450] grid64_int [of 402] b64.grid_zero
  by (auto simp: wf_bm_def state_ok_def demo_defs split: if_splits)

theorem reserve_release_restores_witness:
  "fst (bm_release (demo_bm 100 0) (StrongId 2) (Fin 100) id_invalid gen_first) \<and>
   map_of (snd (bm_release (demo_bm 100 0) (StrongId 2) (Fin 100) id_invalid gen_first)) (StrongId 1)
     = map_of (demo_bm 0 0) (StrongId 1)"
proof -
  have g: "\<forall>x \<in> set (chain (demo_bm 0 0) (StrongId 2)). \<forall>s. map_of (demo_bm 0 0) x = Some s \<longrightarrow>
      grid64 (dval (reserved s) + 100)"
    using grid64_int [of 100] by (auto simp: demo_defs split: if_splits)
  have q: "quantity_ok (Fin 100)" using grid64_int [of 100] by simp
  have d: "distinct (chain (demo_bm 0 0) (StrongId 2))" by (simp add: demo_chain)
  show ?thesis
    using reserve_release_restores [OF demo_wf d q demo_reserve [of id_invalid] g] by blast
qed

text \<open>C27: A budget generation is never rolled back while the manager is not cleared. Along any sequence
  of install, reserve, release, activate and deactivate calls every installed budget stays installed
  with a generation at least as new, so an accounting call that carries an older generation than the
  budget once had is refused and changes nothing. \<^verbatim>\<open>clear\<close> removes every budget: right after it all
  accounting calls are refused, and the generations start anew.\<close>

theorem stale_generation_refused:
  assumes "bm_updates bm bm'" "map_of bm x = Some s" "g < bud_generation (cfg s)"
  shows "bm_reserve bm' x amount rid g = (False, bm') \<and> bm_release bm' x amount rid g = (False, bm') \<and>
    bm_activate bm' x amount rid g = (False, bm') \<and> bm_deactivate bm' x amount rid g = (False, bm') \<and>
    bm_reserve (bm_clear bm') x amount rid g' = (False, bm_clear bm') \<and>
    bm_release (bm_clear bm') x amount rid g' = (False, bm_clear bm') \<and>
    bm_activate (bm_clear bm') x amount rid g' = (False, bm_clear bm') \<and>
    bm_deactivate (bm_clear bm') x amount rid g' = (False, bm_clear bm')"
proof -
  obtain s' where s': "map_of bm' x = Some s'" "bud_generation (cfg s) \<le> bud_generation (cfg s')"
    using bm_updates_gens_le [OF assms(1)] assms(2) by (auto simp: gens_le_def)
  then have "bud_generation (cfg s') \<noteq> g" using assms(3) by auto
  from reserve_op.stale_refused [OF s'(1) this] release_op.stale_refused [OF s'(1) this]
    activate_op.stale_refused [OF s'(1) this] deactivate_op.stale_refused [OF s'(1) this]
  show ?thesis
    by (simp add: bm_clear_def reserve_op.unknown_refused release_op.unknown_refused
        activate_op.unknown_refused deactivate_op.unknown_refused)
qed

theorem stale_generation_refused_witness:
  "bm_reserve (demo_bm 100 0) (StrongId 2) (Fin 1) id_invalid gen_null = (False, demo_bm 100 0)"
proof -
  have "bm_updates (demo_bm 0 0) (demo_bm 100 0)"
    by (rule updates_step [OF updates_refl update_reserve [OF demo_reserve [of id_invalid]]])
  from stale_generation_refused [OF this, of "StrongId 2" "demo_state 2 (Some (StrongId 1)) 402 0 0" gen_null]
  show ?thesis by (simp add: demo_defs less_generation_def)
qed

text \<open>C32: Every reachable manager is well formed: after any sequence of install, reserve, release,
  activate, deactivate and clear calls, where the quantities of an installed budget have passed the
  checks of their constructors, no identifier occurs twice, each entry sits under its own identifier,
  and its hard maximum, reserved and used power are finite, non-negative doubles that the constructor
  of \<^verbatim>\<open>Watts\<close> accepts unchanged, whatever amounts (NaN and infinities included) the calls were made
  with.\<close>

theorem reachable_manager_well_formed:
  assumes "bm_run [] bm" "map_of bm x = Some s"
  shows "distinct (map fst bm) \<and> bud_id (cfg s) = x \<and>
    (\<forall>q \<in> {hard_max (cfg s), reserved s, used s}.
       isfinite q \<and> Fin 0 \<le> q \<and> grid64 (dval q) \<and> Watts q = Inr q)"
proof -
  have "wf_bm bm" by (rule bm_run_wf [OF assms(1)]) simp
  then have "distinct (map fst bm)" "bud_id (cfg s) = x" "state_ok s"
    using assms(2) by (auto simp: wf_bm_def)
  then show ?thesis by (auto simp: state_ok_def elim!: quantity_okE)
qed

theorem reachable_manager_well_formed_witness:
  "bm_run [] [(StrongId 1, demo_state 1 None 450 0 0)] \<and>
   Watts (hard_max (cfg (demo_state 1 None 450 0 0))) = Inr (Fin 450)"
proof -
  let ?s = "demo_state 1 None 450 0 0"
  have "install (demo_budget 1 None 450) [] = (True, [(StrongId 1, ?s)])"
    by (simp add: install_def demo_defs)
  moreover have "budget_cfg_ok (demo_budget 1 None 450)"
    using grid64_int [of 450] b64.grid_zero by (simp add: budget_cfg_ok_def demo_budget_def)
  ultimately have run: "bm_run [] [(StrongId 1, ?s)]"
    by (blast intro: run_step run_refl step_update update_install)
  have "Watts (hard_max (cfg ?s)) = Inr (hard_max (cfg ?s))"
    using reachable_manager_well_formed [OF run, of "StrongId 1" ?s] by simp
  with run show ?thesis by (simp add: demo_defs)
qed

text \<open>The tolerance defeats the hard maximum of a full budget. Because the free capacity is clamped
  at zero before the tolerance is added, a root budget whose booked power has reached its hard maximum
  still accepts a reservation of 1 nW, and its booked power then exceeds the hard maximum.\<close>

theorem full_budget_admits_more:
  assumes "is_valid b" "map_of bm b = Some s" "bud_parent (cfg s) = None" "authoritative (cfg s)"
    "state_ok s" "mega_bounded s" "own_available s = Fin 0" "dval (hard_max (cfg s)) \<le> booked s"
  shows "\<exists>bm' s'. bm_reserve bm b eps9 rid (bud_generation (cfg s)) = (True, bm') \<and>
    map_of bm' b = Some s' \<and> dval (hard_max (cfg s')) < booked s' \<and> booked s < booked s'"
proof -
  obtain h r u where s: "hard_max (cfg s) = Fin h" "reserved s = Fin r" "used s = Fin u"
    "0 \<le> h" "0 \<le> r" "0 \<le> u" by (rule state_okE [OF assms(5)])
  have "r \<le> 2 ^ 20" using assms(6) by (simp add: mega_bounded_def s)
  then obtain w where w: "rnd64 (r + eps9_val) = Fin w" "r + 5 / 10000000000 \<le> w"
    using rnd64_add_eps9 [OF s(5)] by blast
  have ch: "chain bm b = [b]" by (rule chain_root [OF assms(1-3)])
  have "\<not> bad_amount eps9" using eps9_bounds by (simp add: bad_amount_def eps9_Fin)
  moreover have "\<not> Fin 0 + eps9 < eps9"
    by (simp add: eps9_Fin b64.rnd_grid [OF eps9_grid])
  ultimately have res: "bm_reserve bm b eps9 rid (bud_generation (cfg s))
      = (True, book (add_reserved eps9) [b] bm)"
    using assms(2,4,7) by (simp add: bm_reserve_def chain_has_capacity_def ch)
  have "map_of (book (add_reserved eps9) [b] bm) b = Some (add_reserved eps9 s)"
    using assms(2) by (simp add: map_of_book_distinct)
  moreover have "booked (add_reserved eps9 s) = max 0 w + u"
    by (simp add: booked_def s eps9_Fin w)
  then have "booked s < booked (add_reserved eps9 s)"
    using w(2) by (simp add: booked_def s)
  ultimately show ?thesis using res assms(8) by (metis cfg_updates(1) order_le_less_trans)
qed

theorem full_budget_admits_more_witness:
  "\<exists>bm' s'. bm_reserve (demo_bm 450 0) (StrongId 1) eps9 id_invalid gen_first = (True, bm') \<and>
    map_of bm' (StrongId 1) = Some s' \<and> dval (hard_max (cfg s')) < booked s' \<and> 450 < booked s'"
  using full_budget_admits_more [of "StrongId 1" "demo_bm 450 0" "demo_state 1 None 450 450 0" id_invalid]
    grid64_int [of 450] b64.grid_zero
  by (simp add: demo_defs state_ok_def mega_bounded_def booked_def own_available_def)

text \<open>The consistency audit rejects a budget that is exactly full: whenever the reserved and used
  power of some budget add up to its hard maximum, \<^verbatim>\<open>accounting_consistent\<close> is false, although nothing
  was over-committed.\<close>

theorem exactly_full_reported_inconsistent:
  assumes "wf_bm bm" "map_of bm x = Some s" "mega_bounded s" "booked s = dval (hard_max (cfg s))"
  shows "\<not> accounting_consistent bm"
proof -
  obtain h r u where s: "hard_max (cfg s) = Fin h" "reserved s = Fin r" "used s = Fin u"
    "0 \<le> h" "grid64 h" by (rule state_okE [OF wf_bmD [OF assms(1,2)]])
  have h: "r + u = h" "h \<le> 2 ^ 20" using assms(3,4) by (simp_all add: booked_def mega_bounded_def s)
  obtain w where w: "rnd64 (h + eps9_val) = Fin w" "h + 5 / 10000000000 \<le> w"
    using rnd64_add_eps9 [OF s(4) h(2)] by blast
  have "hard_max (cfg s) < reserved s + used s + eps9"
    using w(2) by (simp add: s h(1) b64.rnd_grid [OF s(5)] eps9_Fin w(1))
  then show ?thesis
    using map_of_SomeD [OF assms(2)] by (auto simp: accounting_consistent_def list_all_iff)
qed

theorem exactly_full_reported_inconsistent_witness:
  "\<not> accounting_consistent [(StrongId 1, demo_state 1 None 450 450 0)]"
  by (rule exactly_full_reported_inconsistent [where x = "StrongId 1" and s = "demo_state 1 None 450 450 0"])
    (use grid64_int [of 450] b64.grid_zero in
      \<open>simp_all add: demo_defs state_ok_def wf_bm_def mega_bounded_def booked_def\<close>)

text \<open>\<^verbatim>\<open>install\<close> does not reject a budget that is its own parent. The chain of such a budget repeats it
  65 times, the capacity test passes once per copy, and a reservation of \<open>a\<close> whole watts books
  \<open>65 * a\<close>.\<close>

theorem self_parent_books_65_times:
  assumes "is_valid b" "map_of bm b = Some s" "bud_parent (cfg s) = Some b"
    "reserved s = Fin 0" "0 \<le> a" "a \<le> 2 ^ 40"
    "bm_reserve bm b (Fin (of_int a)) rid g = (True, bm')"
  shows "\<exists>s'. map_of bm' b = Some s' \<and> reserved s' = Fin (of_int (65 * a))"
proof -
  have "chain bm b = replicate 65 b"
    using chain_loop_self [OF assms(1-3), of 0] by (simp add: chain_def)
  then have "bm' = book (add_reserved (Fin (of_int a))) (replicate 65 b) bm"
    using reserve_op.op_effect [OF assms(7)] by simp
  moreover have "count_list (replicate 65 b) b = 65" by (simp add: count_list_replicate_self)
  ultimately have "map_of bm' b = Some ((add_reserved (Fin (of_int a)) ^^ 65) s)"
    using assms(2) by (simp only: map_of_book option.map)
  moreover have "reserved ((add_reserved (Fin (of_int a)) ^^ 65) s) = Fin (of_int (0 + int 65 * a))"
    using assms(4-6) by (intro add_reserved_iterate) auto
  ultimately show ?thesis by auto
qed

theorem self_parent_books_65_times_witness:
  "\<exists>bm' s'. bm_reserve [(StrongId 1, demo_state 1 (Some (StrongId 1)) 450 0 0)] (StrongId 1) (Fin 100)
      id_invalid gen_first = (True, bm') \<and> map_of bm' (StrongId 1) = Some s' \<and> reserved s' = Fin 6500"
proof -
  let ?s = "demo_state 1 (Some (StrongId 1)) 450 0 0"
  let ?bm = "[(StrongId 1, ?s)]"
  have s: "map_of ?bm (StrongId 1) = Some ?s" "bud_parent (cfg ?s) = Some (StrongId 1)"
    "bud_generation (cfg ?s) = gen_first" "authoritative (cfg ?s)" "reserved ?s = Fin 0"
    "own_available ?s = Fin 450" by (simp_all add: demo_defs own_available_def)
  have v: "is_valid (StrongId 1 :: budget_id)" by (simp add: is_valid_def)
  have ch: "chain ?bm (StrongId 1) = replicate 65 (StrongId 1)"
    using chain_loop_self [OF v s(1,2), of 0] by (simp add: chain_def)
  have "\<not> Fin 450 + eps9 < Fin 100"
    using b64.rnd_ge [of 100 "450 + eps9_val"] eps9_bounds grid64_int [of 100]
    by (cases "rnd64 (450 + eps9_val)") (simp_all add: eps9_Fin not_less)
  then have "chain_has_capacity ?bm (StrongId 1) (Fin 100)"
    unfolding chain_has_capacity_def ch list_all_iff using s by (simp add: set_replicate_conv_if)
  then have res: "bm_reserve ?bm (StrongId 1) (Fin (of_int 100)) id_invalid gen_first
      = (True, book (add_reserved (Fin 100)) (chain ?bm (StrongId 1)) ?bm)"
    using s by (simp add: bm_reserve_def bad_amount_def)
  from self_parent_books_65_times [OF v s(1,2,5) _ _ res] res show ?thesis by simp
qed

end
