(* ===== verification/Lifecycle.thy ===== *)
theory Lifecycle
  imports Reservation Capacity
begin

text \<open>
  What the reservation lifecycle guarantees: the order of the states, the finality of the terminal
  ones, and the conservation of reserved power between the two managers.
\<close>

section \<open>What one step does\<close>

definition terminal :: "reservation_state \<Rightarrow> bool" where
  "terminal s \<longleftrightarrow> s = RELEASED \<or> s = EXPIRED"

fun stage :: "reservation_state \<Rightarrow> nat" where
  "stage PLANNED = 0"
| "stage VALIDATED = 1"
| "stage RESERVED = 2"
| "stage ADMITTED = 3"
| "stage ACTIVE = 4"
| "stage RELEASED = 5"
| "stage EXPIRED = 5"

text \<open>The order of the lifecycle: stages only advance, and an active reservation does not expire.\<close>

definition can_reach :: "reservation_state \<Rightarrow> reservation_state \<Rightarrow> bool" where
  "can_reach s t \<longleftrightarrow> s = t \<or> stage s < stage t \<and> \<not> (s = ACTIVE \<and> t = EXPIRED)"

lemma can_reach_refl [simp]: "can_reach s s"
  by (simp add: can_reach_def)

lemma can_reach_trans: "can_reach s t \<Longrightarrow> can_reach t u \<Longrightarrow> can_reach s u"
  by (cases s; cases t; cases u) (simp_all add: can_reach_def)

lemma can_reach_terminal: "terminal s \<Longrightarrow> can_reach s t \<Longrightarrow> t = s"
  by (cases s; cases t) (simp_all add: can_reach_def terminal_def)

text \<open>The fields of a reservation no later call changes.\<close>

definition same_request :: "reservation \<Rightarrow> reservation \<Rightarrow> bool" where
  "same_request r r' \<longleftrightarrow> res_budget r' = res_budget r \<and> requested_power r' = requested_power r \<and>
     created r' = created r \<and> validity r' = validity r \<and> res_id r' = res_id r"

definition same_reserved :: "budget_manager \<Rightarrow> budget_manager \<Rightarrow> bool" where
  "same_reserved bm bm' \<longleftrightarrow>
     (\<forall>x. map_option reserved (map_of bm x) = map_option reserved (map_of bm' x))"

lemma same_reserved_refl [simp]: "same_reserved bm bm"
  by (simp add: same_reserved_def)

lemma same_reserved_trans: "same_reserved a b \<Longrightarrow> same_reserved b c \<Longrightarrow> same_reserved a c"
  by (simp add: same_reserved_def)

lemma same_reserved_book:
  assumes "\<And>s. reserved (f s) = reserved s" shows "same_reserved bm (book f bs bm)"
proof -
  have "reserved ((f ^^ n) s) = reserved s" for n s by (induction n) (simp_all add: assms)
  then show ?thesis by (simp add: same_reserved_def map_of_book option.map_comp comp_def)
qed

lemma activate_same_reserved: "bm_activate bm b a rid g = (d, bm') \<Longrightarrow> same_reserved bm bm'"
  by (cases d) (auto dest!: activate_op.op_effect activate_op.op_refused intro: same_reserved_book)

lemma deactivate_same_reserved: "bm_deactivate bm b a rid g = (d, bm') \<Longrightarrow> same_reserved bm bm'"
  by (cases d) (auto dest!: deactivate_op.op_effect deactivate_op.op_refused intro: same_reserved_book)

lemma update_fresh: "map_of al k = None \<Longrightarrow> AList.update k v al = al @ [(k, v)]"
  by (induction al) (auto split: if_splits)

text \<open>
  The effects of a step: a plan adds a reservation that holds nothing, a reserve books the requested
  power, a release gives the held power back, and every other effective call moves one reservation on
  without touching the reserved power.
\<close>

inductive res_effect :: "res_sys \<Rightarrow> res_sys \<Rightarrow> bool" where
  eff_nothing: "res_effect s s"
| eff_plan: "map_of rm k = None \<Longrightarrow> state r = PLANNED \<Longrightarrow> reserved_power r = Fin 0 \<Longrightarrow>
    res_effect (rm, bm) (rm @ [(k, r)], bm)"
| eff_move: "map_of rm k = Some r \<Longrightarrow> \<not> terminal (state r) \<Longrightarrow> can_reach (state r) (state r') \<Longrightarrow>
    state r' \<noteq> RELEASED \<Longrightarrow> same_request r r' \<Longrightarrow> reserved_power r' = reserved_power r \<Longrightarrow>
    same_reserved bm bm' \<Longrightarrow> same_cfg bm bm' \<Longrightarrow> (wf_bm bm \<longrightarrow> wf_bm bm') \<Longrightarrow>
    res_effect (rm, bm) (AList.update k r' rm, bm')"
| eff_reserve: "map_of rm k = Some r \<Longrightarrow> state r = PLANNED \<or> state r = VALIDATED \<Longrightarrow> state r' = RESERVED \<Longrightarrow>
    same_request r r' \<Longrightarrow> reserved_power r' = requested_power r \<Longrightarrow>
    bm_reserve bm (res_budget r) (requested_power r) k g = (True, bm') \<Longrightarrow>
    res_effect (rm, bm) (AList.update k r' rm, bm')"
| eff_release: "map_of rm k = Some r \<Longrightarrow> \<not> terminal (state r) \<Longrightarrow> state r' = RELEASED \<Longrightarrow>
    same_request r r' \<Longrightarrow> reserved_power r' = reserved_power r \<Longrightarrow>
    bm_release bm (res_budget r) (reserved_power r) k g = (True, bm1) \<Longrightarrow>
    bm' = bm1 \<or> bm' = snd (bm_deactivate bm1 (res_budget r) (reserved_power r) k g) \<Longrightarrow>
    res_effect (rm, bm) (AList.update k r' rm, bm')"

inductive_cases res_effectE: "res_effect (rm, bm) (rm', bm')"

lemmas res_effect_cases = res_effectE
  [consumes 1, case_names eff_nothing eff_plan eff_move eff_reserve eff_release]

lemmas effect_simps = same_request_def can_reach_def terminal_def rm_get_def

lemma plan_effect:
  "rm_plan wl pc sc b pw energy pg dg auth now val ctr rm = (res, ctr', rm') \<Longrightarrow> res_effect (rm, bm) (rm', bm)"
  by (auto simp: rm_plan_def allocate_def Let_def update_fresh split: if_splits intro!: eff_plan intro: eff_nothing)

lemma validate_effect: "rm_validate rid pg rm = Inr (res, rm') \<Longrightarrow> res_effect (rm, bm) (rm', bm)"
  by (auto simp: rm_validate_def effect_simps split: option.splits if_splits
      intro: eff_nothing intro!: eff_move)

lemma admit_effect: "rm_admit rid now rm = Inr (res, rm') \<Longrightarrow> res_effect (rm, bm) (rm', bm)"
  by (auto simp: rm_admit_def effect_simps split: option.splits if_splits
      intro: eff_nothing intro!: eff_move)

lemma account_effect: "rm_account_energy rid e pv now rm = Inr (res, rm') \<Longrightarrow> res_effect (rm, bm) (rm', bm)"
  by (auto simp: rm_account_energy_def effect_simps split: option.splits if_splits
      intro: eff_nothing intro!: eff_move)

lemma expire_effect:
  "map_of rm rid = Some r \<Longrightarrow> \<not> terminal (state r) \<Longrightarrow> state r \<noteq> ACTIVE \<Longrightarrow>
    res_effect (rm, bm) (AList.update rid (r\<lparr>state := EXPIRED\<rparr>) rm, bm)"
  by (rule eff_move) (cases "state r"; simp add: effect_simps)+

lemma reserve_effect:
  assumes "rm_reserve rid g now bm rm = Inr (res, bm', rm')" shows "res_effect (rm, bm) (rm', bm')"
proof -
  obtain r where r: "map_of rm rid = Some r" using assms by (auto simp: rm_reserve_def rm_get_def split: option.splits)
  obtain d bm1 where d: "bm_reserve bm (res_budget r) (requested_power r) rid g = (d, bm1)" by (rule prod.exhaust)
  have nd: "\<not> d \<Longrightarrow> bm1 = bm" using d reserve_op.op_refused by auto
  show ?thesis
  proof (cases "state r = VALIDATED \<or> state r = PLANNED")
    case False
    then show ?thesis using assms r by (auto simp: rm_reserve_def rm_get_def intro: eff_nothing)
  next
    case True
    then obtain ex where ex: "res_expired r now = Inr ex" using assms r by (auto simp: rm_reserve_def rm_get_def)
    have nt: "\<not> terminal (state r)" "state r \<noteq> ACTIVE" using True by (auto simp: terminal_def)
    show ?thesis using assms True r d nd ex expire_effect [OF r nt]
      by (cases ex; cases d)
        (auto simp: rm_reserve_def rm_get_def same_request_def intro: eff_nothing intro!: eff_reserve [OF r])
  qed
qed

lemma activate_effect:
  assumes "rm_activate rid g now bm rm = Inr (res, bm', rm')" shows "res_effect (rm, bm) (rm', bm')"
proof -
  obtain r where r: "map_of rm rid = Some r" using assms by (auto simp: rm_activate_def rm_get_def split: option.splits)
  obtain d bm1 where d: "bm_activate bm (res_budget r) (requested_power r) rid g = (d, bm1)" by (rule prod.exhaust)
  have nd: "\<not> d \<Longrightarrow> bm1 = bm" using d activate_op.op_refused by auto
  have keep: "same_reserved bm bm1" "same_cfg bm bm1" "wf_bm bm \<longrightarrow> wf_bm bm1"
    using activate_same_reserved [OF d] activate_op.op_same_cfg [OF d] activate_op.op_wf [OF d] by auto
  show ?thesis
  proof (cases "state r = ADMITTED \<or> state r = RESERVED")
    case False
    then show ?thesis using assms r by (auto simp: rm_activate_def rm_get_def intro: eff_nothing)
  next
    case True
    then obtain ex where ex: "res_expired r now = Inr ex" using assms r by (auto simp: rm_activate_def rm_get_def)
    have nt: "\<not> terminal (state r)" "state r \<noteq> ACTIVE" "can_reach (state r) ACTIVE"
      using True by (auto simp: terminal_def can_reach_def)
    have act: "res_effect (rm, bm) (AList.update rid (r\<lparr>state := ACTIVE, activated_at := now\<rparr>) rm, bm1)"
      using keep nt by (intro eff_move [OF r]) (simp_all add: same_request_def)
    show ?thesis using assms True r d nd ex expire_effect [OF r nt(1,2)] act
      by (cases ex; cases "res_budget_generation r = g"; cases d)
        (auto simp: rm_activate_def rm_get_def intro: eff_nothing)
  qed
qed

lemma release_effect:
  assumes "rm_release rid g now bm rm = Inr (res, bm', rm')" shows "res_effect (rm, bm) (rm', bm')"
proof -
  obtain r where r: "map_of rm rid = Some r" using assms by (auto simp: rm_release_def rm_get_def split: option.splits)
  obtain d bm1 where d: "bm_release bm (res_budget r) (reserved_power r) rid g = (d, bm1)" by (rule prod.exhaust)
  have nd: "\<not> d \<Longrightarrow> bm1 = bm" using d release_op.op_refused by auto
  show ?thesis
  proof (cases "(rm', bm') = (rm, bm)")
    case True
    then show ?thesis by (simp add: eff_nothing)
  next
    case False
    then have "\<not> terminal (state r)" d
      "rm' = AList.update rid (r\<lparr>state := RELEASED, released_at := now\<rparr>) rm"
      "bm' = bm1 \<or> bm' = snd (bm_deactivate bm1 (res_budget r) (reserved_power r) rid g)"
      using assms r d nd
      by (auto simp: rm_release_def rm_get_def terminal_def Let_def split: if_splits)
    then show ?thesis using d by (auto simp: same_request_def intro!: eff_release [OF r])
  qed
qed

lemma res_step_effect: "res_step s t \<Longrightarrow> res_effect s t"
  by (induction rule: res_step.induct)
    (blast intro: plan_effect validate_effect reserve_effect admit_effect activate_effect account_effect
      release_effect)+

section \<open>The order of the lifecycle\<close>

lemma effect_state:
  assumes "res_effect (rm, bm) (rm', bm')" "map_of rm x = Some r"
  shows "\<exists>r'. map_of rm' x = Some r' \<and> can_reach (state r) (state r') \<and> same_request r r' \<and>
    (terminal (state r) \<longrightarrow> r' = r)"
  using assms(1)
proof (cases rule: res_effect_cases)
  case (eff_reserve k q q' g)
  then have "can_reach (state q) (state q')" "\<not> terminal (state q)" by (auto simp: can_reach_def terminal_def)
  then show ?thesis using assms(2) eff_reserve by (auto simp: update_conv' same_request_def)
next
  case (eff_release k q q' g bm1)
  then have "can_reach (state q) (state q')" by (cases "state q") (auto simp: can_reach_def terminal_def)
  then show ?thesis using assms(2) eff_release by (auto simp: update_conv' same_request_def)
qed (use assms(2) in \<open>auto simp: update_conv' same_request_def\<close>)

lemma same_cfg_trans: "same_cfg a b \<Longrightarrow> same_cfg b c \<Longrightarrow> same_cfg a c"
  by (simp add: same_cfg_def)

lemma deactivate_snd:
  "same_cfg bm (snd (bm_deactivate bm b a rid g))"
  "wf_bm bm \<Longrightarrow> wf_bm (snd (bm_deactivate bm b a rid g))"
  "same_reserved bm (snd (bm_deactivate bm b a rid g))"
  using deactivate_op.op_same_cfg deactivate_op.op_wf deactivate_same_reserved
  by (metis prod.collapse)+

lemma effect_same_cfg: "res_effect (rm, bm) (rm', bm') \<Longrightarrow> same_cfg bm bm'"
  by (erule res_effectE)
    (auto dest: reserve_op.op_same_cfg release_op.op_same_cfg intro: same_cfg_trans deactivate_snd(1))

lemma effect_length: "res_effect (rm, bm) (rm', bm') \<Longrightarrow> length rm \<le> length rm'"
  by (erule res_effectE) (auto simp: length_update_present)

lemma run_state:
  assumes "res_run s t" "map_of (fst s) x = Some r"
  shows "\<exists>r'. map_of (fst t) x = Some r' \<and> can_reach (state r) (state r') \<and> same_request r r' \<and>
    (terminal (state r) \<longrightarrow> r' = r)"
  using assms
proof (induction rule: res_run.induct)
  case (run_step s t u)
  then obtain q where q: "map_of (fst t) x = Some q" "can_reach (state r) (state q)" "same_request r q"
    "terminal (state r) \<longrightarrow> q = r" by blast
  have "res_effect (fst t, snd t) (fst u, snd u)" using res_step_effect [OF run_step.hyps(2)] by simp
  from effect_state [OF this q(1)] q show ?case
    by (fastforce simp: same_request_def intro: can_reach_trans)
qed (auto simp: same_request_def)

section \<open>Conservation of reserved power\<close>

text \<open>Whole watts, at most one megawatt: amounts the double arithmetic adds up exactly.\<close>

definition whole :: "watts \<Rightarrow> bool" where
  "whole w \<longleftrightarrow> (\<exists>n \<le> 2 ^ 20. w = Fin (of_nat n))"

definition watts_nat :: "watts \<Rightarrow> nat" where
  "watts_nat w = nat \<lfloor>dval w\<rfloor>"

text \<open>The power a reservation holds on a budget: its reserved power until it is released, on every
  budget of its chain. An expired reservation still holds what it reserved.\<close>

definition held :: "budget_manager \<Rightarrow> budget_id \<Rightarrow> reservation \<Rightarrow> nat" where
  "held bm x r = (if state r \<noteq> RELEASED \<and> x \<in> set (chain bm (res_budget r))
     then watts_nat (reserved_power r) else 0)"

definition total_held :: "budget_manager \<Rightarrow> reservation_manager \<Rightarrow> budget_id \<Rightarrow> nat" where
  "total_held bm rm x = sum_list (map (held bm x \<circ> snd) rm)"

text \<open>
  The runs the conservation of power speaks of. The code has no test for these conditions: a request
  may be any finite amount, and a budget that is its own ancestor can be installed.
\<close>

definition well_asked :: "res_sys \<Rightarrow> bool" where
  "well_asked s \<longleftrightarrow> length (fst s) \<le> 2 ^ 32 \<and> (\<forall>k r. map_of (fst s) k = Some r \<longrightarrow>
     whole (requested_power r) \<and> distinct (chain (snd s) (res_budget r)))"

definition books_match :: "res_sys \<Rightarrow> bool" where
  "books_match s \<longleftrightarrow> wf_bm (snd s) \<and> distinct (map fst (fst s)) \<and>
     (\<forall>k r. map_of (fst s) k = Some r \<longrightarrow> whole (reserved_power r) \<and>
        (state r = PLANNED \<or> state r = VALIDATED \<longrightarrow> reserved_power r = Fin 0)) \<and>
     (\<forall>x b. map_of (snd s) x = Some b \<longrightarrow> reserved b = Fin (of_nat (total_held (snd s) (fst s) x)))"

lemma watts_nat_Fin [simp]: "watts_nat (Fin (of_nat n)) = n"
  by (simp add: watts_nat_def)

lemma watts_nat_zero [simp]: "watts_nat (Fin 0) = 0"
  using watts_nat_Fin [of 0] by simp

lemma whole_zero [simp]: "whole (Fin 0)"
  by (auto simp: whole_def intro: exI [of _ 0])

lemma wholeD: "whole w \<Longrightarrow> w = Fin (of_nat (watts_nat w)) \<and> watts_nat w \<le> 2 ^ 20"
  by (auto simp: whole_def)

lemma held_chain: "same_cfg bm bm' \<Longrightarrow> held bm' x r = held bm x r"
  by (simp add: held_def chain_same_cfg)

lemma total_held_chain: "same_cfg bm bm' \<Longrightarrow> total_held bm' rm x = total_held bm rm x"
  by (simp add: total_held_def held_chain comp_def)

lemma total_held_bound:
  assumes "distinct (map fst rm)" "\<And>k r. map_of rm k = Some r \<Longrightarrow> whole (reserved_power r)"
  shows "total_held bm rm x \<le> length rm * 2 ^ 20"
proof -
  have "\<forall>n \<in> set (map (held bm x \<circ> snd) rm). n \<le> 2 ^ 20"
    using assms wholeD by (fastforce simp: held_def dest: map_of_is_SomeI)
  then have "sum_list ns \<le> length ns * 2 ^ 20" if "ns = map (held bm x \<circ> snd) rm" for ns
    unfolding that [symmetric] by (induction ns) auto
  from this [OF refl] show ?thesis by (simp add: total_held_def)
qed

lemma total_held_update:
  "distinct (map fst rm) \<Longrightarrow> map_of rm k = Some r \<Longrightarrow>
    total_held bm (AList.update k r' rm) x + held bm x r = total_held bm rm x + held bm x r'"
  unfolding total_held_def by (rule sum_list_update_present)

lemma total_held_ge: "map_of rm k = Some r \<Longrightarrow> held bm x r \<le> total_held bm rm x"
  unfolding total_held_def by (induction rm) (auto split: if_splits)

lemma well_asked_back:
  assumes "res_effect s t" "well_asked t" shows "well_asked s"
proof -
  have e: "res_effect (fst s, snd s) (fst t, snd t)" using assms(1) by simp
  have "length (fst s) \<le> 2 ^ 32" using effect_length [OF e] assms(2) by (simp add: well_asked_def)
  moreover have "whole (requested_power r) \<and> distinct (chain (snd s) (res_budget r))"
    if r: "map_of (fst s) k = Some r" for k r
  proof -
    obtain r' where r': "map_of (fst t) k = Some r'" "same_request r r'" using effect_state [OF e r] by blast
    then have "whole (requested_power r') \<and> distinct (chain (snd t) (res_budget r'))"
      using assms(2) by (auto simp: well_asked_def)
    then show ?thesis using r'(2) chain_same_cfg [OF effect_same_cfg [OF e]] by (simp add: same_request_def)
  qed
  ultimately show ?thesis by (simp add: well_asked_def)
qed

lemma exact_add:
  assumes "n + m \<le> 2 ^ 53" "reserved s = Fin (of_nat n)"
  shows "reserved (add_reserved (Fin (of_nat m)) s) = Fin (of_nat (n + m))"
  using clamped_add_nat [OF assms(1)] by (simp add: assms(2))

lemma exact_sub:
  assumes "n \<le> 2 ^ 53" "m \<le> n" "reserved s = Fin (of_nat n)"
  shows "reserved (sub_reserved (Fin (of_nat m)) s) = Fin (of_nat (n - m))"
  using rnd64_nat [of "n - m"] assms by (simp add: of_nat_diff)

lemma books_match_update:
  assumes "books_match (rm, bm)" "map_of rm k = Some r" "whole (reserved_power r')"
    "state r' = PLANNED \<or> state r' = VALIDATED \<longrightarrow> reserved_power r' = Fin 0" "wf_bm bm'"
    "\<And>x b. map_of bm' x = Some b \<Longrightarrow> reserved b = Fin (of_nat (total_held bm' (AList.update k r' rm) x))"
  shows "books_match (AList.update k r' rm, bm')"
  using assms by (auto simp: books_match_def distinct_update update_conv' split: if_splits)

lemma reserve_books:
  assumes bm: "books_match (rm, bm)" and asked: "well_asked (rm, bm)" and k: "map_of rm k = Some r"
    and st: "state r = PLANNED \<or> state r = VALIDATED" "state r' = RESERVED" "same_request r r'"
      "reserved_power r' = requested_power r"
    and op: "bm_reserve bm (res_budget r) (requested_power r) k g = (True, bm')"
  shows "books_match (AList.update k r' rm, bm')"
proof (rule books_match_update [OF bm k])
  have len: "length rm \<le> 2 ^ 32" and req: "whole (requested_power r)" and dist: "distinct (chain bm (res_budget r))"
    using asked k by (auto simp: well_asked_def)
  show "whole (reserved_power r')" using req st by simp
  show "state r' = PLANNED \<or> state r' = VALIDATED \<longrightarrow> reserved_power r' = Fin 0" using st by simp
  show "wf_bm bm'" using bm reserve_op.op_wf [OF op] by (simp add: books_match_def)
  have cfg: "same_cfg bm bm'" by (rule reserve_op.op_same_cfg [OF op])
  have d: "distinct (map fst rm)" and w: "\<And>k r. map_of rm k = Some r \<Longrightarrow> whole (reserved_power r)"
    and zero: "reserved_power r = Fin 0" and books: "\<And>x b. map_of bm x = Some b \<Longrightarrow> reserved b = Fin (of_nat (total_held bm rm x))"
    using bm k st by (auto simp: books_match_def)
  define n where "n = watts_nat (requested_power r)"
  have n: "requested_power r = Fin (of_nat n)" "n \<le> 2 ^ 20" using wholeD [OF req] by (auto simp: n_def)
  fix x b assume b: "map_of bm' x = Some b"
  have h: "held bm x r = 0" "held bm x r' = (if x \<in> set (chain bm (res_budget r)) then n else 0)"
    using zero st n by (auto simp: held_def same_request_def)
  have tot: "total_held bm' (AList.update k r' rm) x = total_held bm rm x + held bm x r'"
    using total_held_update [OF d k, of bm r' x] h total_held_chain [OF cfg] by simp
  have "total_held bm rm x \<le> length rm * 2 ^ 20" using total_held_bound d w by blast
  then have le: "total_held bm rm x + n \<le> 2 ^ 53" using len n(2) by simp
  obtain b0 where b0: "map_of bm x = Some b0" using b reserve_op.map_after [OF op dist, of x]
    by (cases "map_of bm x") (auto split: if_splits)
  show "reserved b = Fin (of_nat (total_held bm' (AList.update k r' rm) x))"
    using reserve_op.map_after [OF op dist, of x] b b0 books [OF b0] exact_add [OF le books [OF b0]] tot h n
    by (auto split: if_splits)
qed

lemma release_books:
  assumes bm: "books_match (rm, bm)" and asked: "well_asked (rm, bm)" and k: "map_of rm k = Some r"
    and st: "\<not> terminal (state r)" "state r' = RELEASED" "same_request r r'" "reserved_power r' = reserved_power r"
    and op: "bm_release bm (res_budget r) (reserved_power r) k g = (True, bm1)"
    and bm': "bm' = bm1 \<or> bm' = snd (bm_deactivate bm1 (res_budget r) (reserved_power r) k g)"
  shows "books_match (AList.update k r' rm, bm')"
proof (rule books_match_update [OF bm k])
  have len: "length rm \<le> 2 ^ 32" and dist: "distinct (chain bm (res_budget r))"
    using asked k by (auto simp: well_asked_def)
  have d: "distinct (map fst rm)" and w: "\<And>k r. map_of rm k = Some r \<Longrightarrow> whole (reserved_power r)"
    and books: "\<And>x b. map_of bm x = Some b \<Longrightarrow> reserved b = Fin (of_nat (total_held bm rm x))"
    using bm by (auto simp: books_match_def)
  show "whole (reserved_power r')" using w [OF k] st by simp
  show "state r' = PLANNED \<or> state r' = VALIDATED \<longrightarrow> reserved_power r' = Fin 0" using st by simp
  show "wf_bm bm'" using bm release_op.op_wf [OF op] bm' deactivate_snd(2) by (auto simp: books_match_def)
  have cfg: "same_cfg bm bm'" using release_op.op_same_cfg [OF op] bm' deactivate_snd(1) same_cfg_trans by blast
  have res: "same_reserved bm1 bm'" using bm' deactivate_snd(3) by auto
  define n where "n = watts_nat (reserved_power r)"
  have n: "reserved_power r = Fin (of_nat n)" using wholeD [OF w [OF k]] by (simp add: n_def)
  fix x b assume b: "map_of bm' x = Some b"
  obtain b1 where b1: "map_of bm1 x = Some b1" "reserved b1 = reserved b"
    using res b by (cases "map_of bm1 x") (auto simp: same_reserved_def dest: spec [of _ x])
  obtain b0 where b0: "map_of bm x = Some b0" using b1 release_op.map_after [OF op dist, of x]
    by (cases "map_of bm x") (auto split: if_splits)
  have h: "held bm x r' = 0" "held bm x r = (if x \<in> set (chain bm (res_budget r)) then n else 0)"
    using st by (auto simp: held_def terminal_def n)
  have tot: "total_held bm' (AList.update k r' rm) x = total_held bm rm x - held bm x r" "held bm x r \<le> total_held bm rm x"
    using total_held_update [OF d k, of bm r' x] h total_held_chain [OF cfg] total_held_ge [OF k] by auto
  have "total_held bm rm x \<le> length rm * 2 ^ 20" using total_held_bound d w by blast
  then have le: "total_held bm rm x \<le> 2 ^ 53" using len by simp
  show "reserved b = Fin (of_nat (total_held bm' (AList.update k r' rm) x))"
    using release_op.map_after [OF op dist, of x] b1 b0 books [OF b0] exact_sub [OF le _ books [OF b0], of n] tot h n
    by (auto split: if_splits)
qed

lemma effect_books:
  assumes "res_effect (rm, bm) (rm', bm')" "books_match (rm, bm)" "well_asked (rm', bm')"
  shows "books_match (rm', bm')"
  using assms(1)
proof (cases rule: res_effect_cases)
  case eff_nothing
  then show ?thesis using assms(2) by simp
next
  case (eff_plan k r)
  have "held bm x r = 0" for x using eff_plan by (simp add: held_def)
  then have "total_held bm (rm @ [(k, r)]) x = total_held bm rm x" for x by (simp add: total_held_def)
  then show ?thesis using assms(2) eff_plan
    by (auto simp: books_match_def map_of_eq_None_iff map_add_def split: option.splits if_splits)
next
  case (eff_move k r r')
  have d: "distinct (map fst rm)" and b: "\<And>x b. map_of bm x = Some b \<Longrightarrow> reserved b = Fin (of_nat (total_held bm rm x))"
    and w: "whole (reserved_power r)" and z: "state r = PLANNED \<or> state r = VALIDATED \<longrightarrow> reserved_power r = Fin 0"
    using assms(2) eff_move by (auto simp: books_match_def)
  have "held bm x r' = held bm x r" for x
    using eff_move by (auto simp: held_def same_request_def terminal_def)
  then have tot: "total_held bm' (AList.update k r' rm) x = total_held bm rm x" for x
    using total_held_update [OF d eff_move(2), of bm r' x] total_held_chain [OF eff_move(9)] by simp
  have early: "state r' = PLANNED \<or> state r' = VALIDATED \<Longrightarrow> state r = PLANNED \<or> state r = VALIDATED"
    using eff_move(4) by (cases "state r") (auto simp: can_reach_def)
  show ?thesis unfolding eff_move(1)
  proof (rule books_match_update [OF assms(2) eff_move(2)])
    show "wf_bm bm'" using assms(2) eff_move by (simp add: books_match_def)
    fix x c assume c: "map_of bm' x = Some c"
    then obtain c0 where "map_of bm x = Some c0" "reserved c0 = reserved c"
      using eff_move(8) by (cases "map_of bm x") (auto simp: same_reserved_def dest: spec [of _ x])
    then show "reserved c = Fin (of_nat (total_held bm' (AList.update k r' rm) x))" using b tot by metis
  qed (use w z early eff_move in auto)
next
  case (eff_reserve k r r' g)
  then show ?thesis using reserve_books assms(2) well_asked_back [OF assms(1,3)] by blast
next
  case (eff_release k r r' g bm1)
  then show ?thesis using release_books assms(2) well_asked_back [OF assms(1,3)] by blast
qed

lemma run_books: "res_run s t \<Longrightarrow> books_match s \<Longrightarrow> well_asked t \<Longrightarrow> books_match t"
proof (induction rule: res_run.induct)
  case (run_step s t u)
  then have "well_asked t" using well_asked_back res_step_effect by blast
  then show ?case using run_step res_step_effect effect_books [of "fst t" "snd t" "fst u" "snd u"] by simp
qed simp

section \<open>Activation\<close>

lemma no_room:
  assumes "state_ok s" "hard_max (cfg s) = Fin (of_nat h)" "reserved s = Fin (of_nat n)"
    "h < n + a" "0 < a" "h \<le> 2 ^ 20" "n \<le> 2 ^ 20" "a \<le> 2 ^ 20"
  shows "own_available s + eps9 < Fin (of_nat a)"
proof -
  obtain u where u: "used s = Fin u" "0 \<le> u" using assms(1) by (auto simp: state_ok_def elim: quantity_okE)
  have "\<bar>int h - int n\<bar> \<le> 2 ^ 53" using assms(6,7) by simp
  from rnd64_int [OF this] have d: "rnd64 (of_nat h - of_nat n) = Fin (of_nat h - of_nat n)" by simp
  have g: "grid64 (of_nat a - 1)" using grid64_int [of "int a - 1"] assms(5,8) by simp
  have "rat_of_nat h + 1 \<le> of_nat n + of_nat a"
    using assms(4) by (metis of_nat_add of_nat_le_iff of_nat_Suc Suc_leI add.commute)
  then have "rat_of_nat h - of_nat n - u \<le> of_nat a - 1" using u(2) by simp
  then have le: "rnd64 (of_nat h - of_nat n - u) \<le> Fin (of_nat a - 1)" by (rule b64.rnd_le [OF g])
  have a1: "1 \<le> rat_of_nat a" using assms(5) by simp
  have "own_available s = clamped (rnd64 (of_nat h - of_nat n - u))"
    by (simp add: own_available_def assms(2,3) u(1) d)
  then obtain v where v: "own_available s = Fin v" "v \<le> of_nat a - 1"
    using le a1 that [of 0] by (cases "rnd64 (of_nat h - of_nat n - u)") (auto simp: max_def split: if_splits)
  have g2: "grid64 (of_nat a - 1 / 2)" using grid64_dyadic [of "2 * int a - 1" 1] assms(8)
    by (simp add: diff_divide_distrib)
  have "v + eps9_val \<le> of_nat a - 1 / 2" using v(2) eps9_bounds by simp
  then have "rnd64 (v + eps9_val) \<le> Fin (of_nat a - 1 / 2)" by (rule b64.rnd_le [OF g2])
  then show ?thesis by (cases "rnd64 (v + eps9_val)") (auto simp: v(1) eps9_Fin)
qed

section \<open>An example run\<close>

definition demo_res :: "u64 \<Rightarrow> rat \<Rightarrow> reservation_state \<Rightarrow> rat \<Rightarrow> reservation" where
  "demo_res n w st p = \<lparr>res_id = StrongId n, res_generation = gen_first, workload = StrongId 7,
     request_class = id_invalid, power_class = BATCH, scope = StrongId 2, res_budget = StrongId 2,
     requested_power = Fin w, requested_energy = Fin 0, res_policy_generation = gen_first,
     res_device_generation = gen_first,
     res_budget_generation = (if st = PLANNED then gen_null else gen_first), authority = empty_envelope,
     created = 5, validity = 1000, state = st, reserved_power = Fin p, energy_used = Fin 0,
     activated_at = 0, released_at = 0\<rparr>"

lemma demo_plan:
  "rm_plan (StrongId 7) BATCH (StrongId 2) (StrongId 2) (Fin 100) (Fin 0) gen_first gen_first
     empty_envelope 5 1000 1 [] = (\<lparr>ok = True, reason = ''planned'', rr_id = StrongId 1\<rparr>, 2,
       [(StrongId 1, demo_res 1 100 PLANNED 0)])"
  by (simp add: rm_plan_def allocate_def Let_def demo_res_def)

lemma demo_expired: "res_expired (demo_res n w st p) now = Inr (1000 < max 0 (now - 5))" if "ts_ok now"
  using that by (simp add: res_expired_def demo_res_def ts_is_zero_def ts_ok_def kMaxNs_def)

lemma demo_rm_reserve:
  "rm_reserve (StrongId 1) gen_first 6 (demo_bm 0 0) [(StrongId 1, demo_res 1 100 PLANNED 0)]
     = Inr (Result True ''reserved'', demo_bm 100 0, [(StrongId 1, demo_res 1 100 RESERVED 100)])"
proof -
  have "res_expired (demo_res 1 100 PLANNED 0) 6 = Inr False"
    by (subst demo_expired) (simp_all add: ts_ok_def kMaxNs_def)
  then show ?thesis using demo_reserve [of "StrongId 1"]
    by (simp add: rm_reserve_def rm_get_def) (simp add: demo_res_def)
qed

lemma demo_res_run: "res_run ([], demo_bm 0 0) ([(StrongId 1, demo_res 1 100 RESERVED 100)], demo_bm 100 0)"
  by (rule res_run.run_step [OF res_run.run_step [OF res_run.run_refl
        res_step.step_plan [OF demo_plan]] res_step.step_reserve [OF demo_rm_reserve]])

section \<open>Properties\<close>

text \<open>C2: Reserved power is conserved. Take a well-formed budget manager with nothing reserved, no
  reservations, and any sequence of lifecycle calls, accepted or refused, that ends with at most \<open>2 ^ 32\<close> reservations, each asking for
  a whole number of watts up to \<open>2 ^ 20\<close> on a budget whose ancestor chain contains no budget twice. Then
  the power reserved on every budget is exactly the sum of what the unreleased reservations below it
  hold: no call reserves or releases twice, and no refused call leaves a trace.\<close>

theorem reserved_power_conserved:
  assumes "res_run ([], bm0) (rm, bm)" "wf_bm bm0" "\<forall>x s. map_of bm0 x = Some s \<longrightarrow> reserved s = Fin 0"
    and "length rm \<le> 2 ^ 32"
    and "\<And>k r. map_of rm k = Some r \<Longrightarrow> \<exists>n \<le> 2 ^ 20. requested_power r = Fin (of_nat n)"
    and "\<And>k r. map_of rm k = Some r \<Longrightarrow> distinct (chain bm (res_budget r))"
    and "map_of bm x = Some s"
  shows "reserved s = Fin (of_nat (total_held bm rm x))"
proof -
  have "books_match ([], bm0)" using assms(2,3) by (simp add: books_match_def total_held_def)
  moreover have "well_asked (rm, bm)" using assms(4-6) by (simp add: well_asked_def whole_def)
  ultimately show ?thesis using run_books [OF assms(1)] assms(7) by (simp add: books_match_def)
qed

lemma demo_well_asked:
  "length [(StrongId 1 :: reservation_id, demo_res 1 100 st p)] \<le> 2 ^ 32"
  "map_of [(StrongId 1, demo_res 1 100 st p)] k = Some r \<Longrightarrow> \<exists>n \<le> 2 ^ 20. requested_power r = Fin (of_nat n)"
  "map_of [(StrongId 1, demo_res 1 100 st p)] k = Some r \<Longrightarrow> distinct (chain (demo_bm v u) (res_budget r))"
  by (auto simp: demo_res_def demo_chain split: if_splits intro!: exI [of _ 100])

theorem reserved_power_conserved_witness:
  "reserved (demo_state 1 None 450 100 0)
     = Fin (of_nat (total_held (demo_bm 100 0) [(StrongId 1, demo_res 1 100 RESERVED 100)] (StrongId 1)))"
  by (rule reserved_power_conserved [OF demo_res_run demo_wf _ demo_well_asked])
    (auto simp: demo_bm_def demo_state_def split: if_splits)

text \<open>C19: The lifecycle only advances. Along any run a reservation keeps its identity, budget, request
  and validity, its state only moves forward from planning to release or expiry, an active reservation
  does not expire, and a released or expired reservation never changes again.\<close>

theorem lifecycle_advances:
  assumes "res_run (rm, bm) (rm', bm')" "map_of rm x = Some r"
  shows "\<exists>r'. map_of rm' x = Some r' \<and> can_reach (state r) (state r') \<and> same_request r r' \<and>
    (state r = RELEASED \<or> state r = EXPIRED \<longrightarrow> r' = r)"
  using run_state [OF assms(1)] assms(2) by (simp add: terminal_def)

theorem lifecycle_advances_witness:
  "\<exists>r'. map_of [(StrongId 1, demo_res 1 100 RESERVED 100)] (StrongId 1) = Some r' \<and>
     can_reach PLANNED (state r')"
proof -
  have "res_run ([(StrongId 1, demo_res 1 100 PLANNED 0)], demo_bm 0 0)
      ([(StrongId 1, demo_res 1 100 RESERVED 100)], demo_bm 100 0)"
    by (rule res_run.run_step [OF res_run.run_refl res_step.step_reserve [OF demo_rm_reserve]])
  from lifecycle_advances [OF this, of "StrongId 1" "demo_res 1 100 PLANNED 0"]
  show ?thesis by (simp add: demo_res_def)
qed

text \<open>C9: A reservation is released at most once. After a successful release, every later release of
  the same reservation is refused, whatever generation it carries and whatever happened in between, and
  changes neither manager.\<close>

theorem no_double_release:
  assumes "rm_release rid g now bm rm = Inr (res, bm1, rm1)" "ok res" "res_run (rm1, bm1) (rm2, bm2)"
  shows "rm_release rid g' now' bm2 rm2 = Inr (Result False ''double release'', bm2, rm2)"
proof -
  obtain r where "map_of rm1 rid = Some r" "state r = RELEASED"
    using assms(1,2)
    by (auto simp: rm_release_def rm_get_def Let_def update_conv' split: option.splits if_splits prod.splits)
  then have "map_of rm2 rid = Some r \<and> state r = RELEASED"
    using run_state [OF assms(3), of rid r] by (auto simp: terminal_def)
  then show ?thesis by (simp add: rm_release_def rm_get_def)
qed

lemma demo_release_planned:
  "\<exists>bm1. rm_release (StrongId 1) gen_first 9 (demo_bm 0 0) [(StrongId 1, demo_res 1 100 PLANNED 0)]
     = Inr (Result True ''released'', bm1, [(StrongId 1, (demo_res 1 100 PLANNED 0)\<lparr>state := RELEASED, released_at := 9\<rparr>)])"
proof -
  have "\<not> Fin 0 + eps9 < Fin 0" using eps9_bounds by (simp add: eps9_Fin b64.rnd_grid [OF eps9_grid])
  then have "fst (bm_release (demo_bm 0 0) (StrongId 2) (Fin 0) (StrongId 1) gen_first)"
    unfolding bm_release_def demo_chain by (simp add: demo_defs bad_amount_def)
  then show ?thesis
    by (auto simp: rm_release_def rm_get_def Let_def demo_res_def split: prod.splits)
qed

theorem no_double_release_witness:
  "\<exists>bm rm. rm_release (StrongId 1) gen_null 10 bm rm = Inr (Result False ''double release'', bm, rm)"
  using demo_release_planned no_double_release [OF _ _ res_run.run_refl] by fastforce

text \<open>An expired reservation leaks its power. A reservation that expires when it is admitted or
  activated keeps what it reserved on its budgets: the call changes no budget, and no later release of it
  is ever accepted, so by conservation its power stays booked for good.\<close>

lemma expired_reservation_leaks:
  assumes "map_of rm rid = Some r" "state r = RESERVED" "res_expired r now = Inr True"
    "rm_admit rid now rm = Inr (res, rm1)" "res_run (rm1, bm) (rm2, bm2)"
  shows "rm_release rid g now' bm2 rm2 = Inr (Result False ''already expired'', bm2, rm2) \<and>
    (x \<in> set (chain bm2 (res_budget r)) \<longrightarrow> watts_nat (reserved_power r) \<le> total_held bm2 rm2 x)"
proof -
  have "map_of rm1 rid = Some (r\<lparr>state := EXPIRED\<rparr>)"
    using assms(1-4) by (auto simp: rm_admit_def rm_get_def update_conv')
  then have r2: "map_of rm2 rid = Some (r\<lparr>state := EXPIRED\<rparr>)"
    using run_state [OF assms(5), of rid] by (auto simp: terminal_def)
  then have "rm_release rid g now' bm2 rm2 = Inr (Result False ''already expired'', bm2, rm2)"
    by (simp add: rm_release_def rm_get_def)
  moreover have "held bm2 x (r\<lparr>state := EXPIRED\<rparr>) \<le> total_held bm2 rm2 x" by (rule total_held_ge [OF r2])
  ultimately show ?thesis by (auto simp: held_def)
qed

lemma expired_reservation_leaks_witness:
  "\<exists>rm. rm_release (StrongId 1) gen_first 3000 (demo_bm 100 0) rm
      = Inr (Result False ''already expired'', demo_bm 100 0, rm) \<and> 100 \<le> total_held (demo_bm 100 0) rm (StrongId 1)"
proof -
  let ?r = "demo_res 1 100 RESERVED 100"
  let ?rm = "[(StrongId 1, ?r\<lparr>state := EXPIRED\<rparr>)]"
  have ex: "res_expired ?r 2000 = Inr True" by (subst demo_expired) (simp_all add: ts_ok_def kMaxNs_def)
  have adm: "rm_admit (StrongId 1) 2000 [(StrongId 1, ?r)] = Inr (Result False ''reservation expired'', ?rm)"
    using ex by (simp add: rm_admit_def rm_get_def) (simp add: demo_res_def)
  have run: "res_run (?rm, demo_bm 100 0) (?rm, demo_bm 100 0)" by (rule res_run.run_refl)
  from expired_reservation_leaks [OF _ _ ex adm run, of gen_first 3000 "StrongId 1"]
  show ?thesis using watts_nat_Fin [of 100] by (auto simp: demo_res_def demo_chain)
qed

text \<open>Releasing a reservation that was never activated takes usage away from others. \<^verbatim>\<open>release\<close>
  deactivates the power of a reservation that is only reserved or admitted, so whenever the budgets of
  its chain show at least that much usage, which other, active reservations caused, the usage shrinks.\<close>

theorem release_takes_foreign_usage:
  assumes "map_of rm rid = Some r" "state r = RESERVED"
    "bm_release bm (res_budget r) (reserved_power r) rid g = (True, bm1)"
    "bm_deactivate bm1 (res_budget r) (reserved_power r) rid g = (True, bm2)"
    "distinct (chain bm (res_budget r))" "x \<in> set (chain bm (res_budget r))" "map_of bm x = Some s"
  shows "\<exists>rm' s'. rm_release rid g now bm rm = Inr (Result True ''released'', bm2, rm') \<and>
    map_of bm2 x = Some s' \<and> used s' = clamped (used s - reserved_power r)"
proof -
  have "rm_release rid g now bm rm = Inr (Result True ''released'', bm2,
      AList.update rid (r\<lparr>state := RELEASED, released_at := now\<rparr>) rm)"
    using assms(1-4) by (simp add: rm_release_def rm_get_def)
  moreover have ch: "chain bm1 (res_budget r) = chain bm (res_budget r)"
    by (rule release_op.chain_stable [OF assms(3)])
  have "map_of bm1 x = Some (sub_reserved (reserved_power r) s)"
    using release_op.map_after [OF assms(3,5), of x] assms(6,7) by simp
  then have "map_of bm2 x = Some (sub_used (reserved_power r) (sub_reserved (reserved_power r) s))"
    using deactivate_op.map_after [OF assms(4), of x] assms(5,6) by (simp add: ch)
  ultimately show ?thesis by simp
qed

lemma demo_give_back:
  "bm_release (demo_bm 200 100) (StrongId 2) (Fin 100) rid gen_first = (True, demo_bm 100 100)"
  "bm_deactivate (demo_bm 100 100) (StrongId 2) (Fin 100) rid gen_first = (True, demo_bm 100 0)"
proof -
  have n: "\<not> Fin 200 + eps9 < Fin 100" "\<not> Fin 100 + eps9 < Fin 100"
    using b64.rnd_ge [of 100 "200 + eps9_val"] b64.rnd_ge [of 100 "100 + eps9_val"] eps9_bounds grid64_int [of 100]
    by (cases "rnd64 (200 + eps9_val)"; cases "rnd64 (100 + eps9_val)"; simp add: eps9_Fin not_less)+
  show "bm_release (demo_bm 200 100) (StrongId 2) (Fin 100) rid gen_first = (True, demo_bm 100 100)"
    unfolding bm_release_def demo_chain using n(1)
    by (simp add: demo_bm_def demo_state_def demo_budget_def gen_first_def bad_amount_def book_def upd_state_def
        sub_reserved_def)
  show "bm_deactivate (demo_bm 100 100) (StrongId 2) (Fin 100) rid gen_first = (True, demo_bm 100 0)"
    unfolding bm_deactivate_def demo_chain using n(2)
    by (simp add: demo_bm_def demo_state_def demo_budget_def gen_first_def bad_amount_def book_def upd_state_def
        sub_used_def)
qed

theorem release_takes_foreign_usage_witness:
  "\<exists>rm'. rm_release (StrongId 2) gen_first 9 (demo_bm 200 100)
      [(StrongId 1, demo_res 1 100 ACTIVE 100), (StrongId 2, demo_res 2 100 RESERVED 100)]
    = Inr (Result True ''released'', demo_bm 100 0, rm')"
proof -
  have s: "map_of (demo_bm 200 100) (StrongId 1) = Some (demo_state 1 None 450 200 100)"
    by (simp add: demo_bm_def)
  show ?thesis
  using release_takes_foreign_usage [of "[(StrongId 1, demo_res 1 100 ACTIVE 100), (StrongId 2, demo_res 2 100 RESERVED 100)]"
      "StrongId 2" "demo_res 2 100 RESERVED 100" "demo_bm 200 100" gen_first "demo_bm 100 100" "demo_bm 100 0" "StrongId 1"
      "demo_state 1 None 450 200 100" 9] demo_give_back [of "StrongId 2"] s
    by (auto simp: demo_res_def demo_chain)
qed

text \<open>Activation needs the reserved power a second time. The power an activation books as used comes
  on top of the reserved power, so a reservation whose request exceeds what its reservation left free
  on some budget of its chain is never activated, although its power is reserved for it.\<close>

theorem activation_needs_power_twice:
  assumes "map_of rm rid = Some r" "state r = RESERVED \<or> state r = ADMITTED" "res_expired r now = Inr False"
    "res_budget_generation r = g" "requested_power r = Fin (of_nat a)" "0 < a" "a \<le> 2 ^ 20"
    "x \<in> set (chain bm (res_budget r))" "map_of bm x = Some s" "state_ok s"
    "hard_max (cfg s) = Fin (of_nat h)" "reserved s = Fin (of_nat n)" "h < n + a" "h \<le> 2 ^ 20" "n \<le> 2 ^ 20"
  shows "rm_activate rid g now bm rm = Inr (Result False ''budget activate failed'', bm, rm)"
proof -
  have "own_available s + eps9 < requested_power r"
    unfolding assms(5) by (rule no_room [OF assms(10-13,6,14,15,7)])
  then have cap: "\<not> chain_has_capacity bm (res_budget r) (requested_power r)"
    using assms(8,9) by (fastforce simp: chain_has_capacity_def list_all_found)
  have "bm_activate bm (res_budget r) (requested_power r) rid g = (False, bm)"
    by (simp add: bm_activate_def cap split: option.split)
  then show ?thesis using assms(1-4) by (auto simp: rm_activate_def rm_get_def)
qed

theorem activation_needs_power_twice_witness:
  "rm_activate (StrongId 1) gen_first 6 (demo_bm 300 0) [(StrongId 1, demo_res 1 300 RESERVED 300)]
     = Inr (Result False ''budget activate failed'', demo_bm 300 0, [(StrongId 1, demo_res 1 300 RESERVED 300)])"
proof -
  have "res_expired (demo_res 1 300 RESERVED 300) 6 = Inr False"
    by (subst demo_expired) (simp_all add: ts_ok_def kMaxNs_def)
  moreover have "map_of (demo_bm 300 0) (StrongId 2) = Some (demo_state 2 (Some (StrongId 1)) 402 300 0)"
    by (simp add: demo_bm_def)
  moreover have "state_ok (demo_state 2 (Some (StrongId 1)) 402 300 0)"
    using grid64_int [of 402] grid64_int [of 300] b64.grid_zero by (simp add: state_ok_def demo_defs)
  ultimately show ?thesis
    by (intro activation_needs_power_twice [where r = "demo_res 1 300 RESERVED 300" and a = 300 and
          x = "StrongId 2" and s = "demo_state 2 (Some (StrongId 1)) 402 300 0" and h = 402 and n = 300])
      (simp_all add: demo_res_def demo_chain demo_state_def demo_budget_def)
qed

end
