(* ===== verification/Util.thy ===== *)
theory Util
  imports Binary64 Ids
begin

text \<open>
  The serialization helpers of \<^verbatim>\<open>util.hpp\<close>: the FNV-1a digest, CRC-32, JSON escaping and the JSON
  writer; and the decimal formatting of the standard library they use.
\<close>

section \<open>Digest and checksum\<close>

definition fnv1a_64 :: "string \<Rightarrow> u64" where
  "fnv1a_64 s = foldl (\<lambda>h c. (h XOR of_char c) * 1099511628211) 1469598103934665603 s"

text \<open>The loop fills the 16 digits from the last one; \<open>v\<close> shifts right by four bits at each turn.\<close>

fun to_hex_loop :: "nat \<Rightarrow> u64 \<Rightarrow> string \<Rightarrow> string" where
  "to_hex_loop 0 v out = out"
| "to_hex_loop (Suc i) v out = to_hex_loop i (drop_bit 4 v) (out[i := hex_digit (unat (v AND 0xF))])"

definition to_hex :: "u64 \<Rightarrow> string" where
  "to_hex v = to_hex_loop 16 v (replicate 16 (CHR ''0''))"

definition digest_hex :: "string \<Rightarrow> string" where
  "digest_hex s = to_hex (fnv1a_64 s)"

definition crc_bit :: "u32 \<Rightarrow> u32" where
  "crc_bit crc = drop_bit 1 crc XOR (0xEDB88320 AND (0 - (crc AND 1)))"

definition crc_byte :: "u32 \<Rightarrow> byte \<Rightarrow> u32" where
  "crc_byte crc b = (crc_bit ^^ 8) (crc XOR ucast b)"

definition crc32_update :: "u32 \<Rightarrow> bytes \<Rightarrow> u32" where
  "crc32_update crc bs = foldl crc_byte crc bs"

definition crc32 :: "bytes \<Rightarrow> u32" where
  "crc32 bs = crc32_update 0xFFFFFFFF bs XOR 0xFFFFFFFF"

section \<open>Decimal formatting\<close>

text \<open>\<^verbatim>\<open>std::to_string\<close> of an unsigned integer.\<close>

fun dec_digits :: "nat \<Rightarrow> string" where
  "dec_digits n = (if n < 10 then [hex_digit n] else dec_digits (n div 10) @ [hex_digit (n mod 10)])"

declare dec_digits.simps [simp del]

text \<open>\<^verbatim>\<open>std::to_string\<close> of a double is the \<^verbatim>\<open>%f\<close> format: six decimals of the exact value, rounded to nearest
  with ties to even.\<close>

definition fraction_digits :: "nat \<Rightarrow> string" where
  "fraction_digits n = (let s = dec_digits n in replicate (6 - length s) (CHR ''0'') @ s)"

definition format_f :: "double \<Rightarrow> string" where
  "format_f x = (case x of
     Fin q \<Rightarrow> (let n = nat (rhe (\<bar>q\<bar> * 1000000))
       in (if q < 0 then ''-'' else '''') @ dec_digits (n div 1000000) @ ''.'' @ fraction_digits (n mod 1000000))
   | PInf \<Rightarrow> ''inf''
   | NInf \<Rightarrow> ''-inf''
   | NaN \<Rightarrow> ''nan'')"

text \<open>The \<^verbatim>\<open>%.9g\<close> format: nine significant digits, correctly rounded; the decimal exponent \<open>e\<close> of the rounded number
  decides between the fixed and the scientific form, and zeros at the end of the fraction are dropped.\<close>

definition dec_exponent :: "rat \<Rightarrow> int" where
  "dec_exponent q = (if 1 \<le> q then int (length (dec_digits (nat \<lfloor>q\<rfloor>))) - 1
     else - int (length (dec_digits (nat (\<lceil>1 / q\<rceil> - 1)))))"

definition ten_to :: "int \<Rightarrow> rat" where
  "ten_to e = (if 0 \<le> e then 10 ^ nat e else 1 / 10 ^ nat (- e))"

definition sig9 :: "rat \<Rightarrow> nat \<times> int" where
  "sig9 q = (let x = dec_exponent q; m = nat (rhe (q * ten_to (8 - x)))
     in if m = 1000000000 then (100000000, x + 1) else (m, x))"

definition with_point :: "string \<Rightarrow> string \<Rightarrow> string" where
  "with_point a b = (let f = rev (dropWhile (\<lambda>c. c = CHR ''0'') (rev b)) in if f = [] then a else a @ ''.'' @ f)"

definition format_g :: "double \<Rightarrow> string" where
  "format_g x = (case x of
     Fin q \<Rightarrow> if q = 0 then ''0'' else (case sig9 \<bar>q\<bar> of (m, e) \<Rightarrow>
       let ds = dec_digits m in
       (if q < 0 then ''-'' else '''') @
       (if e < - 4 \<or> 9 \<le> e then with_point (take 1 ds) (drop 1 ds) @ (if e < 0 then ''e-'' else ''e+'') @
          (if \<bar>e\<bar> < 10 then ''0'' else '''') @ dec_digits (nat \<bar>e\<bar>)
        else if 0 \<le> e then with_point (take (nat e + 1) ds) (drop (nat e + 1) ds)
        else with_point ''0'' (replicate (nat (- e) - 1) (CHR ''0'') @ ds)))
   | PInf \<Rightarrow> ''inf''
   | NInf \<Rightarrow> ''-inf''
   | NaN \<Rightarrow> ''nan'')"

section \<open>JSON\<close>

text \<open>A C++ string literal \<^verbatim>\<open>"\""\<close> is one quote and \<^verbatim>\<open>"\\"\<close> one backslash, so these two characters are
  copied as they are.\<close>

definition quote :: char where "quote = CHR 0x22"
definition backslash :: char where "backslash = CHR 0x5C"

definition escape_char :: "char \<Rightarrow> string" where
  "escape_char c = (let n = of_char c :: nat in
     if c = quote then [quote]
     else if c = backslash then [backslash]
     else if n = 10 then [backslash, CHR ''n'']
     else if n = 13 then [backslash, CHR ''r'']
     else if n = 9 then [backslash, CHR ''t'']
     else if n < 32 then [backslash, CHR ''u'', CHR ''0'', CHR ''0'', hex_digit (n div 16), hex_digit (n mod 16)]
     else [c])"

definition json_escape :: "string \<Rightarrow> string" where
  "json_escape s = concat (map escape_char s)"

record json_writer =
  jbuf :: string
  jfirst :: bool
  value_pending :: bool

definition new_json :: json_writer where
  "new_json = \<lparr>jbuf = [], jfirst = True, value_pending = False\<rparr>"

definition j_put :: "string \<Rightarrow> json_writer \<Rightarrow> json_writer" where
  "j_put s w = w\<lparr>jbuf := jbuf w @ s\<rparr>"

definition j_comma :: "json_writer \<Rightarrow> json_writer" where
  "j_comma w = (if \<not> jfirst w then j_put '','' w else w)\<lparr>jfirst := False\<rparr>"

definition j_open :: "char \<Rightarrow> json_writer \<Rightarrow> json_writer" where
  "j_open c w = (j_put [c] w)\<lparr>jfirst := True, value_pending := False\<rparr>"

definition j_close :: "char \<Rightarrow> json_writer \<Rightarrow> json_writer" where
  "j_close c w = (j_put [c] w)\<lparr>value_pending := False\<rparr>"

definition begin_object :: "json_writer \<Rightarrow> json_writer" where "begin_object = j_open (CHR ''{'')"
definition end_object :: "json_writer \<Rightarrow> json_writer" where "end_object = j_close (CHR ''}'')"
definition begin_array :: "json_writer \<Rightarrow> json_writer" where "begin_array = j_open (CHR ''['')"
definition end_array :: "json_writer \<Rightarrow> json_writer" where "end_array = j_close (CHR '']'')"

definition append_string :: "string \<Rightarrow> json_writer \<Rightarrow> json_writer" where
  "append_string s w = j_put ([quote] @ json_escape s @ [quote]) w"

text \<open>\<^verbatim>\<open>append_value\<close> at the types it accepts: strings, unsigned and signed integers, booleans and floating-point
  numbers, which pass through a buffer of 40 characters. Its last branch, \<^verbatim>\<open>std::to_string\<close> of a value of no such type, has no
  instance.\<close>

datatype json_value = JStr string | JUInt u64 | JInt int | JBool bool | JDouble double

definition append_value :: "json_value \<Rightarrow> json_writer \<Rightarrow> json_writer" where
  "append_value v w = (case v of
     JStr s \<Rightarrow> append_string s w
   | JUInt n \<Rightarrow> j_put (dec_digits (unat n)) w
   | JInt v \<Rightarrow> j_put ((if v < 0 then ''-'' else '''') @ dec_digits (nat \<bar>v\<bar>)) w
   | JBool b \<Rightarrow> j_put (if b then ''true'' else ''false'') w
   | JDouble x \<Rightarrow> j_put (take 39 (format_g x)) w)"

definition j_key :: "string \<Rightarrow> json_value \<Rightarrow> json_writer \<Rightarrow> json_writer" where
  "j_key k v w = append_value v (j_put '':'' (append_string k (j_comma w)))"

definition j_value :: "json_value \<Rightarrow> json_writer \<Rightarrow> json_writer" where
  "j_value v w = append_value v (j_comma w)"

definition raw_key :: "string \<Rightarrow> json_writer \<Rightarrow> json_writer" where
  "raw_key k w = (j_put '':'' (append_string k (j_comma w)))\<lparr>value_pending := True\<rparr>"

definition raw_value :: "string \<Rightarrow> json_writer \<Rightarrow> json_writer" where
  "raw_value s w = (if value_pending w then (j_put s w)\<lparr>value_pending := False\<rparr> else j_put s (j_comma w))"

section \<open>The checksum detects single-byte changes\<close>

lemma xor_self_word: "((x :: 'a::len word) XOR c) XOR c = x"
  by (rule bit_word_eqI) (auto simp: bit_simps)

lemma xor_cancel_right: "(a :: 'a::len word) XOR c = b XOR c \<longleftrightarrow> a = b"
proof
  assume "a XOR c = b XOR c"
  then have "(a XOR c) XOR c = (b XOR c) XOR c" by (rule arg_cong)
  then show "a = b" by (simp only: xor_self_word)
qed simp

lemma xor_cancel_left: "(c :: 'a::len word) XOR a = c XOR b \<longleftrightarrow> a = b"
  using xor_cancel_right [of a c b] by (simp add: xor.commute)

lemmas xor_cancel_word = xor_cancel_right xor_cancel_left

lemma crc_bit_31: "bit (crc_bit x) 31 \<longleftrightarrow> bit x 0"
proof (cases "bit x 0")
  case True
  then have "x AND 1 = 1" by (simp add: and_one_eq odd_iff_mod_2_eq_one bit_0)
  moreover have "\<not> bit x 32" using bit_imp_le_length [of x 32] by auto
  ultimately show ?thesis using True by (simp add: crc_bit_def bit_simps)
next
  case False
  then have "x AND 1 = 0" by (simp add: and_one_eq even_iff_mod_2_eq_zero bit_0)
  then show ?thesis using False bit_imp_le_length [of x 32] by (auto simp: crc_bit_def bit_simps)
qed

lemma crc_bit_inj: assumes "crc_bit x = crc_bit y" shows "x = y"
proof -
  have b0: "bit x 0 \<longleftrightarrow> bit y 0" unfolding crc_bit_31 [symmetric] assms ..
  have "x AND 1 = y AND 1" by (rule bit_word_eqI) (use b0 in \<open>auto simp: bit_simps\<close>)
  then have "drop_bit 1 x = drop_bit 1 y" using assms by (simp add: crc_bit_def xor_cancel_word)
  then have "bit (drop_bit 1 x) n \<longleftrightarrow> bit (drop_bit 1 y) n" for n by simp
  then have s: "bit x (Suc n) \<longleftrightarrow> bit y (Suc n)" for n by (simp add: bit_drop_bit_eq)
  show ?thesis
  proof (rule bit_word_eqI)
    show "bit x n \<longleftrightarrow> bit y n" for n using b0 s by (cases n) simp_all
  qed
qed

lemma crc_bit_pow_inj: "(crc_bit ^^ n) x = (crc_bit ^^ n) y \<Longrightarrow> x = y"
proof (induction n)
  case (Suc n)
  then have "crc_bit ((crc_bit ^^ n) x) = crc_bit ((crc_bit ^^ n) y)" by simp
  then show ?case using Suc.IH crc_bit_inj by blast
qed simp

lemma crc_byte_inj_crc: assumes "crc_byte c b = crc_byte d b" shows "c = d"
proof -
  have "c XOR ucast b = d XOR ucast b" using assms unfolding crc_byte_def by (rule crc_bit_pow_inj)
  then show ?thesis by (simp only: xor_cancel_word)
qed

lemma crc_byte_inj_byte: assumes "crc_byte c a = crc_byte c b" shows "a = b"
proof -
  have "c XOR ucast a = c XOR ucast b" using assms unfolding crc_byte_def by (rule crc_bit_pow_inj)
  then have e: "(ucast a :: u32) = ucast b" by (simp only: xor_cancel_word)
  show ?thesis
  proof (rule bit_word_eqI)
    fix n assume n: "n < LENGTH(8)"
    then have "bit a n \<longleftrightarrow> bit (ucast a :: u32) n" "bit b n \<longleftrightarrow> bit (ucast b :: u32) n"
      by (simp_all add: bit_simps)
    then show "bit a n \<longleftrightarrow> bit b n" using e by simp
  qed
qed

lemma crc32_update_inj: "crc32_update c bs = crc32_update d bs \<Longrightarrow> c = d"
proof (induction bs arbitrary: c d)
  case (Cons b bs)
  then have "crc_byte c b = crc_byte d b" by (simp add: crc32_update_def)
  then show ?case by (rule crc_byte_inj_crc)
qed (simp add: crc32_update_def)

lemma crc32_detects:
  assumes "a \<noteq> b" shows "crc32 (xs @ a # ys) \<noteq> crc32 (xs @ b # ys)"
proof
  assume "crc32 (xs @ a # ys) = crc32 (xs @ b # ys)"
  then have "crc32_update 0xFFFFFFFF (xs @ a # ys) = crc32_update 0xFFFFFFFF (xs @ b # ys)"
    unfolding crc32_def by (simp only: xor_cancel_word)
  then have "crc32_update (crc_byte (crc32_update 0xFFFFFFFF xs) a) ys
      = crc32_update (crc_byte (crc32_update 0xFFFFFFFF xs) b) ys" by (simp add: crc32_update_def)
  with crc32_update_inj crc_byte_inj_byte assms show False by blast
qed

section \<open>Hexadecimal digests\<close>

lemma to_hex_loop_length [simp]: "length (to_hex_loop i v out) = length out"
  by (induction i arbitrary: v out) simp_all

lemma to_hex_length: "length (to_hex v) = 16"
  by (simp add: to_hex_def)

section \<open>Decimal numerals\<close>

lemma dec_digits_small: "n < 10 \<Longrightarrow> dec_digits n = [hex_digit n]"
  by (simp add: dec_digits.simps)

lemma dec_digits_large: "10 \<le> n \<Longrightarrow> dec_digits n = dec_digits (n div 10) @ [hex_digit (n mod 10)]"
  by (subst dec_digits.simps) simp

lemma dec_digits_nonempty [simp]: "dec_digits n \<noteq> []"
  by (subst dec_digits.simps) simp

lemma hex_digit_inj: "i < 16 \<Longrightarrow> j < 16 \<Longrightarrow> hex_digit i = hex_digit j \<Longrightarrow> i = j"
  by (metis hex_digit_class hex_class.inject)

lemma dec_digits_inj: "dec_digits m = dec_digits n \<Longrightarrow> m = n"
proof (induction m arbitrary: n rule: less_induct)
  case (less m)
  show ?case
  proof (cases "m < 10 \<or> n < 10")
    case True
    then have "m < 10 \<and> n < 10" using less.prems
      by (cases "m < 10"; cases "n < 10") (auto simp: dec_digits_small dec_digits_large append_eq_Cons_conv Cons_eq_append_conv)
    then show ?thesis using less.prems hex_digit_inj by (simp add: dec_digits_small)
  next
    case False
    then have "dec_digits (m div 10) = dec_digits (n div 10)" "m mod 10 = n mod 10"
      using less.prems hex_digit_inj [of "m mod 10" "n mod 10"] by (simp_all add: dec_digits_large)
    moreover have "m div 10 < m" using False by simp
    ultimately show ?thesis using less.IH by (metis div_mult_mod_eq)
  qed
qed

lemma quote_not_digit: "quote \<notin> set (dec_digits n)"
proof (induction n rule: dec_digits.induct)
  case (1 n)
  have "classify_hex quote = HexBad" by code_simp
  then have q: "quote \<noteq> hex_digit i" if "i < 10" for i using hex_digit_class [of i] that by auto
  show ?case using 1 q [of n] q [of "n mod 10"] by (subst dec_digits.simps) auto
qed

lemma dec_digits_upper: "n < 10 ^ length (dec_digits n)"
proof (induction n rule: less_induct)
  case (less n)
  show ?case
  proof (cases "n < 10")
    case False
    then have "n div 10 < 10 ^ length (dec_digits (n div 10))" using less.IH by simp
    then have "n < 10 * 10 ^ length (dec_digits (n div 10))" by linarith
    then show ?thesis using False by (simp add: dec_digits_large)
  qed (simp add: dec_digits_small)
qed

lemma dec_digits_lower: "0 < n \<Longrightarrow> 10 ^ length (dec_digits n) \<le> 10 * n"
proof (induction n rule: less_induct)
  case (less n)
  show ?case
  proof (cases "n < 10")
    case False
    then have "10 ^ length (dec_digits (n div 10)) \<le> 10 * (n div 10)" using less.IH by simp
    also have "\<dots> \<le> n" by simp
    finally show ?thesis using False by (simp add: dec_digits_large)
  qed (use less.prems in \<open>simp add: dec_digits_small\<close>)
qed

lemma ten_to_pos [simp]: "0 < ten_to e"
  by (simp add: ten_to_def)

lemma ten_to_add: "ten_to (a + b) = ten_to a * ten_to b"
proof -
  have "ten_to e = 10 powi e" for e by (simp add: ten_to_def power_int_def power_one_over inverse_eq_divide)
  then show ?thesis by (simp add: power_int_add)
qed

lemma dec_exponent_bounds:
  assumes "0 < q" shows "ten_to (dec_exponent q) \<le> q" "q < ten_to (dec_exponent q + 1)"
proof -
  have "ten_to (dec_exponent q) \<le> q \<and> q < ten_to (dec_exponent q + 1)"
  proof (cases "1 \<le> q")
    case True
    define n where "n = nat \<lfloor>q\<rfloor>"
    let ?k = "length (dec_digits n)"
    have n: "0 < n" "of_nat n \<le> q" "q < of_nat n + 1" using True by (simp_all add: n_def floor_correct) linarith
    have "?k \<noteq> 0" by simp
    then have t: "ten_to (dec_exponent q) * 10 = 10 ^ ?k" "ten_to (dec_exponent q + 1) = 10 ^ ?k"
      using True ten_to_add [of "dec_exponent q" 1] by (simp_all add: dec_exponent_def ten_to_def n_def)
    have "rat_of_nat (10 ^ ?k) \<le> of_nat (10 * n)" "rat_of_nat (n + 1) \<le> of_nat (10 ^ ?k)"
      using dec_digits_lower [OF n(1)] dec_digits_upper [of n] by (simp_all only: of_nat_le_iff Suc_leI Suc_eq_plus1 [symmetric])
    then show ?thesis using n t by simp
  next
    case False
    let ?n = "nat (\<lceil>1 / q\<rceil> - 1)" and ?k = "length (dec_digits (nat (\<lceil>1 / q\<rceil> - 1)))"
    have inv: "1 < 1 / q" using False assms by simp
    then have n: "0 < ?n" "of_nat ?n < 1 / q" "1 / q \<le> of_nat ?n + 1"
      by (simp_all add: less_ceiling_iff) linarith+
    have t: "ten_to (dec_exponent q) = 1 / 10 ^ ?k" "ten_to (dec_exponent q + 1) = 10 / 10 ^ ?k"
      using False ten_to_add [of "dec_exponent q" 1] by (simp_all add: dec_exponent_def ten_to_def)
    have "rat_of_nat (10 ^ ?k) \<le> of_nat (10 * ?n)" "rat_of_nat (?n + 1) \<le> of_nat (10 ^ ?k)"
      using dec_digits_lower [OF n(1)] dec_digits_upper [of ?n] by (simp_all only: of_nat_le_iff Suc_leI Suc_eq_plus1 [symmetric])
    then have "1 / q \<le> 10 ^ ?k" "10 ^ ?k < 10 * (1 / q)" using n by simp_all
    then show ?thesis unfolding t using assms by (simp add: field_simps)
  qed
  then show "ten_to (dec_exponent q) \<le> q" "q < ten_to (dec_exponent q + 1)" by blast+
qed

text \<open>Nine significant digits, correctly rounded.\<close>

lemma sig9_exact:
  assumes "0 < q" "sig9 q = (m, e)"
  shows "100000000 \<le> m" "m < 1000000000" "\<bar>of_nat m * ten_to (e - 8) - q\<bar> \<le> ten_to (e - 8) / 2"
proof -
  define x where "x = dec_exponent q"
  define y where "y = q * ten_to (8 - x)"
  have unit: "ten_to (8 - x) * ten_to (x - 8) = 1" using ten_to_add [of "8 - x" "x - 8"] by (simp add: ten_to_def)
  have "ten_to x * ten_to (8 - x) = 100000000" "ten_to (x + 1) * ten_to (8 - x) = 1000000000"
    using ten_to_add [of x "8 - x"] ten_to_add [of "x + 1" "8 - x"] by (simp_all add: ten_to_def)
  then have "100000000 \<le> y" "y < 1000000000"
    using dec_exponent_bounds [OF assms(1)] mult_right_mono [of "ten_to x" q "ten_to (8 - x)"]
      mult_strict_right_mono [of q "ten_to (x + 1)" "ten_to (8 - x)"] by (simp_all add: x_def y_def less_imp_le)
  then have r: "100000000 \<le> rhe y" "rhe y \<le> 1000000000" using rhe_ge [of 100000000 y] rhe_le [of y 1000000000] by simp_all
  have "of_int (rhe y) * ten_to (x - 8) - q = (of_int (rhe y) - y) * ten_to (x - 8)"
    by (simp add: y_def left_diff_distrib mult.assoc unit)
  then have "\<bar>of_int (rhe y) * ten_to (x - 8) - q\<bar> = \<bar>of_int (rhe y) - y\<bar> * ten_to (x - 8)"
    by (simp only: abs_mult abs_of_pos [OF ten_to_pos])
  also have "\<dots> \<le> 1 / 2 * ten_to (x - 8)" by (rule mult_right_mono [OF rhe_error]) (simp add: less_imp_le)
  finally have err: "\<bar>of_int (rhe y) * ten_to (x - 8) - q\<bar> \<le> ten_to (x - 8) / 2" by simp
  have s: "sig9 q = (if nat (rhe y) = 1000000000 then (100000000, x + 1) else (nat (rhe y), x))"
    by (simp add: sig9_def Let_def x_def y_def)
  have "100000000 \<le> m \<and> m < 1000000000 \<and> \<bar>of_nat m * ten_to (e - 8) - q\<bar> \<le> ten_to (e - 8) / 2"
  proof (cases "rhe y = 1000000000")
    case True
    have "ten_to (x + 1 - 8) = ten_to (x - 8) * 10" using ten_to_add [of "x - 8" 1] by (simp add: ten_to_def algebra_simps)
    moreover have "\<bar>of_int (rhe y) * ten_to (x - 8) - q\<bar> \<le> 5 * ten_to (x - 8)" using err ten_to_pos [of "x - 8"] by linarith
    ultimately show ?thesis using True s assms(2) by simp
  next
    case False
    then have "nat (rhe y) \<noteq> 1000000000" using r(1) by simp
    then have "m = nat (rhe y)" "e = x" using s assms(2) by simp_all
    moreover have "100000000 \<le> nat (rhe y)" "nat (rhe y) < 1000000000" using r False by linarith+
    ultimately show ?thesis using err r(1) by simp
  qed
  then show "100000000 \<le> m" "m < 1000000000" "\<bar>of_nat m * ten_to (e - 8) - q\<bar> \<le> ten_to (e - 8) / 2" by blast+
qed

text \<open>The buffer of 40 characters is never cut: the exponent of a double has at most three digits.\<close>

lemma with_point_length: "length (with_point a b) \<le> length a + length b + 1"
  using length_dropWhile_le [of "\<lambda>c. c = CHR ''0''" "rev b"] by (simp add: with_point_def Let_def)

lemma dec_digits_length: "m < 10 ^ Suc k \<Longrightarrow> length (dec_digits m) \<le> Suc k"
proof (induction k arbitrary: m)
  case (Suc k)
  then show ?case using Suc.IH [of "m div 10"] by (cases "m < 10") (simp_all add: dec_digits_small dec_digits_large)
qed (simp add: dec_digits_small)

lemma format_g_fits:
  assumes "q \<noteq> 0" "\<bar>snd (sig9 \<bar>q\<bar>)\<bar> < 1000" shows "take 39 (format_g (Fin q)) = format_g (Fin q)"
proof -
  obtain m e where s: "sig9 \<bar>q\<bar> = (m, e)" by (cases "sig9 \<bar>q\<bar>")
  then have "m < 1000000000" using assms(1) sig9_exact(2) [of "\<bar>q\<bar>" m e] by simp
  then have ds: "length (dec_digits m) \<le> 9" using dec_digits_length [of m 8] by simp
  have ex: "length (dec_digits (nat \<bar>e\<bar>)) \<le> 3" using dec_digits_length [of "nat \<bar>e\<bar>" 2] assms(2) s by simp
  let ?ds = "dec_digits m"
  have p: "length (with_point (take k ?ds) (drop k ?ds)) \<le> 10" for k
    using ds with_point_length [of "take k ?ds" "drop k ?ds"] by simp
  have "length (with_point ''0'' (replicate (nat (- e) - 1) (CHR ''0'') @ ?ds)) \<le> 14" if "- 4 \<le> e"
    using that ds with_point_length [of "''0''" "replicate (nat (- e) - 1) (CHR ''0'') @ ?ds"] by simp
  then have "length (format_g (Fin q)) \<le> 39" using ex assms(1) p [of 1] p [of "nat e + 1"]
    by (cases "e < 0") (auto simp: format_g_def s Let_def)
  then show ?thesis by simp
qed

end
