(* ===== verification/Freshness.thy ===== *)
theory Freshness
  imports Units
begin

text \<open>
  The freshness classifier of \<^verbatim>\<open>freshness.hpp\<close>. Its functions are \<^verbatim>\<open>noexcept\<close>: an age the duration type
  cannot hold ends the program.
\<close>

datatype freshness_state = CURRENT | AGING | STALE | FS_EXPIRED

fun freshness_to_string :: "freshness_state \<Rightarrow> string" where
  "freshness_to_string CURRENT = ''CURRENT''"
| "freshness_to_string AGING = ''AGING''"
| "freshness_to_string STALE = ''STALE''"
| "freshness_to_string FS_EXPIRED = ''EXPIRED''"

record freshness_thresholds =
  fresh :: duration
  stale :: duration
  expired :: duration

text \<open>The member initialisers: 250 ms, 1 s and 10 s.\<close>

definition default_freshness :: freshness_thresholds where
  "default_freshness = \<lparr>fresh = 250000000, stale = 1000000000, expired = 10000000000\<rparr>"

definition age_of :: "timestamp \<Rightarrow> timestamp \<Rightarrow> duration res" where
  "age_of now observed = noexcept (if ts_is_zero observed then Inr 0 else elapsed_since now observed)"

definition age_from_duration :: "freshness_thresholds \<Rightarrow> duration \<Rightarrow> freshness_state" where
  "age_from_duration t age =
     (if age < fresh t then CURRENT
      else if age < stale t then AGING
      else if age < expired t then STALE
      else FS_EXPIRED)"

definition classify :: "freshness_thresholds \<Rightarrow> timestamp \<Rightarrow> timestamp \<Rightarrow> freshness_state res" where
  "classify t now observed = noexcept (rbind (age_of now observed) (\<lambda>age.
     if age = 0 \<and> ts_is_zero observed then Inr FS_EXPIRED
     else Inr (age_from_duration t age)))"

section \<open>Freshness only decays\<close>

fun staleness :: "freshness_state \<Rightarrow> nat" where
  "staleness CURRENT = 0"
| "staleness AGING = 1"
| "staleness STALE = 2"
| "staleness FS_EXPIRED = 3"

lemma age_from_duration_mono:
  "a \<le> b \<Longrightarrow> staleness (age_from_duration t a) \<le> staleness (age_from_duration t b)"
  by (auto simp: age_from_duration_def)

lemma classify_ok:
  assumes "ts_ok now" "ts_ok observed"
  shows "classify t now observed = Inr (if observed = 0 then FS_EXPIRED
    else age_from_duration t (max 0 (now - observed)))"
  using assms by (simp add: classify_def age_of_def ts_is_zero_def)

text \<open>Freshness only decays: for one observation, a later reading of the clock never classifies it
  as fresher, and whatever the clock says an observation that was never made is \<^verbatim>\<open>EXPIRED\<close>.\<close>

theorem freshness_decays:
  assumes "ts_ok now" "ts_ok now'" "ts_ok observed" "now \<le> now'"
  shows "\<exists>f f'. classify t now observed = Inr f \<and> classify t now' observed = Inr f' \<and>
    staleness f \<le> staleness f' \<and> (observed = 0 \<longrightarrow> f = FS_EXPIRED)"
  using assms by (simp add: classify_ok age_from_duration_mono)

theorem freshness_decays_witness:
  "\<exists>f f'. classify default_freshness 1000000000 900000000 = Inr f \<and>
    classify default_freshness 2000000000 900000000 = Inr f' \<and> staleness f \<le> staleness f'"
  using freshness_decays [of 1000000000 2000000000 900000000 default_freshness]
  by (auto simp: ts_ok_def kMaxNs_def)

end
