(* ===== verification/Decision.thy ===== *)
theory Decision
  imports Util Freshness Energy
begin

text \<open>
  The decision engine of \<^verbatim>\<open>decision_engine.hpp\<close>. Its state is the last verdict with its time and the
  generation; the static allocator of \<^verbatim>\<open>DecisionId\<close> is a counter.
\<close>

section \<open>Data\<close>

datatype decision_verdict =
    ALLOW | ALLOW_WITH_LIMIT | THROTTLE | DEFER | DRAIN_RECOMMENDED | REVALIDATION_REQUIRED | REJECT
  | DV_UNKNOWN

fun decision_to_string :: "decision_verdict \<Rightarrow> string" where
  "decision_to_string ALLOW = ''ALLOW''"
| "decision_to_string ALLOW_WITH_LIMIT = ''ALLOW_WITH_LIMIT''"
| "decision_to_string THROTTLE = ''THROTTLE''"
| "decision_to_string DEFER = ''DEFER''"
| "decision_to_string DRAIN_RECOMMENDED = ''DRAIN_RECOMMENDED''"
| "decision_to_string REVALIDATION_REQUIRED = ''REVALIDATION_REQUIRED''"
| "decision_to_string REJECT = ''REJECT''"
| "decision_to_string DV_UNKNOWN = ''UNKNOWN''"

definition verdict_from_string :: "string \<Rightarrow> decision_verdict res" where
  "verdict_from_string s =
    (if s = ''ALLOW'' then Inr ALLOW
     else if s = ''ALLOW_WITH_LIMIT'' then Inr ALLOW_WITH_LIMIT
     else if s = ''THROTTLE'' then Inr THROTTLE
     else if s = ''DEFER'' then Inr DEFER
     else if s = ''DRAIN_RECOMMENDED'' then Inr DRAIN_RECOMMENDED
     else if s = ''REVALIDATION_REQUIRED'' then Inr REVALIDATION_REQUIRED
     else if s = ''REJECT'' then Inr REJECT
     else if s = ''UNKNOWN'' then Inr DV_UNKNOWN
     else Inl InvalidArgument)"

record decision_input =
  di_current_power :: watts
  di_power_known :: bool
  di_average_power :: watts
  di_average_known :: bool
  di_energy_window_used :: joules
  di_energy_known :: bool
  di_requested_power :: watts
  di_requested_energy :: joules
  di_requested_duration_s :: double
  di_hardware_cap :: "watts option"
  di_budget_available :: "watts option"
  di_soft_target :: "watts option"
  di_thermal_ceiling :: "watts option"
  di_thermal_state :: thermal_state
  di_thermal_known :: bool
  di_utilization :: utilization
  di_utilization_known :: bool
  di_power_class :: workload_power_class
  di_rule :: workload_class_rule
  di_policy :: power_policy
  di_policy_current :: bool
  di_power_freshness :: freshness_state
  di_evidence :: energy_provenance
  di_hardware_throttled :: bool
  di_in_thermal_recovery :: bool
  di_burst_available :: bool
  di_burst_utilization :: double
  di_requested_perf :: performance_state
  di_budget_applied :: "budget_id option"
  di_parent_budgets :: "budget_id list"
  di_active_reservations :: nat

record decision_explanation =
  ex_budget_applied :: "budget_id option"
  ex_parent_budgets :: "budget_id list"
  ex_active_reservations :: nat
  ex_thermal_state :: thermal_state
  ex_power_class :: workload_power_class
  ex_burst_available :: bool
  ex_burst_utilization :: double
  binding_limit :: "watts option"
  binding_kind :: string
  telemetry_freshness :: freshness_state
  telemetry_current :: bool
  ex_evidence :: energy_provenance
  ex_hardware_throttled :: bool
  why :: string
  what_would_change :: string

record decision =
  dec_id :: decision_id
  dec_generation :: decision_generation
  dec_now :: timestamp
  dec_verdict :: decision_verdict
  reasons :: "string list"
  effective_state :: performance_state
  recommended_limit :: "watts option"
  explanation :: decision_explanation
  dec_json :: string
  dec_digest :: string

record decision_engine =
  last :: "(decision_verdict \<times> timestamp) option"
  eng_gen :: decision_generation

definition new_engine :: "decision_generation \<Rightarrow> decision_engine" where
  "new_engine g = \<lparr>last = None, eng_gen = g\<rparr>"

definition reset_hysteresis :: "decision_engine \<Rightarrow> decision_engine" where
  "reset_hysteresis e = e\<lparr>last := None\<rparr>"

definition last_verdict :: "decision_engine \<Rightarrow> decision_verdict option" where
  "last_verdict e = map_option fst (last e)"

section \<open>Judging an input\<close>

type_synonym judgement = "decision_verdict \<times> string list \<times> watts option \<times> string"

definition consider_cap :: "watts option \<Rightarrow> string \<Rightarrow> watts option \<times> string \<Rightarrow> watts option \<times> string" where
  "consider_cap cap kind = (\<lambda>(limit, bk). case cap of
     None \<Rightarrow> (limit, bk)
   | Some c \<Rightarrow>
       if is_non_negative c \<and> (case limit of None \<Rightarrow> True | Some l \<Rightarrow> c < l) then (Some c, kind)
       else (limit, bk))"

definition hard_limit :: "decision_input \<Rightarrow> watts option \<times> string" where
  "hard_limit inp = consider_cap (di_thermal_ceiling inp) ''thermal''
     (consider_cap (di_budget_available inp) ''budget''
       (consider_cap (di_hardware_cap inp) ''device_hard_cap'' (None, '''')))"

definition ceiling_of :: "watts option \<Rightarrow> double" where
  "ceiling_of limit = (case limit of None \<Rightarrow> PInf | Some l \<Rightarrow> l)"

text \<open>Steps 1 to 7: the returns before the default allow.\<close>

definition early_verdict :: "decision_input \<Rightarrow> judgement option" where
  "early_verdict inp =
     (let is_stale = (di_power_freshness inp = STALE \<or> di_power_freshness inp = FS_EXPIRED)
      in if \<not> di_policy_current inp \<or> is_stale then
           Some (REVALIDATION_REQUIRED,
             [''telemetry is not current (freshness='' @ freshness_to_string (di_power_freshness inp) @ '')'']
               @ (if \<not> di_policy_current inp then [''policy generation is not current''] else []),
             None, ''freshness'')
         else
      let constrained = (di_thermal_known inp \<and> di_thermal_state inp = THERMALLY_CONSTRAINED);
          recovering = (di_thermal_known inp \<and> di_thermal_state inp = RECOVERING);
          (limit, bk) = hard_limit inp;
          requested = di_requested_power inp;
          ceil = ceiling_of limit
      in if ceil < requested \<and> ceil \<le> eps9 then
           (if constrained
            then Some (DEFER, [''no available power capacity'', ''device is thermally constrained''], limit, bk)
            else Some (REJECT, [''no available power capacity''], limit, bk))
         else if ceil + eps9 < requested then
           (let r = ''requested power '' @ format_f requested @ ''W'' @ '' exceeds available ceiling ''
                      @ format_f ceil @ ''W''
            in if rule_priority (di_rule inp) < 40 \<and> constrained
               then Some (THROTTLE, [r, ''low-priority class under thermal constraint''], limit, bk)
               else if constrained then Some (THROTTLE, [r, ''device thermally constrained''], limit, bk)
               else if recovering
               then Some (ALLOW_WITH_LIMIT,
                 [r, ''thermal recovery in progress; limited to thermal ceiling''], limit, bk)
               else Some (ALLOW_WITH_LIMIT, [r, ''hard ceiling constrains execution''], limit, bk))
         else if constrained then Some (THROTTLE, [''device thermally constrained''], limit, bk)
         else if recovering
         then Some (ALLOW_WITH_LIMIT, [''thermal recovery in progress; limited to ceiling''], limit, bk)
         else if (case di_soft_target inp of None \<Rightarrow> False | Some s \<Rightarrow> s < requested) then
           (if di_burst_available inp \<and> requested \<le> ceil
            then Some (ALLOW, [''burst budget covers temporary over-soft-target demand''], limit, bk)
            else Some (ALLOW_WITH_LIMIT,
              [''requested power exceeds soft target; limited (no burst capacity)''],
              di_soft_target inp, ''soft_target''))
         else if ew_enforce (energy_window (di_policy inp)) \<and> is_positive (ew_budget (energy_window (di_policy inp))) \<and>
                 (ew_budget (energy_window (di_policy inp)) - di_energy_window_used inp) + eps9
                   < di_requested_energy inp
         then Some (THROTTLE, [''energy window would be exceeded''], limit, bk)
         else None)"

text \<open>Steps 8 and 9: the default allow and the hysteresis.\<close>

definition default_verdict :: "decision_input \<Rightarrow> timestamp \<Rightarrow> decision_engine \<Rightarrow> judgement res" where
  "default_verdict inp now e =
     (let (limit, bk) = hard_limit inp;
          rs = (if di_thermal_known inp \<and> di_thermal_state inp = HOT
                then [''hot but within hard ceiling; monitoring closely''] else [])
             @ (if di_hardware_throttled inp then [''hardware is already throttled''] else [])
      in case last e of
           None \<Rightarrow> Inr (ALLOW, rs, limit, bk)
         | Some (v, t0) \<Rightarrow>
             if v = ALLOW then Inr (ALLOW, rs, limit, bk)
             else rbind (elapsed_since now t0) (\<lambda>dt.
               if dt < min_stable_duration (di_policy inp) then
                 (let rs' = rs @ [''hysteresis holding previous restrictive verdict for ''
                                    @ format_f (seconds_f dt) @ ''s'']
                  in if v = ALLOW_WITH_LIMIT \<and> limit = None
                     then Inr (v, rs', di_soft_target inp, ''soft_target'')
                     else Inr (v, rs', limit, bk))
               else Inr (ALLOW, rs, limit, bk)))"

definition judge :: "decision_input \<Rightarrow> timestamp \<Rightarrow> decision_engine \<Rightarrow> judgement res" where
  "judge inp now e = (case early_verdict inp of Some j \<Rightarrow> Inr j | None \<Rightarrow> default_verdict inp now e)"

section \<open>The decision document\<close>

fun join_reasons :: "string list \<Rightarrow> string \<Rightarrow> string" where
  "join_reasons [] acc = acc"
| "join_reasons (r # rs) acc = join_reasons rs ((if acc \<noteq> [] then acc @ ''; '' else acc) @ r)"

definition fill_explanation ::
  "decision_input \<Rightarrow> decision_explanation \<Rightarrow> string list \<Rightarrow> decision_explanation" where
  "fill_explanation inp ex rs =
     (let current = (di_policy_current inp \<and> di_power_freshness inp = CURRENT);
          w = join_reasons rs [];
          change = (if \<not> current then ''refresh telemetry to CURRENT and re-evaluate''
            else if binding_kind ex = [] then ''no binding constraint; a more restrictive policy/budget would throttle''
            else if binding_kind ex = ''device_hard_cap''
            then ''raise the hardware power limit (within vendor support) to allow more''
            else if binding_kind ex = ''budget'' then ''increase budget capacity or release reservations to allow more''
            else if binding_kind ex = ''thermal'' then ''reduce temperature and allow thermal recovery to raise the ceiling''
            else if binding_kind ex = ''soft_target'' then ''raise the soft target or grant burst capacity to allow more''
            else if binding_kind ex = ''freshness'' then ''ingest fresh telemetry and re-evaluate''
            else ''relieve the binding constraint to allow more'')
      in ex\<lparr>ex_budget_applied := di_budget_applied inp, ex_parent_budgets := di_parent_budgets inp,
            ex_active_reservations := di_active_reservations inp, ex_thermal_state := di_thermal_state inp,
            ex_power_class := di_power_class inp, ex_burst_available := di_burst_available inp,
            ex_burst_utilization := di_burst_utilization inp, telemetry_freshness := di_power_freshness inp,
            telemetry_current := current, ex_evidence := di_evidence inp,
            ex_hardware_throttled := di_hardware_throttled inp,
            why := (if w = [] then ''no binding constraint'' else w), what_would_change := change\<rparr>)"

definition quoted :: "string \<Rightarrow> string" where
  "quoted s = [quote] @ s @ [quote]"

definition json_bool :: "bool \<Rightarrow> string" where
  "json_bool b = (if b then ''true'' else ''false'')"

definition json_fields :: "decision \<Rightarrow> (string \<times> string) list" where
  "json_fields d = (let ex = explanation d in
     [(''id'', quoted (dec_digits (unat (raw (dec_id d))))),
      (''generation'', dec_digits (unat (gen_raw (dec_generation d)))),
      (''verdict'', quoted (decision_to_string (dec_verdict d))),
      (''effective_state'', quoted (perf_to_string (effective_state d))),
      (''recommended_limit_w'', case recommended_limit d of Some l \<Rightarrow> format_f l | None \<Rightarrow> ''null''),
      (''binding_kind'', quoted (binding_kind ex)),
      (''telemetry_current'', json_bool (telemetry_current ex)),
      (''telemetry_freshness'', quoted (freshness_to_string (telemetry_freshness ex))),
      (''thermal_state'', quoted (thermal_to_string (ex_thermal_state ex))),
      (''power_class'', quoted (class_to_string (ex_power_class ex))),
      (''burst_available'', json_bool (ex_burst_available ex)),
      (''evidence'', quoted (provenance_to_string (ex_evidence ex))),
      (''why'', quoted (json_escape (why ex))),
      (''what_would_change'', quoted (json_escape (what_would_change ex)))])"

definition put_field :: "string \<times> string \<Rightarrow> json_writer \<Rightarrow> json_writer" where
  "put_field = (\<lambda>(k, v) w. raw_value v (raw_key k w))"

definition build_json :: "decision \<Rightarrow> string" where
  "build_json d = (let w1 = fold put_field (json_fields d) (begin_object new_json);
       w2 = begin_array (raw_key ''reasons'' w1);
       w3 = fold (\<lambda>r. j_value (JStr r)) (reasons d) w2
     in jbuf (end_object (end_array w3)))"

fun effective_for :: "decision_verdict \<Rightarrow> performance_state \<Rightarrow> performance_state" where
  "effective_for ALLOW p = p"
| "effective_for ALLOW_WITH_LIMIT p = BALANCED"
| "effective_for DV_UNKNOWN p = BALANCED"
| "effective_for _ p = THROTTLED"

definition empty_explanation :: decision_explanation where
  "empty_explanation = \<lparr>ex_budget_applied = None, ex_parent_budgets = [], ex_active_reservations = 0,
     ex_thermal_state = TS_UNKNOWN, ex_power_class = THROUGHPUT, ex_burst_available = False,
     ex_burst_utilization = Fin 0, binding_limit = None, binding_kind = [], telemetry_freshness = FS_EXPIRED,
     telemetry_current = False, ex_evidence = EP_UNKNOWN, ex_hardware_throttled = False, why = [],
     what_would_change = []\<rparr>"

definition make_verdict ::
  "decision_input \<Rightarrow> timestamp \<Rightarrow> judgement \<Rightarrow> decision_engine \<Rightarrow> u64 \<Rightarrow> decision \<times> decision_engine \<times> u64" where
  "make_verdict inp now j e ctr = (case j of (v, rs, limit, bk) \<Rightarrow>
     let (did, ctr') = allocate ctr;
         ex = fill_explanation inp (empty_explanation\<lparr>binding_limit := limit, binding_kind := bk\<rparr>) rs;
         d = \<lparr>dec_id = did, dec_generation = gen_next (eng_gen e), dec_now = now, dec_verdict = v,
              reasons = rs, effective_state = effective_for v (di_requested_perf inp),
              recommended_limit = limit, explanation = ex, dec_json = [], dec_digest = []\<rparr>;
         json = build_json d
     in (d\<lparr>dec_json := json, dec_digest := digest_hex json\<rparr>, e\<lparr>last := Some (v, now)\<rparr>, ctr'))"

definition evaluate ::
  "decision_input \<Rightarrow> timestamp \<Rightarrow> decision_engine \<Rightarrow> u64 \<Rightarrow> (decision \<times> decision_engine \<times> u64) res" where
  "evaluate inp now e ctr = rbind (judge inp now e) (\<lambda>j. Inr (make_verdict inp now j e ctr))"

section \<open>The hard limit\<close>

definition caps :: "decision_input \<Rightarrow> watts list" where
  "caps inp = concat (map (\<lambda>c. case c of None \<Rightarrow> [] | Some w \<Rightarrow> [w])
     [di_hardware_cap inp, di_budget_available inp, di_thermal_ceiling inp])"

definition input_ok :: "decision_input \<Rightarrow> bool" where
  "input_ok inp \<longleftrightarrow> (\<forall>c \<in> set (caps inp). quantity_ok c) \<and> quantity_ok (di_requested_power inp)"

lemma double_not_less: "quantity_ok x \<Longrightarrow> quantity_ok y \<Longrightarrow> \<not> x < y \<longleftrightarrow> y \<le> x"
  by (auto elim!: quantity_okE)

lemma hard_limit_min:
  assumes "\<forall>c \<in> set (caps inp). quantity_ok c"
  shows "case fst (hard_limit inp) of None \<Rightarrow> caps inp = []
    | Some l \<Rightarrow> l \<in> set (caps inp) \<and> (\<forall>c \<in> set (caps inp). l \<le> c)"
  using assms unfolding caps_def
  by (cases "di_hardware_cap inp"; cases "di_budget_available inp"; cases "di_thermal_ceiling inp")
    (auto simp: hard_limit_def consider_cap_def is_non_negative_def elim!: quantity_okE)

lemma limit_covers:
  assumes "\<forall>c \<in> set (caps inp). quantity_ok c" "c \<in> set (caps inp)"
  obtains l where "fst (hard_limit inp) = Some l" "ceiling_of (fst (hard_limit inp)) = l" "quantity_ok l" "l \<le> c"
  using hard_limit_min [OF assms(1)] assms by (cases "fst (hard_limit inp)") (auto simp: ceiling_of_def)

lemma add_eps_mono: "quantity_ok x \<Longrightarrow> quantity_ok y \<Longrightarrow> x \<le> y \<Longrightarrow> x + eps9 \<le> y + eps9"
  by (auto simp: eps9_Fin rnd64_mono elim!: quantity_okE)

lemma le_add_eps: "quantity_ok x \<Longrightarrow> x \<le> x + eps9"
  using eps9_bounds by (auto simp: eps9_Fin elim!: quantity_okE intro!: b64.rnd_add_ge)

lemma not_over_cap:
  assumes "input_ok inp" "c \<in> set (caps inp)" "\<not> ceiling_of (fst (hard_limit inp)) + eps9 < di_requested_power inp"
  shows "\<not> c + eps9 < di_requested_power inp"
proof -
  have ok: "\<forall>c \<in> set (caps inp). quantity_ok c" using assms(1) by (simp add: input_ok_def)
  obtain l where l: "ceiling_of (fst (hard_limit inp)) = l" "quantity_ok l" "l \<le> c"
    by (rule limit_covers [OF ok assms(2)])
  have "l + eps9 \<le> c + eps9" using add_eps_mono l ok assms(2) by blast
  then show ?thesis using assms(3) l(1) double_le_less_trans by metis
qed

section \<open>What a verdict implies\<close>

lemma early_None:
  assumes "early_verdict inp = None"
  shows "di_policy_current inp" "di_power_freshness inp \<noteq> STALE" "di_power_freshness inp \<noteq> FS_EXPIRED"
    "\<not> (di_thermal_known inp \<and> (di_thermal_state inp = THERMALLY_CONSTRAINED \<or> di_thermal_state inp = RECOVERING))"
    "\<not> ceiling_of (fst (hard_limit inp)) + eps9 < di_requested_power inp"
  using assms
  by (auto simp: early_verdict_def Let_def split: if_splits prod.splits option.splits)

lemma early_ALLOW:
  assumes "early_verdict inp = Some (ALLOW, rs, l, bk)"
  shows "di_policy_current inp" "di_power_freshness inp \<noteq> STALE" "di_power_freshness inp \<noteq> FS_EXPIRED"
    "\<not> (di_thermal_known inp \<and> (di_thermal_state inp = THERMALLY_CONSTRAINED \<or> di_thermal_state inp = RECOVERING))"
    "\<not> ceiling_of (fst (hard_limit inp)) + eps9 < di_requested_power inp" "di_burst_available inp"
    "l = fst (hard_limit inp)"
  using assms
  by (auto simp: early_verdict_def Let_def split: if_splits prod.splits option.splits)

lemma early_limit:
  assumes "early_verdict inp = Some (v, rs, Some l, bk)"
  shows "fst (hard_limit inp) = Some l \<or> (di_soft_target inp = Some l \<and> l < di_requested_power inp \<and>
    \<not> ceiling_of (fst (hard_limit inp)) + eps9 < di_requested_power inp)"
  using assms
  by (auto simp: early_verdict_def Let_def split: if_splits prod.splits option.splits)

lemma default_ALLOW_or_held:
  assumes "default_verdict inp now e = Inr (v, rs, l, bk)"
  shows "v = ALLOW \<or> (\<exists>t. last e = Some (v, t))" "v = ALLOW \<longrightarrow> l = fst (hard_limit inp)"
    "l = fst (hard_limit inp) \<or> fst (hard_limit inp) = None"
  using assms by (auto simp: default_verdict_def Let_def split: option.splits prod.splits if_splits)

lemma evaluate_judge:
  assumes "evaluate inp now e ctr = Inr (d, e', ctr')"
  obtains v rs l bk where "judge inp now e = Inr (v, rs, l, bk)" "dec_verdict d = v" "recommended_limit d = l"
    "reasons d = rs" "binding_kind (explanation d) = bk" "e' = e\<lparr>last := Some (v, now)\<rparr>" "dec_id d = StrongId ctr"
    "dec_generation d = gen_next (eng_gen e)" "dec_json d = build_json (d\<lparr>dec_json := [], dec_digest := []\<rparr>)"
    "dec_digest d = digest_hex (dec_json d)" "ctr' = ctr + 1"
  using assms by (fastforce simp: evaluate_def make_verdict_def allocate_def Let_def fill_explanation_def split: prod.splits)

section \<open>Sequences of evaluations\<close>

fun evaluate_all ::
  "(decision_input \<times> timestamp) list \<Rightarrow> decision_engine \<Rightarrow> u64 \<Rightarrow> (decision list \<times> decision_engine \<times> u64) res"
where
  "evaluate_all [] e ctr = Inr ([], e, ctr)"
| "evaluate_all ((inp, now) # xs) e ctr = rbind (evaluate inp now e ctr) (\<lambda>(d, e, ctr).
     rbind (evaluate_all xs e ctr) (\<lambda>(ds, e, ctr). Inr (d # ds, e, ctr)))"

text \<open>Evaluations no further apart than the minimum stable duration, of inputs nothing restricts.\<close>

fun frequent_allows :: "timestamp \<Rightarrow> (decision_input \<times> timestamp) list \<Rightarrow> bool" where
  "frequent_allows t [] \<longleftrightarrow> True"
| "frequent_allows t ((inp, now) # xs) \<longleftrightarrow> ts_ok now \<and> early_verdict inp = None \<and>
     max 0 (now - t) < min_stable_duration (di_policy inp) \<and> frequent_allows now xs"

lemma evaluate_held:
  assumes "last e = Some (v, t)" "v \<noteq> ALLOW" "ts_ok t" "ts_ok now" "early_verdict inp = None"
    "max 0 (now - t) < min_stable_duration (di_policy inp)"
  obtains d where "evaluate inp now e ctr = Inr (d, e\<lparr>last := Some (v, now)\<rparr>, ctr + 1)" "dec_verdict d = v"
proof -
  obtain limit k where h: "hard_limit inp = (limit, k)" by (rule prod.exhaust)
  have "\<exists>rs l bk. judge inp now e = Inr (v, rs, l, bk)"
    using assms by (simp add: judge_def default_verdict_def Let_def h)
  then obtain rs l bk where j: "judge inp now e = Inr (v, rs, l, bk)" by blast
  then show thesis using that by (simp add: evaluate_def make_verdict_def allocate_def Let_def)
qed

lemma evaluate_all_held:
  "last e = Some (v, t) \<Longrightarrow> v \<noteq> ALLOW \<Longrightarrow> ts_ok t \<Longrightarrow> frequent_allows t xs \<Longrightarrow>
    \<exists>ds e' ctr'. evaluate_all xs e ctr = Inr (ds, e', ctr') \<and> map dec_verdict ds = replicate (length xs) v"
proof (induction xs arbitrary: e t ctr)
  case (Cons x xs)
  obtain inp now where x: "x = (inp, now)" by (cases x)
  from Cons.prems x have p: "ts_ok now" "early_verdict inp = None"
    "max 0 (now - t) < min_stable_duration (di_policy inp)" "frequent_allows now xs" by auto
  obtain d where d: "evaluate inp now e ctr = Inr (d, e\<lparr>last := Some (v, now)\<rparr>, ctr + 1)" "dec_verdict d = v"
    by (rule evaluate_held [OF Cons.prems(1-3) p(1-3)])
  from Cons.IH [of "e\<lparr>last := Some (v, now)\<rparr>" now "ctr + 1"] Cons.prems(2) p
  obtain ds e' ctr' where "evaluate_all xs (e\<lparr>last := Some (v, now)\<rparr>) (ctr + 1) = Inr (ds, e', ctr')"
    "map dec_verdict ds = replicate (length xs) v" by auto
  then show ?case by (simp add: x d)
qed simp

section \<open>The document\<close>

lemma jbuf_put [simp]: "jbuf (j_put s w) = jbuf w @ s" "jfirst (j_put s w) = jfirst w"
  "value_pending (j_put s w) = value_pending w"
  by (simp_all add: j_put_def)

lemma jbuf_comma: "jbuf (j_comma w) = jbuf w @ (if jfirst w then [] else '','')"
  by (simp add: j_comma_def)

lemma append_value_prefix: "\<exists>s. jbuf (append_value v w) = jbuf w @ s"
  by (cases v) (simp_all add: append_value_def append_string_def)

lemma j_value_prefix: "\<exists>s. jbuf (j_value v w) = jbuf w @ s"
  using append_value_prefix [of v "j_comma w"] by (auto simp: j_value_def jbuf_comma)

lemma put_field_jbuf: "jbuf (put_field (k, v) w) =
    jbuf w @ (if jfirst w then [] else '','') @ quoted (json_escape k) @ '':'' @ v"
  by (simp add: put_field_def raw_value_def raw_key_def append_string_def jbuf_comma quoted_def)

lemma fold_prefix:
  assumes "\<And>x w. \<exists>s. jbuf (f x w) = jbuf w @ s" shows "\<exists>s. jbuf (fold f xs w) = jbuf w @ s"
proof (induction xs arbitrary: w)
  case (Cons x xs)
  then show ?case using assms [of x w] by (metis append_assoc fold_simps(2))
qed simp

lemma build_json_prefix:
  "\<exists>s. build_json d = ''{'' @ quoted ''id'' @ '':'' @ quoted (dec_digits (unat (raw (dec_id d)))) @ s"
proof -
  let ?w0 = "begin_object new_json"
  let ?w1 = "put_field (''id'', quoted (dec_digits (unat (raw (dec_id d))))) ?w0"
  have fields: "json_fields d = (''id'', quoted (dec_digits (unat (raw (dec_id d))))) # tl (json_fields d)"
    by (simp add: json_fields_def Let_def)
  have "jbuf ?w1 = ''{'' @ quoted ''id'' @ '':'' @ quoted (dec_digits (unat (raw (dec_id d))))"
    by (simp add: put_field_jbuf begin_object_def j_open_def new_json_def json_escape_def escape_char_def
        quote_def backslash_def Let_def)
  moreover have "\<exists>s. jbuf (put_field x w) = jbuf w @ s" for x w
    by (cases x) (simp add: put_field_jbuf)
  then obtain s1 where "jbuf (fold put_field (tl (json_fields d)) ?w1) = jbuf ?w1 @ s1"
    using fold_prefix by blast
  then have "jbuf (fold put_field (json_fields d) ?w0) = jbuf ?w1 @ s1" by (subst fields) simp
  moreover obtain s2 where "build_json d = jbuf (fold put_field (json_fields d) ?w0) @ s2"
  proof -
    let ?w2 = "begin_array (raw_key ''reasons'' (fold put_field (json_fields d) ?w0))"
    obtain s where "jbuf (fold (\<lambda>r. j_value (JStr r)) (reasons d) ?w2) = jbuf ?w2 @ s"
      using fold_prefix [of "\<lambda>r. j_value (JStr r)" "reasons d" ?w2] j_value_prefix by blast
    then show thesis using that
      by (simp add: build_json_def Let_def end_object_def end_array_def j_close_def begin_array_def j_open_def
          raw_key_def append_string_def jbuf_comma)
  qed
  ultimately show ?thesis by auto
qed

lemma json_differs:
  assumes "dec_id d \<noteq> dec_id d'" shows "build_json d \<noteq> build_json d'"
proof
  assume eq: "build_json d = build_json d'"
  let ?n = "unat (raw (dec_id d))" and ?m = "unat (raw (dec_id d'))"
  obtain s s' where "build_json d = ''{'' @ quoted ''id'' @ '':'' @ quoted (dec_digits ?n) @ s"
    "build_json d' = ''{'' @ quoted ''id'' @ '':'' @ quoted (dec_digits ?m) @ s'"
    using build_json_prefix by metis
  then have "dec_digits ?n @ quote # s = dec_digits ?m @ quote # s'" using eq by (simp add: quoted_def)
  then have "takeWhile (\<lambda>c. c \<noteq> quote) (dec_digits ?n @ quote # s) = takeWhile (\<lambda>c. c \<noteq> quote) (dec_digits ?m @ quote # s')"
    by simp
  moreover have "takeWhile (\<lambda>c. c \<noteq> quote) (dec_digits k @ quote # z) = dec_digits k" for k z
    using quote_not_digit [of k] by (subst takeWhile_append2) auto
  ultimately have "?n = ?m" using dec_digits_inj by simp
  then show False using assms by (metis strong_id.expand unsigned_word_eqI)
qed

lemma allow_implies:
  assumes "input_ok inp" "evaluate inp now e ctr = Inr (d, e', ctr')" "dec_verdict d = ALLOW"
  shows "di_policy_current inp \<and> di_power_freshness inp \<noteq> STALE \<and> di_power_freshness inp \<noteq> FS_EXPIRED \<and>
    \<not> (di_thermal_known inp \<and> (di_thermal_state inp = THERMALLY_CONSTRAINED \<or> di_thermal_state inp = RECOVERING)) \<and>
    (\<forall>c \<in> set (caps inp). \<not> c + eps9 < di_requested_power inp)"
proof -
  obtain rs l bk where j: "judge inp now e = Inr (ALLOW, rs, l, bk)"
    using evaluate_judge [OF assms(2)] assms(3) by metis
  show ?thesis
  proof (cases "early_verdict inp")
    case None
    then show ?thesis using early_None [OF None] not_over_cap [OF assms(1)] by blast
  next
    case (Some x)
    then have "early_verdict inp = Some (ALLOW, rs, l, bk)" using j by (simp add: judge_def)
    from early_ALLOW [OF this] not_over_cap [OF assms(1)] show ?thesis by blast
  qed
qed

section \<open>Properties\<close>

text \<open>C17: An ALLOW is safe. The engine allows a request only under a current policy and telemetry that
  is neither stale nor expired, on a device that is not known to be constrained or recovering, and only
  when the requested power exceeds none of the device, budget and thermal caps by more than the
  tolerance.\<close>

theorem allow_is_safe:
  assumes "input_ok inp" "evaluate inp now e ctr = Inr (d, e', ctr')" "dec_verdict d = ALLOW"
  shows "di_policy_current inp \<and> di_power_freshness inp \<noteq> STALE \<and> di_power_freshness inp \<noteq> FS_EXPIRED \<and>
    \<not> (di_thermal_known inp \<and> (di_thermal_state inp = THERMALLY_CONSTRAINED \<or> di_thermal_state inp = RECOVERING)) \<and>
    (\<forall>c \<in> set (caps inp). \<not> c + eps9 < di_requested_power inp)"
  using assms by (rule allow_implies)

definition demo_input :: "rat \<Rightarrow> rat \<Rightarrow> decision_input" where
  "demo_input req cap = \<lparr>di_current_power = Fin 0, di_power_known = True, di_average_power = Fin 0,
     di_average_known = False, di_energy_window_used = Fin 0, di_energy_known = False,
     di_requested_power = Fin req, di_requested_energy = Fin 0, di_requested_duration_s = Fin 0,
     di_hardware_cap = Some (Fin cap), di_budget_available = None, di_soft_target = None,
     di_thermal_ceiling = None, di_thermal_state = NORMAL, di_thermal_known = True, di_utilization = Fin 0,
     di_utilization_known = False, di_power_class = BATCH, di_rule = default_rule_for BATCH,
     di_policy = policy_defaults (StrongId 1) ''p'', di_policy_current = True, di_power_freshness = CURRENT,
     di_evidence = MEASURED, di_hardware_throttled = False, di_in_thermal_recovery = False,
     di_burst_available = False, di_burst_utilization = Fin 0, di_requested_perf = BALANCED,
     di_budget_applied = None, di_parent_budgets = [], di_active_reservations = 0\<rparr>"

lemma demo_early: assumes "0 \<le> req" "req \<le> cap" "grid64 cap" shows "early_verdict (demo_input req cap) = None"
proof -
  have lim: "hard_limit (demo_input req cap) = (Some (Fin cap), ''device_hard_cap'')"
    using assms by (simp add: hard_limit_def consider_cap_def demo_input_def is_non_negative_def)
  have le: "Fin cap \<le> rnd64 (cap + eps9_val)" using assms eps9_bounds by (intro b64.rnd_add_ge) auto
  have "\<not> Fin cap + eps9 < Fin req"
    using le assms(2) by (cases "rnd64 (cap + eps9_val)") (auto simp: eps9_Fin)
  then show ?thesis using assms
    by (simp add: early_verdict_def lim Let_def ceiling_of_def)
      (simp add: demo_input_def policy_defaults_def empty_policy_def default_energy_window_def)
qed

lemma demo_allow:
  assumes "last e = None"
  shows "\<exists>d e'. evaluate (demo_input 100 400) now e ctr = Inr (d, e', ctr + 1) \<and> dec_verdict d = ALLOW"
proof -
  have "early_verdict (demo_input 100 400) = None" using grid64_int [of 400] by (intro demo_early) auto
  then have "\<exists>rs l bk. judge (demo_input 100 400) now e = Inr (ALLOW, rs, l, bk)"
    using assms by (simp add: judge_def default_verdict_def Let_def split: prod.split)
  then show ?thesis by (auto simp: evaluate_def make_verdict_def allocate_def Let_def)
qed

lemma demo_input_ok: "input_ok (demo_input 100 400)"
  using grid64_int [of 400] grid64_int [of 100] by (simp add: input_ok_def caps_def demo_input_def)

theorem allow_is_safe_witness: "\<not> Fin 400 + eps9 < Fin 100"
proof -
  have "last (new_engine gen_first) = None" by (simp add: new_engine_def)
  from demo_allow [OF this, of 5 1] obtain d e' where
    d: "evaluate (demo_input 100 400) 5 (new_engine gen_first) 1 = Inr (d, e', 1 + 1)" "dec_verdict d = ALLOW" by blast
  from allow_is_safe [OF demo_input_ok d] show ?thesis by (simp add: caps_def demo_input_def)
qed

text \<open>A recommended limit never exceeds a hard cap: whatever the verdict, a limit the engine
  recommends, held by hysteresis or lowered to the soft target included, is at most every device, budget
  and thermal cap of the input, up to the tolerance.\<close>

theorem limit_within_caps:
  assumes "input_ok inp" "evaluate inp now e ctr = Inr (d, e', ctr')" "recommended_limit d = Some l"
    "c \<in> set (caps inp)"
  shows "l \<le> c + eps9"
proof -
  have ok: "\<forall>c \<in> set (caps inp). quantity_ok c" and r: "quantity_ok (di_requested_power inp)"
    using assms(1) by (auto simp: input_ok_def)
  obtain h where h: "fst (hard_limit inp) = Some h" "h \<le> c" "quantity_ok h" by (rule limit_covers [OF ok assms(4)])
  have hc: "h \<le> c + eps9" using h(2) le_add_eps ok assms(4) double_le_trans by blast
  obtain v rs bk where j: "judge inp now e = Inr (v, rs, Some l, bk)"
    using evaluate_judge [OF assms(2)] assms(3) by metis
  show ?thesis
  proof (cases "early_verdict inp")
    case None
    then have "default_verdict inp now e = Inr (v, rs, Some l, bk)" using j by (simp add: judge_def)
    from default_ALLOW_or_held(3) [OF this] h hc show ?thesis by auto
  next
    case (Some x)
    then have "early_verdict inp = Some (v, rs, Some l, bk)" using j by (simp add: judge_def)
    from early_limit [OF this] show ?thesis
    proof
      assume "fst (hard_limit inp) = Some l"
      then show ?thesis using h hc by simp
    next
      assume a: "di_soft_target inp = Some l \<and> l < di_requested_power inp \<and>
        \<not> ceiling_of (fst (hard_limit inp)) + eps9 < di_requested_power inp"
      then have "\<not> c + eps9 < di_requested_power inp" using not_over_cap [OF assms(1,4)] by blast
      then show ?thesis using a r ok assms(4)
        by (cases l; cases "c + eps9") (auto elim!: quantity_okE simp: eps9_Fin)
    qed
  qed
qed

theorem limit_within_caps_witness:
  "\<exists>d e' ctr' l. evaluate (demo_input 100 400) 5 (new_engine gen_first) 1 = Inr (d, e', ctr') \<and>
     recommended_limit d = Some l \<and> l \<le> Fin 400 + eps9"
proof -
  have e: "early_verdict (demo_input 100 400) = None" using grid64_int [of 400] by (intro demo_early) auto
  have lim: "hard_limit (demo_input 100 400) = (Some (Fin 400), ''device_hard_cap'')"
    by (simp add: hard_limit_def consider_cap_def demo_input_def is_non_negative_def)
  obtain d e' ctr' where d: "evaluate (demo_input 100 400) 5 (new_engine gen_first) 1 = Inr (d, e', ctr')"
    "recommended_limit d = Some (Fin 400)"
    by (auto simp: evaluate_def judge_def e default_verdict_def lim new_engine_def make_verdict_def allocate_def Let_def)
  from limit_within_caps [OF demo_input_ok d, of "Fin 400"] d show ?thesis
    by (auto simp: caps_def demo_input_def)
qed

text \<open>The hysteresis is not bounded. Every evaluation restarts the stable period with the verdict it
  held, so a restrictive verdict is repeated for as long as the engine is asked more often than the
  minimum stable duration, although nothing restricts the requests any more.\<close>

lemma hysteresis_never_expires:
  assumes "last e = Some (v, t)" "v \<noteq> ALLOW" "ts_ok t" "frequent_allows t xs"
  shows "\<exists>ds e' ctr'. evaluate_all xs e ctr = Inr (ds, e', ctr') \<and> map dec_verdict ds = replicate (length xs) v"
  by (rule evaluate_all_held [OF assms])

lemma hysteresis_never_expires_witness:
  "\<exists>ds e' ctr'. evaluate_all [(demo_input 100 400, 100000000), (demo_input 100 400, 200000000), (demo_input 100 400, 300000000)]
      \<lparr>last = Some (THROTTLE, 5), eng_gen = gen_first\<rparr> 1 = Inr (ds, e', ctr') \<and>
    map dec_verdict ds = [THROTTLE, THROTTLE, THROTTLE]"
proof -
  have e: "early_verdict (demo_input 100 400) = None" using grid64_int [of 400] by (intro demo_early) auto
  have m: "min_stable_duration (di_policy (demo_input 100 400)) = 200000000"
    by (simp add: demo_input_def policy_defaults_def empty_policy_def)
  have "frequent_allows 5 [(demo_input 100 400, 100000000), (demo_input 100 400, 200000000), (demo_input 100 400, 300000000)]"
    by (simp add: e m ts_ok_def kMaxNs_def)
  from hysteresis_never_expires [OF _ _ _ this, of "\<lparr>last = Some (THROTTLE, 5), eng_gen = gen_first\<rparr>" THROTTLE 1]
  show ?thesis by (simp add: ts_ok_def kMaxNs_def numeral_3_eq_3)
qed

text \<open>Two successive decisions of an engine, even on the same input at the same time, carry the same
  generation, which the engine never advances, and different JSON documents, because the document
  contains the freshly allocated identifier.\<close>

theorem decisions_same_generation_different_json:
  assumes "evaluate inp now e ctr = Inr (d, e1, ctr1)" "evaluate inp' now' e1 ctr1 = Inr (d', e2, ctr2)"
  shows "dec_generation d' = dec_generation d \<and> dec_id d' \<noteq> dec_id d \<and> dec_json d' \<noteq> dec_json d"
proof -
  have d: "dec_id d = StrongId ctr" "dec_generation d = gen_next (eng_gen e)"
    "dec_json d = build_json (d\<lparr>dec_json := [], dec_digest := []\<rparr>)" "ctr1 = ctr + 1" "eng_gen e1 = eng_gen e"
    by (rule evaluate_judge [OF assms(1)]; simp)+
  have d': "dec_id d' = StrongId ctr1" "dec_generation d' = gen_next (eng_gen e1)"
    "dec_json d' = build_json (d'\<lparr>dec_json := [], dec_digest := []\<rparr>)"
    by (rule evaluate_judge [OF assms(2)]; simp)+
  have ne: "dec_id d' \<noteq> dec_id d" using d d' by simp
  then have "dec_json d' \<noteq> dec_json d" unfolding d(3) d'(3) by (intro json_differs) simp
  with d d' ne show ?thesis by simp
qed

theorem decisions_same_generation_different_json_witness:
  "\<exists>d d' e1 e2 ctr1 ctr2. evaluate (demo_input 100 400) 5 (new_engine gen_first) 1 = Inr (d, e1, ctr1) \<and>
     evaluate (demo_input 100 400) 6 e1 ctr1 = Inr (d', e2, ctr2) \<and> dec_json d' \<noteq> dec_json d"
proof -
  have e: "early_verdict (demo_input 100 400) = None" using grid64_int [of 400] by (intro demo_early) auto
  have lim: "hard_limit (demo_input 100 400) = (Some (Fin 400), ''device_hard_cap'')"
    by (simp add: hard_limit_def consider_cap_def demo_input_def is_non_negative_def)
  obtain d e1 ctr1 where d: "evaluate (demo_input 100 400) 5 (new_engine gen_first) 1 = Inr (d, e1, ctr1)"
    "last e1 = Some (ALLOW, 5)"
    by (auto simp: evaluate_def judge_def e default_verdict_def lim new_engine_def make_verdict_def allocate_def Let_def)
  obtain d' e2 ctr2 where d': "evaluate (demo_input 100 400) 6 e1 ctr1 = Inr (d', e2, ctr2)"
    using d(2) by (auto simp: evaluate_def judge_def e default_verdict_def lim make_verdict_def allocate_def Let_def)
  from decisions_same_generation_different_json [OF d(1) d'] d d' show ?thesis by blast
qed

end
