(* ===== verification/Index.thy ===== *)
theory Index
  imports Reservation
begin

text \<open>
  The secondary index of \<^verbatim>\<open>index.hpp\<close>: per-key lists of reservation identifiers beside the map of the
  members. The three lists are maintained by the same code; what one of them promises is the locale
  \<open>bucket_index\<close>.
\<close>

section \<open>State and operations\<close>

record index_meta =
  im_budget :: budget_id
  im_workload :: workload_id
  im_state :: reservation_state

type_synonym 'k buckets = "('k \<times> reservation_id list) list"

record reservation_index =
  members :: "(reservation_id \<times> index_meta) list"
  idx_budget :: "budget_id buckets"
  idx_workload :: "workload_id buckets"
  idx_state :: "reservation_state buckets"

definition empty_index :: reservation_index where
  "empty_index = \<lparr>members = [], idx_budget = [], idx_workload = [], idx_state = []\<rparr>"

definition lookup :: "'k buckets \<Rightarrow> 'k \<Rightarrow> reservation_id list" where
  "lookup m key = (case map_of m key of None \<Rightarrow> [] | Some v \<Rightarrow> v)"

text \<open>\<^verbatim>\<open>m[key].push_back(id)\<close> and \<^verbatim>\<open>remove_entry(m[key], id)\<close>; the subscript creates a missing entry.\<close>

definition push_entry :: "'k \<Rightarrow> reservation_id \<Rightarrow> 'k buckets \<Rightarrow> 'k buckets" where
  "push_entry key rid m = AList.update key (lookup m key @ [rid]) m"

definition remove_entry :: "'k \<Rightarrow> reservation_id \<Rightarrow> 'k buckets \<Rightarrow> 'k buckets" where
  "remove_entry key rid m = AList.update key (remove1 rid (lookup m key)) m"

definition push_lists :: "index_meta \<Rightarrow> reservation_id \<Rightarrow> reservation_index \<Rightarrow> reservation_index" where
  "push_lists m rid i = i\<lparr>idx_budget := push_entry (im_budget m) rid (idx_budget i),
     idx_workload := push_entry (im_workload m) rid (idx_workload i),
     idx_state := push_entry (im_state m) rid (idx_state i)\<rparr>"

definition remove_from_lists :: "index_meta \<Rightarrow> reservation_id \<Rightarrow> reservation_index \<Rightarrow> reservation_index" where
  "remove_from_lists m rid i = i\<lparr>idx_budget := remove_entry (im_budget m) rid (idx_budget i),
     idx_workload := remove_entry (im_workload m) rid (idx_workload i),
     idx_state := remove_entry (im_state m) rid (idx_state i)\<rparr>"

definition index_add ::
  "reservation_id \<Rightarrow> budget_id \<Rightarrow> workload_id \<Rightarrow> reservation_state \<Rightarrow> reservation_index \<Rightarrow> reservation_index"
where
  "index_add rid b w s i = (if \<not> is_valid rid then i
     else let m = \<lparr>im_budget = b, im_workload = w, im_state = s\<rparr>
          in push_lists m rid (i\<lparr>members := AList.update rid m (members i)\<rparr>))"

definition index_set_state ::
  "reservation_id \<Rightarrow> budget_id \<Rightarrow> workload_id \<Rightarrow> reservation_state \<Rightarrow> reservation_index \<Rightarrow> reservation_index"
where
  "index_set_state rid b w s i = (case map_of (members i) rid of
     None \<Rightarrow> index_add rid b w s i
   | Some old \<Rightarrow>
       let m = \<lparr>im_budget = b, im_workload = w, im_state = s\<rparr>; i1 = remove_from_lists old rid i
       in push_lists m rid (i1\<lparr>members := AList.update rid m (members i1)\<rparr>))"

definition index_remove :: "reservation_id \<Rightarrow> reservation_index \<Rightarrow> reservation_index" where
  "index_remove rid i = (case map_of (members i) rid of
     None \<Rightarrow> i
   | Some old \<Rightarrow>
       let i1 = remove_from_lists old rid i in i1\<lparr>members := AList.delete rid (members i1)\<rparr>)"

definition by_budget :: "reservation_index \<Rightarrow> budget_id \<Rightarrow> reservation_id list" where
  "by_budget i = lookup (idx_budget i)"
definition by_workload :: "reservation_index \<Rightarrow> workload_id \<Rightarrow> reservation_id list" where
  "by_workload i = lookup (idx_workload i)"
definition by_state :: "reservation_index \<Rightarrow> reservation_state \<Rightarrow> reservation_id list" where
  "by_state i = lookup (idx_state i)"

section \<open>One bucket map\<close>

lemma lookup_update: "lookup (AList.update key v m) k = (if k = key then v else lookup m k)"
  by (simp add: lookup_def update_conv')

lemma lookup_push: "lookup (push_entry key rid m) k = (if k = key then lookup m k @ [rid] else lookup m k)"
  by (simp add: push_entry_def lookup_update)

lemma lookup_remove: "lookup (remove_entry key rid m) k = (if k = key then remove1 rid (lookup m k) else lookup m k)"
  by (simp add: remove_entry_def lookup_update)

text \<open>A bucket map agrees with the members under a key function: every bucket lists, once each, the
  members whose meta data has that key.\<close>

definition agrees :: "(index_meta \<Rightarrow> 'k) \<Rightarrow> (reservation_id \<times> index_meta) list \<Rightarrow> 'k buckets \<Rightarrow> bool" where
  "agrees key ms bs \<longleftrightarrow> (\<forall>k. distinct (lookup bs k) \<and>
     set (lookup bs k) = {rid. \<exists>m. map_of ms rid = Some m \<and> key m = k})"

lemma agrees_push:
  "agrees key ms bs \<Longrightarrow> map_of ms rid = None \<Longrightarrow>
    agrees key (AList.update rid m ms) (push_entry (key m) rid bs)"
  by (auto simp: agrees_def lookup_push update_conv')

lemma agrees_remove:
  "agrees key ms bs \<Longrightarrow> map_of ms rid = Some m \<Longrightarrow>
    agrees key (AList.delete rid ms) (remove_entry (key m) rid bs)"
  by (auto simp: agrees_def lookup_remove delete_conv' split: if_splits)

lemma agrees_map_of: "agrees key ms bs \<Longrightarrow> map_of ms = map_of ms' \<Longrightarrow> agrees key ms' bs"
  by (simp add: agrees_def)

lemma agrees_move:
  assumes "agrees key ms bs" "map_of ms rid = Some old"
  shows "agrees key (AList.update rid m ms) (push_entry (key m) rid (remove_entry (key old) rid bs))"
proof -
  have "map_of (AList.delete rid ms) rid = None" by (simp add: delete_conv')
  from agrees_push [OF agrees_remove [OF assms] this, of m] show ?thesis
    by (rule agrees_map_of) (simp add: update_conv' delete_conv')
qed

text \<open>
  The interface of an index: a query by key, and the operations that keep it in agreement with the
  members.
\<close>

locale bucket_index =
  fixes key :: "index_meta \<Rightarrow> 'k" and buckets :: "reservation_index \<Rightarrow> 'k buckets"
  assumes push_bucket: "buckets (push_lists m rid i) = push_entry (key m) rid (buckets i)"
    and remove_bucket: "buckets (remove_from_lists m rid i) = remove_entry (key m) rid (buckets i)"
    and members_bucket: "buckets (i\<lparr>members := ms\<rparr>) = buckets i"
    and empty_bucket: "buckets empty_index = []"
begin

definition in_step :: "reservation_index \<Rightarrow> bool" where
  "in_step i \<longleftrightarrow> agrees key (members i) (buckets i)"

lemma in_step_empty: "in_step empty_index"
  by (simp add: in_step_def agrees_def lookup_def empty_bucket) (simp add: empty_index_def)

lemma in_step_add: "in_step i \<Longrightarrow> map_of (members i) rid = None \<Longrightarrow> in_step (index_add rid b w s i)"
  using agrees_push [of key "members i" "buckets i" rid "\<lparr>im_budget = b, im_workload = w, im_state = s\<rparr>"]
  by (auto simp: in_step_def index_add_def Let_def push_bucket members_bucket)
    (simp add: push_lists_def)

lemma in_step_set_state:
  assumes "in_step i" shows "in_step (index_set_state rid b w s i)"
proof (cases "map_of (members i) rid")
  case None
  then show ?thesis using in_step_add [OF assms None] by (simp add: index_set_state_def)
next
  case (Some old)
  let ?m = "\<lparr>im_budget = b, im_workload = w, im_state = s\<rparr>"
  have "agrees key (AList.update rid ?m (members i)) (push_entry (key ?m) rid (remove_entry (key old) rid (buckets i)))"
    using agrees_move [OF _ Some] assms by (simp add: in_step_def)
  moreover have "members (index_set_state rid b w s i) = AList.update rid ?m (members i)"
    by (simp add: index_set_state_def Some Let_def push_lists_def remove_from_lists_def)
  ultimately show ?thesis
    by (simp add: in_step_def) (simp add: index_set_state_def Some Let_def push_bucket members_bucket remove_bucket)
qed

lemma in_step_remove: assumes "in_step i" shows "in_step (index_remove rid i)"
proof (cases "map_of (members i) rid")
  case (Some old)
  have "agrees key (AList.delete rid (members i)) (remove_entry (key old) rid (buckets i))"
    using agrees_remove [OF _ Some] assms by (simp add: in_step_def)
  moreover have "members (index_remove rid i) = AList.delete rid (members i)"
    by (simp add: index_remove_def Some Let_def remove_from_lists_def)
  ultimately show ?thesis
    by (simp add: in_step_def) (simp add: index_remove_def Some Let_def members_bucket remove_bucket)
qed (use assms in \<open>simp add: index_remove_def\<close>)

end

interpretation budget_index: bucket_index im_budget idx_budget
  by unfold_locales (simp_all add: push_lists_def remove_from_lists_def empty_index_def)

interpretation workload_index: bucket_index im_workload idx_workload
  by unfold_locales (simp_all add: push_lists_def remove_from_lists_def empty_index_def)

interpretation state_index: bucket_index im_state idx_state
  by unfold_locales (simp_all add: push_lists_def remove_from_lists_def empty_index_def)

section \<open>Runs\<close>

text \<open>Indexes reached with \<^verbatim>\<open>set_state\<close> and \<^verbatim>\<open>remove\<close>, and with \<^verbatim>\<open>add\<close> of new identifiers.\<close>

inductive index_run :: "reservation_index \<Rightarrow> bool" where
  index_empty: "index_run empty_index"
| index_add_new: "index_run i \<Longrightarrow> map_of (members i) rid = None \<Longrightarrow> index_run (index_add rid b w s i)"
| index_set: "index_run i \<Longrightarrow> index_run (index_set_state rid b w s i)"
| index_del: "index_run i \<Longrightarrow> index_run (index_remove rid i)"

lemma index_run_in_step:
  "index_run i \<Longrightarrow> budget_index.in_step i \<and> workload_index.in_step i \<and> state_index.in_step i"
  by (induction rule: index_run.induct)
    (blast intro: budget_index.in_step_empty workload_index.in_step_empty state_index.in_step_empty
      budget_index.in_step_add workload_index.in_step_add state_index.in_step_add
      budget_index.in_step_set_state workload_index.in_step_set_state state_index.in_step_set_state
      budget_index.in_step_remove workload_index.in_step_remove state_index.in_step_remove)+

text \<open>The secondary indexes agree with the members. In every index reached by setting states, removing
  reservations and adding new ones, the lists by budget, by workload and by state name exactly the
  members with that budget, workload or state, each once: an index query equals a scan of the members.\<close>

theorem index_matches_members:
  assumes "index_run i"
  shows "set (by_budget i b) = {rid. \<exists>m. map_of (members i) rid = Some m \<and> im_budget m = b} \<and> distinct (by_budget i b) \<and>
    set (by_workload i w) = {rid. \<exists>m. map_of (members i) rid = Some m \<and> im_workload m = w} \<and> distinct (by_workload i w) \<and>
    set (by_state i s) = {rid. \<exists>m. map_of (members i) rid = Some m \<and> im_state m = s} \<and> distinct (by_state i s)"
  using index_run_in_step [OF assms]
  by (simp add: budget_index.in_step_def workload_index.in_step_def state_index.in_step_def agrees_def
      by_budget_def by_workload_def by_state_def)

theorem index_matches_members_witness:
  "set (by_state (index_set_state (StrongId 1) (StrongId 2) (StrongId 3) ACTIVE
     (index_add (StrongId 1) (StrongId 2) (StrongId 3) PLANNED empty_index)) ACTIVE) = {StrongId 1}"
proof -
  let ?i = "index_set_state (StrongId 1) (StrongId 2) (StrongId 3) ACTIVE
     (index_add (StrongId 1) (StrongId 2) (StrongId 3) PLANNED empty_index)"
  have "index_run ?i" by (intro index_set index_add_new index_empty) (simp add: empty_index_def)
  from index_matches_members [OF this, where s = ACTIVE]
  have "set (by_state ?i ACTIVE) = {rid. \<exists>m. map_of (members ?i) rid = Some m \<and> im_state m = ACTIVE}" by blast
  then show ?thesis
    by (simp add: index_set_state_def index_add_def Let_def push_lists_def remove_from_lists_def empty_index_def)
qed

text \<open>Adding a reservation that is already indexed corrupts the index: \<^verbatim>\<open>add\<close> does not take it out of
  its old lists, so after re-adding it with another state it is listed under both.\<close>

theorem readding_duplicates:
  assumes "is_valid rid" "map_of (members i) rid = Some m" "rid \<in> set (by_state i (im_state m))" "s \<noteq> im_state m"
  shows "rid \<in> set (by_state (index_add rid b w s i) (im_state m)) \<and> rid \<in> set (by_state (index_add rid b w s i) s) \<and>
    map_of (members (index_add rid b w s i)) rid = Some \<lparr>im_budget = b, im_workload = w, im_state = s\<rparr>"
  using assms by (simp add: index_add_def Let_def push_lists_def by_state_def lookup_push update_conv')

theorem readding_duplicates_witness:
  "StrongId 1 \<in> set (by_state (index_add (StrongId 1) (StrongId 2) (StrongId 3) ACTIVE
     (index_add (StrongId 1) (StrongId 2) (StrongId 3) PLANNED empty_index)) PLANNED)"
  using readding_duplicates [of "StrongId 1" "index_add (StrongId 1) (StrongId 2) (StrongId 3) PLANNED empty_index"
      "\<lparr>im_budget = StrongId 2, im_workload = StrongId 3, im_state = PLANNED\<rparr>" ACTIVE "StrongId 2" "StrongId 3"]
  by (simp add: index_add_def Let_def push_lists_def by_state_def lookup_push empty_index_def)

end
