(* ===== verification/History.thy ===== *)
theory History
  imports Units
begin

text \<open>The change history of \<^verbatim>\<open>change_history.hpp\<close>: numbered entries, the oldest dropped at the bound.\<close>

datatype change_kind =
    POLICY_CHANGED | BUDGET_CHANGED | RESERVATION_PLANNED | RESERVATION_RESERVED
  | RESERVATION_ACTIVATED | RESERVATION_RELEASED | RESERVATION_EXPIRED | BURST_EXHAUSTED
  | BURST_REFILLED | DEVICE_THERMALLY_CONSTRAINED | DEVICE_RECOVERED | WORKLOAD_CLASS_CHANGED
  | DECISION_CHANGED | TELEMETRY_STALE | POWER_CONTROL_CAPABILITY_CHANGED | AUTHORITY_ROLLED
  | RECOVERED | OBSERVATION_ACCEPTED | OBSERVATION_REJECTED

fun change_to_string :: "change_kind \<Rightarrow> string" where
  "change_to_string POLICY_CHANGED = ''POLICY_CHANGED''"
| "change_to_string BUDGET_CHANGED = ''BUDGET_CHANGED''"
| "change_to_string RESERVATION_PLANNED = ''RESERVATION_PLANNED''"
| "change_to_string RESERVATION_RESERVED = ''RESERVATION_RESERVED''"
| "change_to_string RESERVATION_ACTIVATED = ''RESERVATION_ACTIVATED''"
| "change_to_string RESERVATION_RELEASED = ''RESERVATION_RELEASED''"
| "change_to_string RESERVATION_EXPIRED = ''RESERVATION_EXPIRED''"
| "change_to_string BURST_EXHAUSTED = ''BURST_EXHAUSTED''"
| "change_to_string BURST_REFILLED = ''BURST_REFILLED''"
| "change_to_string DEVICE_THERMALLY_CONSTRAINED = ''DEVICE_THERMALLY_CONSTRAINED''"
| "change_to_string DEVICE_RECOVERED = ''DEVICE_RECOVERED''"
| "change_to_string WORKLOAD_CLASS_CHANGED = ''WORKLOAD_CLASS_CHANGED''"
| "change_to_string DECISION_CHANGED = ''DECISION_CHANGED''"
| "change_to_string TELEMETRY_STALE = ''TELEMETRY_STALE''"
| "change_to_string POWER_CONTROL_CAPABILITY_CHANGED = ''POWER_CONTROL_CAPABILITY_CHANGED''"
| "change_to_string AUTHORITY_ROLLED = ''AUTHORITY_ROLLED''"
| "change_to_string RECOVERED = ''RECOVERED''"
| "change_to_string OBSERVATION_ACCEPTED = ''OBSERVATION_ACCEPTED''"
| "change_to_string OBSERVATION_REJECTED = ''OBSERVATION_REJECTED''"

record change_entry =
  seq :: u64
  ce_at :: timestamp
  ce_kind :: change_kind
  message :: string

record change_history =
  h_next :: u64
  h_max :: nat
  entries :: "change_entry list"

definition new_history :: "nat \<Rightarrow> change_history" where
  "new_history max_entries = \<lparr>h_next = 1, h_max = (if max_entries \<noteq> 0 then max_entries else 1), entries = []\<rparr>"

definition h_append :: "change_kind \<Rightarrow> string \<Rightarrow> timestamp \<Rightarrow> change_history \<Rightarrow> change_history" where
  "h_append k msg t h = (let es = entries h @ [\<lparr>seq = h_next h, ce_at = t, ce_kind = k, message = msg\<rparr>]
     in h\<lparr>h_next := h_next h + 1, entries := (if h_max h < length es then tl es else es)\<rparr>)"

definition h_clear :: "change_history \<Rightarrow> change_history" where
  "h_clear h = h\<lparr>entries := []\<rparr>"

section \<open>The log it keeps\<close>

text \<open>The abstract log: every entry ever appended, numbered from 1.\<close>

fun numbered :: "u64 \<Rightarrow> (change_kind \<times> string \<times> timestamp) list \<Rightarrow> change_entry list" where
  "numbered n [] = []"
| "numbered n ((k, msg, t) # xs) = \<lparr>seq = n, ce_at = t, ce_kind = k, message = msg\<rparr> # numbered (n + 1) xs"

definition append_all :: "(change_kind \<times> string \<times> timestamp) list \<Rightarrow> change_history \<Rightarrow> change_history" where
  "append_all xs h = fold (\<lambda>(k, msg, t). h_append k msg t) xs h"

definition latest :: "nat \<Rightarrow> 'a list \<Rightarrow> 'a list" where
  "latest n xs = drop (length xs - n) xs"

lemma latest_snoc:
  "0 < n \<Longrightarrow> latest n (xs @ [x]) =
     (if n < length (latest n xs @ [x]) then tl (latest n xs @ [x]) else latest n xs @ [x])"
  by (auto simp: latest_def tl_append Suc_diff_le split: list.splits) (metis drop_Suc tl_drop list.sel(3))

lemma append_all_latest:
  assumes "entries h = latest (h_max h) hist" "0 < h_max h"
  shows "entries (append_all xs h) = latest (h_max h) (hist @ numbered (h_next h) xs) \<and>
    h_next (append_all xs h) = h_next h + of_nat (length xs) \<and> h_max (append_all xs h) = h_max h"
  using assms
proof (induction xs arbitrary: h hist)
  case (Cons x xs)
  obtain k msg t where x: "x = (k, msg, t)" by (cases x)
  let ?h = "h_append k msg t h" and ?e = "\<lparr>seq = h_next h, ce_at = t, ce_kind = k, message = msg\<rparr>"
  have "entries ?h = latest (h_max ?h) (hist @ [?e])"
    using Cons.prems latest_snoc [OF Cons.prems(2), of hist ?e] by (simp add: h_append_def Let_def)
  from Cons.IH [OF this] Cons.prems(2) show ?case
    by (simp add: append_all_def x h_append_def Let_def algebra_simps)
qed (simp add: append_all_def)

text \<open>C37: The change history is a log: after any sequence of appends to a fresh history its entries are
  exactly the most recent ones of the full log, in order and with the consecutive numbers the log gave
  them; no entry that is kept was ever altered.\<close>

theorem history_is_log:
  "entries (append_all xs (new_history m)) = latest (if m = 0 then 1 else m) (numbered 1 xs)"
  using append_all_latest [of "new_history m" "[]" xs] by (simp add: new_history_def latest_def)

end
