(* ===== verification/Domain_Tree.thy ===== *)
theory Domain_Tree
  imports Ids
begin

text \<open>
  The domain tree of \<^verbatim>\<open>power_domain.hpp\<close>. The loop of \<^verbatim>\<open>ancestors\<close> has no bound in the code, so it is a
  partial function whose \<open>None\<close> is a loop that does not end; it is shown to end on every tree that
  \<^verbatim>\<open>add\<close> builds.
\<close>

section \<open>State and operations\<close>

datatype power_domain_type = FLEET | RACK | NODE | ACCELERATOR | WORKLOAD_CLASS | RESERVATION

fun domain_type_to_string :: "power_domain_type \<Rightarrow> string" where
  "domain_type_to_string FLEET = ''FLEET''"
| "domain_type_to_string RACK = ''RACK''"
| "domain_type_to_string NODE = ''NODE''"
| "domain_type_to_string ACCELERATOR = ''ACCELERATOR''"
| "domain_type_to_string WORKLOAD_CLASS = ''WORKLOAD_CLASS''"
| "domain_type_to_string RESERVATION = ''RESERVATION''"

record power_domain =
  dom_id :: power_domain_id
  dom_type :: power_domain_type
  parent :: "power_domain_id option"
  children :: "power_domain_id list"
  dom_name :: string
  physical :: bool

type_synonym domain_tree = "(power_domain_id \<times> power_domain) list"

definition valid_parent :: "power_domain_id option \<Rightarrow> bool" where
  "valid_parent p \<longleftrightarrow> (case p of None \<Rightarrow> False | Some q \<Rightarrow> is_valid q)"

definition add_child :: "power_domain_id \<Rightarrow> power_domain_id \<Rightarrow> domain_tree \<Rightarrow> domain_tree" where
  "add_child p c t = (case map_of t p of None \<Rightarrow> t
     | Some d \<Rightarrow> AList.update p (d\<lparr>children := children d @ [c]\<rparr>) t)"

definition domain_add ::
  "power_domain_id \<Rightarrow> power_domain_type \<Rightarrow> power_domain_id option \<Rightarrow> string \<Rightarrow> bool \<Rightarrow> domain_tree \<Rightarrow>
   (power_domain_id \<times> domain_tree) res"
where
  "domain_add did ty par name phys t =
     (if \<not> is_valid did then Inl InvalidArgument
      else if map_of t did \<noteq> None then Inl InvalidArgument
      else if valid_parent par \<and> map_of t (the par) = None then Inl InvalidArgument
      else let d = \<lparr>dom_id = did, dom_type = ty, parent = par, children = [], dom_name = name, physical = phys\<rparr>;
               t1 = AList.update did d t;
               t2 = (if valid_parent par then add_child (the par) did t1 else t1)
           in Inr (did, t2))"

definition domain_contains :: "domain_tree \<Rightarrow> power_domain_id \<Rightarrow> bool" where
  "domain_contains t did \<longleftrightarrow> map_of t did \<noteq> None"

definition domain_get :: "domain_tree \<Rightarrow> power_domain_id \<Rightarrow> power_domain res" where
  "domain_get t did = (case map_of t did of None \<Rightarrow> Inl OutOfRange | Some d \<Rightarrow> Inr d)"

partial_function (option) ancestors_loop ::
  "domain_tree \<Rightarrow> power_domain_id option \<Rightarrow> power_domain_id list \<Rightarrow> power_domain_id list option"
where
  "ancestors_loop t cur out = (case cur of
     None \<Rightarrow> Some out
   | Some c \<Rightarrow>
       if \<not> is_valid c then Some out
       else (case map_of t c of
          None \<Rightarrow> Some (out @ [c])
        | Some d \<Rightarrow> ancestors_loop t (parent d) (out @ [c])))"

definition ancestors :: "domain_tree \<Rightarrow> power_domain_id \<Rightarrow> power_domain_id list res option" where
  "ancestors t did = (case map_of t did of
     None \<Rightarrow> Some (Inl OutOfRange)
   | Some d \<Rightarrow> map_option Inr (ancestors_loop t (parent d) []))"

section \<open>Trees the code builds\<close>

inductive domain_run :: "domain_tree \<Rightarrow> bool" where
  tree_empty: "domain_run []"
| tree_add: "domain_run t \<Longrightarrow> domain_add did ty par name phys t = Inr (did', t') \<Longrightarrow> domain_run t'"

text \<open>The walk up from a link, as a relation: \<open>walk t cur out\<close> lists the domains from \<open>cur\<close> to the root.\<close>

inductive walk :: "domain_tree \<Rightarrow> power_domain_id option \<Rightarrow> power_domain_id list \<Rightarrow> bool" for t where
  walk_end: "\<not> valid_parent cur \<Longrightarrow> walk t cur []"
| walk_up: "is_valid c \<Longrightarrow> map_of t c = Some d \<Longrightarrow> walk t (parent d) out \<Longrightarrow> walk t (Some c) (c # out)"

lemma walk_loop: "walk t cur out \<Longrightarrow> ancestors_loop t cur acc = Some (acc @ out)"
proof (induction arbitrary: acc rule: walk.induct)
  case (walk_end cur)
  then show ?case by (cases cur) (simp_all add: ancestors_loop.simps valid_parent_def)
next
  case (walk_up c d out)
  then show ?case by (simp add: ancestors_loop.simps [of t "Some c"])
qed

lemma walk_set: "walk t cur out \<Longrightarrow> set out \<subseteq> dom (map_of t)"
  by (induction rule: walk.induct) auto

lemma walk_transfer:
  assumes "walk t cur out"
    "\<And>c d. map_of t c = Some d \<Longrightarrow> \<exists>d'. map_of t' c = Some d' \<and> parent d' = parent d"
  shows "walk t' cur out"
  using assms(1) by induction (use assms(2) in \<open>auto intro: walk.intros\<close>, metis walk_up)

definition tree_ok :: "domain_tree \<Rightarrow> bool" where
  "tree_ok t \<longleftrightarrow> distinct (map fst t) \<and> (\<forall>c d. map_of t c = Some d \<longrightarrow>
     (\<exists>out. walk t (parent d) out \<and> distinct (c # out)))"

lemma parent_add_child: "map_option parent (map_of (add_child p c t) x) = map_option parent (map_of t x)"
  by (cases "x = p") (auto simp: add_child_def update_conv' split: option.split)

lemma distinct_add_child: "distinct (map fst t) \<Longrightarrow> distinct (map fst (add_child p c t))"
  by (simp add: add_child_def distinct_update split: option.split)

lemma domain_add_lookup:
  assumes "domain_add did ty par name phys t = Inr (r, t')"
  shows "r = did" "is_valid did" "map_of t did = None" "valid_parent par \<Longrightarrow> map_of t (the par) \<noteq> None"
    "distinct (map fst t) \<Longrightarrow> distinct (map fst t')"
  using assms
  by (auto simp: domain_add_def Let_def distinct_update distinct_add_child split: if_splits)

lemma domain_add_parent:
  assumes "domain_add did ty par name phys t = Inr (r, t')"
  shows "map_option parent (map_of t' x) = (if x = did then Some par else map_option parent (map_of t x))"
proof -
  let ?t1 = "AList.update did \<lparr>dom_id = did, dom_type = ty, parent = par, children = [], dom_name = name,
    physical = phys\<rparr> t"
  have "map_option parent (map_of t' x) = map_option parent (map_of ?t1 x)"
    using assms parent_add_child [of "the par" did ?t1 x] by (auto simp: domain_add_def Let_def split: if_splits)
  then show ?thesis by (simp add: update_conv')
qed

lemma domain_add_ok:
  assumes "tree_ok t" "domain_add did ty par name phys t = Inr (r, t')"
  shows "tree_ok t'"
proof -
  note add = domain_add_lookup [OF assms(2)] and par = domain_add_parent [OF assms(2)]
  have keep: "\<exists>d'. map_of t' c = Some d' \<and> parent d' = parent d" if "map_of t c = Some d" for c d
    using par [of c] add(3) that by (cases "map_of t' c") (auto split: if_splits)
  have up: "\<exists>out. walk t' p out \<and> set out \<subseteq> dom (map_of t) \<and> distinct out"
    if p: "\<not> valid_parent p \<or> map_of t (the p) \<noteq> None \<and> is_valid (the p) \<and> p \<noteq> None" for p
  proof (cases "valid_parent p")
    case False
    then show ?thesis by (auto intro: walk_end)
  next
    case True
    with p obtain q d where q: "p = Some q" "is_valid q" "map_of t q = Some d" by auto
    then obtain out where "walk t (parent d) out" "distinct (q # out)" using assms(1) unfolding tree_ok_def by blast
    then have "walk t p (q # out)" "distinct (q # out)" using q walk_up by auto
    then show ?thesis using walk_transfer [OF _ keep] walk_set by blast
  qed
  have "\<exists>out. walk t' (parent d) out \<and> distinct (c # out)" if c: "map_of t' c = Some d" for c d
  proof (cases "c = did")
    case True
    have "parent d = par" using par [of c] c True by simp
    moreover have "\<not> valid_parent par \<or> map_of t (the par) \<noteq> None \<and> is_valid (the par) \<and> par \<noteq> None"
      using add(4) by (auto simp: valid_parent_def split: option.splits)
    ultimately show ?thesis using up [of par] add(3) True by auto
  next
    case False
    then obtain d0 where d0: "map_of t c = Some d0" "parent d0 = parent d"
      using par [of c] c by (cases "map_of t c") auto
    then obtain out where "walk t (parent d) out" "distinct (c # out)" using assms(1) unfolding tree_ok_def by metis
    then show ?thesis using walk_transfer [OF _ keep] by blast
  qed
  then show ?thesis using add(5) assms(1) by (auto simp: tree_ok_def)
qed

lemma domain_run_ok: "domain_run t \<Longrightarrow> tree_ok t"
  by (induction rule: domain_run.induct) (simp add: tree_ok_def, rule domain_add_ok)

section \<open>Properties\<close>

text \<open>C36: The walk to the root ends. On every tree built by \<^verbatim>\<open>add\<close>, \<^verbatim>\<open>ancestors\<close> of a known domain
  returns; the list has no repetition, does not contain the domain itself and names only domains of
  the tree. An unknown domain raises \<^verbatim>\<open>out_of_range\<close>.\<close>

theorem ancestors_terminates:
  assumes "domain_run t"
  shows "if domain_contains t did
    then \<exists>out. ancestors t did = Some (Inr out) \<and> distinct (did # out) \<and> (\<forall>a \<in> set out. domain_contains t a)
    else ancestors t did = Some (Inl OutOfRange)"
proof (cases "map_of t did")
  case None
  then show ?thesis by (simp add: domain_contains_def ancestors_def)
next
  case (Some d)
  then obtain out where out: "walk t (parent d) out" "distinct (did # out)"
    using domain_run_ok [OF assms] unfolding tree_ok_def by metis
  have "ancestors t did = Some (Inr out)" using walk_loop [OF out(1), of "[]"] Some by (simp add: ancestors_def)
  then show ?thesis using Some out walk_set [OF out(1)] by (auto simp: domain_contains_def)
qed

theorem ancestors_terminates_witness:
  "\<exists>t out. domain_run t \<and> domain_contains t (StrongId 2) \<and> ancestors t (StrongId 2) = Some (Inr out) \<and>
     distinct (StrongId 2 # out)"
proof -
  obtain t1 where t1: "domain_add (StrongId 1) NODE None ''n'' False [] = Inr (StrongId 1, t1)"
    "t1 = [(StrongId 1, \<lparr>dom_id = StrongId 1, dom_type = NODE, parent = None, children = [], dom_name = ''n'',
       physical = False\<rparr>)]" by (simp add: domain_add_def valid_parent_def)
  obtain t2 where t2: "domain_add (StrongId 2) ACCELERATOR (Some (StrongId 1)) ''a'' True t1 = Inr (StrongId 2, t2)"
    "domain_contains t2 (StrongId 2)"
    by (simp add: domain_add_def valid_parent_def t1 add_child_def domain_contains_def)
  have "domain_run t2" using tree_add [OF tree_add [OF tree_empty t1(1)] t2(1)] .
  with ancestors_terminates [OF this, of "StrongId 2"] t2(2) show ?thesis by auto
qed

end
