(* ===== verification/Burst.thy ===== *)
theory Burst
  imports Energy
begin

text \<open>
  The burst budget of \<^verbatim>\<open>burst.hpp\<close>. Its queries are \<^verbatim>\<open>const\<close> but refill the \<^verbatim>\<open>mutable\<close> window, so they
  return the state too.
\<close>

record burst_budget =
  limits :: burst_limits
  bb_consumed :: joules
  bb_window_start :: timestamp
  bb_started :: bool

definition new_burst :: "burst_limits \<Rightarrow> burst_budget" where
  "new_burst l = \<lparr>limits = l, bb_consumed = Fin 0, bb_window_start = 0, bb_started = False\<rparr>"

definition bb_reset :: "burst_budget \<Rightarrow> burst_budget" where
  "bb_reset b = b\<lparr>bb_consumed := Fin 0, bb_window_start := 0, bb_started := False\<rparr>"

definition set_limits :: "burst_limits \<Rightarrow> burst_budget \<Rightarrow> burst_budget" where
  "set_limits l b = bb_reset (b\<lparr>limits := l\<rparr>)"

definition bb_capacity :: "burst_budget \<Rightarrow> joules res" where
  "bb_capacity b = noexcept (Joules (bl_allowance (limits b) * seconds_f (bl_window (limits b))))"

definition refill_if_needed :: "timestamp \<Rightarrow> burst_budget \<Rightarrow> burst_budget res" where
  "refill_if_needed now b =
     (if \<not> bb_started b then Inr (b\<lparr>bb_window_start := now, bb_started := True\<rparr>)
      else rbind (elapsed_since now (bb_window_start b)) (\<lambda>d.
        if bl_window (limits b) \<le> d then Inr (b\<lparr>bb_window_start := now, bb_consumed := Fin 0\<rparr>)
        else Inr b))"

definition bb_available :: "timestamp \<Rightarrow> burst_budget \<Rightarrow> (joules \<times> burst_budget) res" where
  "bb_available now b =
     (if \<not> bl_enabled (limits b) then rbind (Joules (Fin 0)) (\<lambda>z. Inr (z, b))
      else rbind (refill_if_needed now b) (\<lambda>b. rbind (bb_capacity b) (\<lambda>c.
        let a = c - bb_consumed b
        in rbind (Joules (if a < Fin 0 then Fin 0 else a)) (\<lambda>j. Inr (j, b)))))"

definition can_burst :: "joules \<Rightarrow> timestamp \<Rightarrow> burst_budget \<Rightarrow> (bool \<times> burst_budget) res" where
  "can_burst j now b =
     (if \<not> bl_enabled (limits b) then Inr (False, b)
      else rbind (bb_available now b) (\<lambda>(av, b). Inr (j \<le> av + eps9 \<and> Fin 0 \<le> j, b)))"

definition bb_consume :: "joules \<Rightarrow> timestamp \<Rightarrow> burst_budget \<Rightarrow> (bool \<times> burst_budget) res" where
  "bb_consume j now b =
     (if \<not> bl_enabled (limits b) then Inr (False, b)
      else rbind (refill_if_needed now b) (\<lambda>b. rbind (can_burst j now b) (\<lambda>(ok, b).
        if \<not> ok then Inr (False, b)
        else Inr (True, b\<lparr>bb_consumed := clamped (bb_consumed b + j)\<rparr>))))"

definition bb_consumed_at :: "timestamp \<Rightarrow> burst_budget \<Rightarrow> (joules \<times> burst_budget) res" where
  "bb_consumed_at now b =
     (if \<not> bl_enabled (limits b) then rbind (Joules (Fin 0)) (\<lambda>z. Inr (z, b))
      else rbind (refill_if_needed now b) (\<lambda>b. Inr (bb_consumed b, b)))"

definition exhausted :: "timestamp \<Rightarrow> burst_budget \<Rightarrow> (bool \<times> burst_budget) res" where
  "exhausted now b =
     (if \<not> bl_enabled (limits b) then Inr (True, b)
      else rbind (bb_available now b) (\<lambda>(av, b). Inr (av \<le> Fin 0, b)))"

definition burst_utilization :: "timestamp \<Rightarrow> burst_budget \<Rightarrow> (double \<times> burst_budget) res" where
  "burst_utilization now b =
     (if \<not> bl_enabled (limits b) then Inr (lit 0, b)
      else rbind (bb_capacity b) (\<lambda>cap.
        if cap \<le> Fin 0 then Inr (lit 0, b)
        else rbind (bb_consumed_at now b) (\<lambda>(c, b). Inr (c / cap, b))))"

section \<open>A burst never overruns its capacity\<close>

definition burst_cap :: "burst_budget \<Rightarrow> joules" where
  "burst_cap b = bl_allowance (limits b) * seconds_f (bl_window (limits b))"

lemma refill_keeps: "refill_if_needed now b = Inr b' \<Longrightarrow> limits b' = limits b \<and>
    (bb_consumed b' = bb_consumed b \<or> bb_consumed b' = Fin 0)"
  by (auto simp: refill_if_needed_def split: if_splits)

lemma bb_capacity_eq: "bb_capacity b = Inr c \<Longrightarrow> c = burst_cap b"
  by (simp add: bb_capacity_def burst_cap_def)

lemma bb_consume_cases:
  assumes "bl_enabled (limits b)" "bb_consume j now b = Inr (ok, b')"
  obtains b1 where "limits b1 = limits b" "bb_consumed b1 = bb_consumed b \<or> bb_consumed b1 = Fin 0"
    "ok \<longleftrightarrow> j \<le> clamp_neg (burst_cap b - bb_consumed b1) + eps9 \<and> Fin 0 \<le> j"
    "b' = (if ok then b1\<lparr>bb_consumed := clamped (bb_consumed b1 + j)\<rparr> else b1)"
proof -
  from assms obtain b0 ok1 b1 where b0: "refill_if_needed now b = Inr b0"
    and r: "can_burst j now b0 = Inr (ok1, b1)"
    and b': "(if \<not> ok1 then Inr (False, b1)
      else Inr (True, b1\<lparr>bb_consumed := clamped (bb_consumed b1 + j)\<rparr>)) = (Inr (ok, b') :: (bool \<times> burst_budget) res)"
    by (auto simp: bb_consume_def)
  have en: "bl_enabled (limits b0)" using refill_keeps [OF b0] assms(1) by simp
  from r en obtain av where av: "bb_available now b0 = Inr (av, b1)" "ok1 \<longleftrightarrow> j \<le> av + eps9 \<and> Fin 0 \<le> j"
    by (auto simp: can_burst_def)
  from av(1) en have b1: "refill_if_needed now b0 = Inr b1" "av = clamp_neg (burst_cap b1 - bb_consumed b1)"
    by (auto simp: bb_available_def clamp_neg_def Let_def dest!: bb_capacity_eq)
  from refill_keeps [OF b0] refill_keeps [OF b1(1)] have
    l: "limits b1 = limits b" "bb_consumed b1 = bb_consumed b \<or> bb_consumed b1 = Fin 0" by auto
  then have "burst_cap b1 = burst_cap b" by (simp add: burst_cap_def)
  with b1 l av(2) b' show thesis by (intro that [of b1]) (auto split: if_splits)
qed

interpretation burst_account: window_budget bb_consume bb_consumed burst_cap "\<lambda>b. bl_enabled (limits b)"
proof
  fix b j now ok b'
  assume b: "bl_enabled (limits b)" and c: "bb_consume j now b = Inr (ok, b')"
  show "bl_enabled (limits b') \<and> burst_cap b' = burst_cap b"
    by (rule bb_consume_cases [OF b c]) (use b in \<open>auto simp: burst_cap_def\<close>)
next
  fix b j now b'
  assume b: "bl_enabled (limits b)" and c: "bb_consume j now b = Inr (False, b')"
  show "bb_consumed b' = bb_consumed b \<or> bb_consumed b' = Fin 0"
    by (rule bb_consume_cases [OF b c]) auto
next
  fix b j now b'
  assume b: "bl_enabled (limits b)" and c: "bb_consume j now b = Inr (True, b')"
  show "\<exists>c. (c = bb_consumed b \<or> c = Fin 0) \<and> bb_consumed b' = clamped (c + j) \<and> Fin 0 \<le> j \<and>
      j \<le> clamp_neg (burst_cap b - c) + eps9"
    by (rule bb_consume_cases [OF b c]) auto
qed

lemma refill_returns:
  assumes "ts_ok now" "ts_ok (bb_window_start b)" "quantity_ok (bb_consumed b)"
  obtains b' where "refill_if_needed now b = Inr b'" "ts_ok (bb_window_start b')" "quantity_ok (bb_consumed b')"
    "limits b' = limits b"
  using assms b64.grid_zero that
  by (cases "bb_started b"; cases "bl_window (limits b) \<le> max 0 (now - bb_window_start b)")
    (auto simp: refill_if_needed_def)

interpretation burst_account: total_window_budget bb_consume bb_consumed burst_cap "\<lambda>b. bl_enabled (limits b)"
    "\<lambda>b. quantity_ok (bb_consumed b) \<and> ts_ok (bb_window_start b) \<and> quantity_ok (burst_cap b)"
proof
  fix b j now
  assume en: "bl_enabled (limits b)"
    and r: "quantity_ok (bb_consumed b) \<and> ts_ok (bb_window_start b) \<and> quantity_ok (burst_cap b)" and now: "ts_ok now"
  obtain b0 where b0: "refill_if_needed now b = Inr b0" "ts_ok (bb_window_start b0)" "quantity_ok (bb_consumed b0)"
    "limits b0 = limits b" using refill_returns [OF now] r by blast
  obtain b1 where b1: "refill_if_needed now b0 = Inr b1" "ts_ok (bb_window_start b1)" "quantity_ok (bb_consumed b1)"
    "limits b1 = limits b0" using refill_returns [OF now b0(2,3)] by blast
  have cap: "quantity_ok (burst_cap b1)" using r b0 b1 by (simp add: burst_cap_def)
  then have c: "bb_capacity b1 = Inr (burst_cap b1)"
    by (auto simp: bb_capacity_def burst_cap_def elim!: quantity_okE)
  have "bb_available now b0 = Inr (clamp_neg (burst_cap b1 - bb_consumed b1), b1)"
    using en b0 b1(1) c Joules_clamp_neg [OF cap b1(3)] by (simp add: bb_available_def clamp_neg_def Let_def)
  then show "\<exists>ok s'. bb_consume j now b = Inr (ok, s') \<and>
      quantity_ok (bb_consumed s') \<and> ts_ok (bb_window_start s') \<and> quantity_ok (burst_cap s')"
    using en b0 b1 r quantity_ok_clamped_add [OF b1(3), of j] cap
    by (auto simp: bb_consume_def can_burst_def burst_cap_def)
qed

section \<open>Properties\<close>



end
