(* ===== verification/Backend.thy ===== *)
theory Backend
  imports Energy
begin

text \<open>
  The backend interface of \<^verbatim>\<open>backend.hpp\<close> and the in-memory \<^verbatim>\<open>FakeBackend\<close>. The abstract class
  \<^verbatim>\<open>ControlBackend\<close> is the locale \<open>control_backend\<close>: its virtual operations are fixed and what its comments
  promise of a confirmed limit is assumed; the fake backend is an instance.
\<close>

section \<open>Data\<close>

datatype capability_status = CAP_SUPPORTED | CAP_UNAVAILABLE | CAP_PERMISSION_DENIED

fun capability_to_string :: "capability_status \<Rightarrow> string" where
  "capability_to_string CAP_SUPPORTED = ''SUPPORTED''"
| "capability_to_string CAP_UNAVAILABLE = ''UNAVAILABLE''"
| "capability_to_string CAP_PERMISSION_DENIED = ''PERMISSION_DENIED''"

datatype control_result = APPLIED | NOT_APPLIED | UNSUPPORTED | PERMISSION_DENIED | FAILED

fun control_to_string :: "control_result \<Rightarrow> string" where
  "control_to_string APPLIED = ''APPLIED''"
| "control_to_string NOT_APPLIED = ''NOT_APPLIED''"
| "control_to_string UNSUPPORTED = ''UNSUPPORTED''"
| "control_to_string PERMISSION_DENIED = ''PERMISSION_DENIED''"
| "control_to_string FAILED = ''FAILED''"

record backend_capabilities =
  cap_power_observe :: capability_status
  cap_power_control :: capability_status
  cap_temperature :: capability_status
  cap_clocks :: capability_status
  cap_utilization :: capability_status
  cap_energy :: capability_status
  cap_throttle_reasons :: capability_status

definition default_capabilities :: backend_capabilities where
  "default_capabilities = \<lparr>cap_power_observe = CAP_UNAVAILABLE, cap_power_control = CAP_UNAVAILABLE,
     cap_temperature = CAP_UNAVAILABLE, cap_clocks = CAP_UNAVAILABLE, cap_utilization = CAP_UNAVAILABLE,
     cap_energy = CAP_UNAVAILABLE, cap_throttle_reasons = CAP_UNAVAILABLE\<rparr>"

record backend_sample =
  bs_power :: "watts option"
  bs_temperature :: "celsius option"
  bs_sm_clock :: "mhz option"
  bs_mem_clock :: "mhz option"
  bs_utilization :: "utilization option"
  bs_energy_total :: "joules option"
  bs_power_limit :: "watts option"
  bs_throttled :: bool
  bs_throttle_reasons :: "string list"
  bs_provenance :: energy_provenance
  bs_source :: string

definition empty_sample :: backend_sample where
  "empty_sample = \<lparr>bs_power = None, bs_temperature = None, bs_sm_clock = None, bs_mem_clock = None,
     bs_utilization = None, bs_energy_total = None, bs_power_limit = None, bs_throttled = False,
     bs_throttle_reasons = [], bs_provenance = EP_UNKNOWN, bs_source = []\<rparr>"

definition any_present :: "backend_sample \<Rightarrow> bool" where
  "any_present s \<longleftrightarrow> bs_power s \<noteq> None \<or> bs_temperature s \<noteq> None \<or> bs_sm_clock s \<noteq> None \<or>
     bs_mem_clock s \<noteq> None \<or> bs_utilization s \<noteq> None \<or> bs_energy_total s \<noteq> None \<or> bs_power_limit s \<noteq> None"

section \<open>The fake backend\<close>

record fake_backend =
  fb_caps :: backend_capabilities
  fb_power :: "watts option"
  fb_temp :: "celsius option"
  fb_sm :: "mhz option"
  fb_mem :: "mhz option"
  fb_util :: "utilization option"
  fb_energy :: "joules option"
  fb_applied :: "watts option"
  fb_throttled :: bool
  fb_reasons :: "string list"
  fb_synthetic :: bool

definition new_fake :: fake_backend where
  "new_fake = \<lparr>fb_caps = default_capabilities\<lparr>cap_power_observe := CAP_SUPPORTED,
       cap_temperature := CAP_SUPPORTED, cap_clocks := CAP_SUPPORTED, cap_utilization := CAP_SUPPORTED,
       cap_energy := CAP_SUPPORTED, cap_power_control := CAP_SUPPORTED,
       cap_throttle_reasons := CAP_UNAVAILABLE\<rparr>,
     fb_power = None, fb_temp = None, fb_sm = None, fb_mem = None, fb_util = None, fb_energy = None,
     fb_applied = None, fb_throttled = False, fb_reasons = [], fb_synthetic = True\<rparr>"

definition fb_capabilities :: "fake_backend \<Rightarrow> backend_capabilities" where "fb_capabilities b = fb_caps b"
definition fb_set_power :: "watts \<Rightarrow> fake_backend \<Rightarrow> fake_backend" where
  "fb_set_power w b = b\<lparr>fb_power := Some w\<rparr>"
definition fb_set_temperature :: "celsius \<Rightarrow> fake_backend \<Rightarrow> fake_backend" where
  "fb_set_temperature t b = b\<lparr>fb_temp := Some t\<rparr>"
definition fb_set_sm_clock :: "mhz \<Rightarrow> fake_backend \<Rightarrow> fake_backend" where
  "fb_set_sm_clock c b = b\<lparr>fb_sm := Some c\<rparr>"
definition fb_set_mem_clock :: "mhz \<Rightarrow> fake_backend \<Rightarrow> fake_backend" where
  "fb_set_mem_clock c b = b\<lparr>fb_mem := Some c\<rparr>"
definition fb_set_utilization :: "utilization \<Rightarrow> fake_backend \<Rightarrow> fake_backend" where
  "fb_set_utilization u b = b\<lparr>fb_util := Some u\<rparr>"
definition fb_set_energy_total :: "joules \<Rightarrow> fake_backend \<Rightarrow> fake_backend" where
  "fb_set_energy_total j b = b\<lparr>fb_energy := Some j\<rparr>"
definition fb_set_throttled :: "bool \<Rightarrow> string list \<Rightarrow> fake_backend \<Rightarrow> fake_backend" where
  "fb_set_throttled t rs b = b\<lparr>fb_throttled := t, fb_reasons := rs\<rparr>"
definition fb_set_synthetic :: "bool \<Rightarrow> fake_backend \<Rightarrow> fake_backend" where
  "fb_set_synthetic s b = b\<lparr>fb_synthetic := s\<rparr>"

definition fb_sample :: "fake_backend \<Rightarrow> backend_sample" where
  "fb_sample b = \<lparr>bs_power = fb_power b, bs_temperature = fb_temp b, bs_sm_clock = fb_sm b,
     bs_mem_clock = fb_mem b, bs_utilization = fb_util b, bs_energy_total = fb_energy b,
     bs_power_limit = fb_applied b, bs_throttled = fb_throttled b, bs_throttle_reasons = fb_reasons b,
     bs_provenance = (if fb_synthetic b then DERIVED else MEASURED), bs_source = ''fake''\<rparr>"

definition fb_set_power_limit :: "watts option \<Rightarrow> fake_backend \<Rightarrow> control_result \<times> fake_backend" where
  "fb_set_power_limit limit b = (case limit of
     Some w \<Rightarrow> if \<not> isfinite w \<or> w \<le> Fin 0 then (FAILED, b) else (APPLIED, b\<lparr>fb_applied := limit\<rparr>)
   | None \<Rightarrow> (APPLIED, b\<lparr>fb_applied := None\<rparr>))"

definition fb_restore_power_limit :: "fake_backend \<Rightarrow> control_result \<times> fake_backend" where
  "fb_restore_power_limit b = (APPLIED, b\<lparr>fb_applied := None\<rparr>)"

definition fb_applied_limit :: "fake_backend \<Rightarrow> watts option" where "fb_applied_limit b = fb_applied b"

section \<open>The contract of a backend\<close>

text \<open>
  The part of the contract every backend keeps: a confirmed limit is the one it reports as applied, a
  limit that is not confirmed leaves the reported one, and a confirmed restore clears it. A call may
  also not return at all (undefined behaviour in a driver binding).
\<close>

locale limit_control =
  fixes set_limit :: "watts option \<Rightarrow> 'b \<Rightarrow> (control_result \<times> 'b) res"
    and restore_limit :: "'b \<Rightarrow> (control_result \<times> 'b) res"
    and applied_limit :: "'b \<Rightarrow> watts option"
  assumes set_confirmed: "set_limit l b = Inr (APPLIED, b') \<Longrightarrow> applied_limit b' = l"
    and set_refused: "set_limit l b = Inr (r, b') \<Longrightarrow> r \<noteq> APPLIED \<Longrightarrow> applied_limit b' = applied_limit b"
    and restore_confirmed: "restore_limit b = Inr (APPLIED, b') \<Longrightarrow> applied_limit b' = None"
    and restore_refused: "restore_limit b = Inr (r, b') \<Longrightarrow> r \<noteq> APPLIED \<Longrightarrow> applied_limit b' = applied_limit b"
begin

text \<open>A sequence of limits requested one after the other, with what each call returned.\<close>

fun requests :: "watts option list \<Rightarrow> 'b \<Rightarrow> (control_result list \<times> 'b) res" where
  "requests [] b = Inr ([], b)"
| "requests (l # ls) b = rbind (set_limit l b) (\<lambda>(r, b). rbind (requests ls b) (\<lambda>(rs, b). Inr (r # rs, b)))"

text \<open>The limit reported as applied is the last one that was confirmed.\<close>

definition last_confirmed :: "(watts option \<times> control_result) list \<Rightarrow> watts option \<Rightarrow> watts option" where
  "last_confirmed lrs l0 = foldl (\<lambda>a (l, r). if r = APPLIED then l else a) l0 lrs"

lemma set_applied:
  "set_limit l b = Inr (r, b') \<Longrightarrow> applied_limit b' = (if r = APPLIED then l else applied_limit b)"
  using set_confirmed [of l b b'] set_refused [of l b r b'] by auto

lemma requests_applied:
  "requests ls b = Inr (rs, b') \<Longrightarrow> applied_limit b' = last_confirmed (zip ls rs) (applied_limit b)"
  by (induction ls arbitrary: b rs) (auto simp: last_confirmed_def dest: set_applied)

end

text \<open>A backend that answers every call and whose samples carry the limit it reports.\<close>

locale control_backend = limit_control set_limit restore_limit applied_limit
  for set_limit :: "watts option \<Rightarrow> 'b \<Rightarrow> (control_result \<times> 'b) res"
    and restore_limit :: "'b \<Rightarrow> (control_result \<times> 'b) res"
    and applied_limit :: "'b \<Rightarrow> watts option" +
  fixes sample :: "'b \<Rightarrow> backend_sample"
  assumes sample_limit: "bs_power_limit (sample b) = applied_limit b"
    and set_answers: "\<exists>r b'. set_limit l b = Inr (r, b')"
begin

lemma requests_answer: "\<exists>rs b'. requests ls b = Inr (rs, b') \<and> length rs = length ls"
proof (induction ls arbitrary: b)
  case (Cons l ls)
  obtain r c where "set_limit l b = Inr (r, c)" using set_answers by blast
  with Cons.IH [of c] show ?case by fastforce
qed simp

lemma requests_sampled:
  "\<exists>rs b'. requests ls b = Inr (rs, b') \<and> bs_power_limit (sample b') = last_confirmed (zip ls rs) (applied_limit b)"
  using requests_answer [of ls b] requests_applied [of ls b] by (auto simp: sample_limit)

end

interpretation fake: control_backend "\<lambda>l b. Inr (fb_set_power_limit l b)" "\<lambda>b. Inr (fb_restore_power_limit b)"
    fb_applied_limit fb_sample
  by unfold_locales (auto simp: fb_sample_def fb_set_power_limit_def fb_restore_power_limit_def
      fb_applied_limit_def split: option.splits if_splits)

end
