(* ===== verification/Governor.thy ===== *)
theory Governor
  imports Lifecycle Authority Decision Index History Domain_Tree Burst Backend
begin

text \<open>
  The orchestrator of \<^verbatim>\<open>governor.hpp\<close>: the state behind the lock and one definition per public operation.
  Every operation runs under the exclusive lock, so it is one atomic step on the state. The clock and
  the backend are outside the governor: what they return is an argument. An operation that can leave
  by an exception returns the exception beside the state it leaves behind.
\<close>

section \<open>State\<close>

record governor_config =
  cfg_id :: governor_id
  cfg_node :: node_id
  cfg_boot :: worker_boot_id
  cfg_epoch :: coordinator_epoch

record device_state =
  dev_accel :: accelerator_id
  dev_caps :: backend_capabilities
  dev_latest :: "backend_sample option"
  dev_last_observed :: timestamp
  dev_obs_gen :: observation_generation
  dev_device_gen :: device_generation
  dev_power_window :: power_window
  dev_meter :: energy_meter
  dev_thermal :: thermal_governor
  dev_burst :: burst_budget
  dev_perf :: performance_state_set
  dev_hardware_cap :: "watts option"

definition new_device :: device_state where
  "new_device = \<lparr>dev_accel = id_invalid, dev_caps = default_capabilities, dev_latest = None,
     dev_last_observed = 0, dev_obs_gen = gen_null, dev_device_gen = gen_null,
     dev_power_window = new_power_window 2000000000, dev_meter = new_meter,
     dev_thermal = new_thermal default_thermal id_invalid, dev_burst = new_burst default_burst_limits,
     dev_perf = \<lparr>perf_requested = BALANCED, perf_effective = BALANCED, perf_observed = BALANCED,
       throttling_inferred = False\<rparr>,
     dev_hardware_cap = None\<rparr>"

definition is_thermally_constrained :: "device_state \<Rightarrow> bool" where
  "is_thermally_constrained ds \<longleftrightarrow> th_state (dev_thermal ds) = THERMALLY_CONSTRAINED"

text \<open>The static allocators the governor draws identifiers from.\<close>

record id_counters =
  next_policy :: u64
  next_reservation :: u64
  next_observation :: u64
  next_decision :: u64

record governor =
  gov_cfg :: governor_config
  gov_domains :: domain_tree
  gov_budgets :: budget_manager
  gov_reservations :: reservation_manager
  gov_index :: reservation_index
  gov_policy :: power_policy
  gov_engine :: decision_engine
  gov_authority :: authority_gate
  gov_history :: change_history
  gov_devices :: "(accelerator_id \<times> device_state) list"
  gov_workload_meter :: "(workload_id \<times> energy_meter) list"
  gov_total_meter :: energy_meter
  gov_ids :: id_counters

definition default_accel :: accelerator_id where "default_accel = StrongId 1"

definition id_string :: "'t strong_id \<Rightarrow> string" where "id_string i = dec_digits (unat (raw i))"
definition gen_string :: "'t generation \<Rightarrow> string" where "gen_string g = dec_digits (unat (gen_raw g))"

definition new_governor :: "governor_config \<Rightarrow> id_counters \<Rightarrow> governor" where
  "new_governor cf ids = (let (pid, c) = allocate (next_policy ids) in
     \<lparr>gov_cfg = cf, gov_domains = [], gov_budgets = [], gov_reservations = [], gov_index = empty_index,
      gov_policy = (policy_defaults pid ''default'')\<lparr>pol_generation := gen_null\<rparr>,
      gov_engine = new_engine gen_first, gov_authority = new_gate (cfg_epoch cf) (cfg_boot cf),
      gov_history = new_history 4096, gov_devices = [], gov_workload_meter = [], gov_total_meter = new_meter,
      gov_ids = ids\<lparr>next_policy := c\<rparr>\<rparr>)"

definition log_change :: "change_kind \<Rightarrow> string \<Rightarrow> timestamp \<Rightarrow> governor \<Rightarrow> governor" where
  "log_change k msg t g = g\<lparr>gov_history := h_append k msg t (gov_history g)\<rparr>"

section \<open>Domains, policy and budgets\<close>

definition g_add_domain ::
  "power_domain_id \<Rightarrow> power_domain_type \<Rightarrow> power_domain_id option \<Rightarrow> string \<Rightarrow> bool \<Rightarrow> governor \<Rightarrow>
   (power_domain_id \<times> governor) res" where
  "g_add_domain did ty par nm phys g =
     rbind (domain_add did ty par nm phys (gov_domains g)) (\<lambda>(i, t). Inr (i, g\<lparr>gov_domains := t\<rparr>))"

definition install_policy :: "timestamp \<Rightarrow> power_policy \<Rightarrow> governor \<Rightarrow> bool \<times> governor" where
  "install_policy clk p g =
     (if \<not> is_valid (pol_id p) then (False, g)
      else if pol_generation p \<le> pol_generation (gov_policy g) then (False, g)
      else if class_rules p = [] then (False, g)
      else (True, log_change POLICY_CHANGED (''policy gen '' @ gen_string (pol_generation p)) clk
             (g\<lparr>gov_policy := p, gov_authority := set_policy (pol_generation p) (gov_authority g)\<rparr>)))"

definition install_budget :: "timestamp \<Rightarrow> power_budget \<Rightarrow> governor \<Rightarrow> bool \<times> governor" where
  "install_budget clk b g = (case install b (gov_budgets g) of (done, bm) \<Rightarrow>
     let g' = g\<lparr>gov_budgets := bm\<rparr>
     in (done, if done then log_change BUDGET_CHANGED (''budget '' @ id_string (bud_id b)) clk g' else g'))"

section \<open>Reservations\<close>

definition make_envelope :: "authority_gate \<Rightarrow> authority_envelope" where
  "make_envelope a = \<lparr>env_epoch = gate_epoch a, env_boot = gate_boot a, env_policy = gate_policy a,
     env_budget = gate_budget a, env_reservation = gate_reservation a, env_observation = gate_observation a,
     env_decision = gate_decision a, env_device = gate_device a\<rparr>"

definition plan_reservation ::
  "workload_id \<Rightarrow> workload_power_class \<Rightarrow> power_domain_id \<Rightarrow> budget_id \<Rightarrow> watts \<Rightarrow> joules \<Rightarrow>
   policy_generation \<Rightarrow> device_generation \<Rightarrow> timestamp \<Rightarrow> duration \<Rightarrow> governor \<Rightarrow> res_result \<times> governor"
where
  "plan_reservation wl pc sc b pw energy pol dev now val g =
     (case rm_plan wl pc sc b pw energy pol dev (make_envelope (gov_authority g)) now val
         (next_reservation (gov_ids g)) (gov_reservations g) of (r, ctr, rm) \<Rightarrow>
       let g' = g\<lparr>gov_reservations := rm, gov_ids := (gov_ids g)\<lparr>next_reservation := ctr\<rparr>\<rparr>
       in (r, if ok r
              then log_change RESERVATION_PLANNED (''reservation '' @ id_string (rr_id r) @ '' planned'') now
                     (g'\<lparr>gov_index := index_add (rr_id r) b wl PLANNED (gov_index g')\<rparr>)
              else g'))"

text \<open>The index is told of a new state only where the call succeeded.\<close>

definition update_index_state :: "reservation_id \<Rightarrow> reservation_state \<Rightarrow> governor \<Rightarrow> governor res" where
  "update_index_state rid st g = rbind (rm_get (gov_reservations g) rid) (\<lambda>r.
     Inr (g\<lparr>gov_index := index_set_state rid (res_budget r) (workload r) st (gov_index g)\<rparr>))"

definition index_if_ok ::
  "res_result \<Rightarrow> reservation_id \<Rightarrow> reservation_state \<Rightarrow> governor \<Rightarrow> (res_result \<times> governor) res" where
  "index_if_ok r rid st g =
     (if ok r then rbind (update_index_state rid st g) (\<lambda>g. Inr (r, g)) else Inr (r, g))"

definition validate_reservation ::
  "reservation_id \<Rightarrow> policy_generation \<Rightarrow> timestamp \<Rightarrow> governor \<Rightarrow> (res_result \<times> governor) res" where
  "validate_reservation rid pol now g = rbind (rm_validate rid pol (gov_reservations g)) (\<lambda>(r, rm).
     index_if_ok r rid VALIDATED (g\<lparr>gov_reservations := rm\<rparr>))"

definition reserve_reservation ::
  "reservation_id \<Rightarrow> budget_generation \<Rightarrow> timestamp \<Rightarrow> governor \<Rightarrow> (res_result \<times> governor) res" where
  "reserve_reservation rid bg now g =
     rbind (rm_reserve rid bg now (gov_budgets g) (gov_reservations g)) (\<lambda>(r, bm, rm).
       index_if_ok r rid RESERVED (g\<lparr>gov_budgets := bm, gov_reservations := rm\<rparr>))"

definition admit_reservation :: "reservation_id \<Rightarrow> timestamp \<Rightarrow> governor \<Rightarrow> (res_result \<times> governor) res" where
  "admit_reservation rid now g = rbind (rm_admit rid now (gov_reservations g)) (\<lambda>(r, rm).
     index_if_ok r rid ADMITTED (g\<lparr>gov_reservations := rm\<rparr>))"

definition activate_reservation ::
  "reservation_id \<Rightarrow> budget_generation \<Rightarrow> timestamp \<Rightarrow> governor \<Rightarrow> (res_result \<times> governor) res" where
  "activate_reservation rid bg now g =
     rbind (rm_activate rid bg now (gov_budgets g) (gov_reservations g)) (\<lambda>(r, bm, rm).
       index_if_ok r rid ACTIVE (g\<lparr>gov_budgets := bm, gov_reservations := rm\<rparr>))"

definition release_reservation ::
  "reservation_id \<Rightarrow> budget_generation \<Rightarrow> timestamp \<Rightarrow> governor \<Rightarrow> (res_result \<times> governor) res" where
  "release_reservation rid bg now g =
     rbind (rm_release rid bg now (gov_budgets g) (gov_reservations g)) (\<lambda>(r, bm, rm).
       index_if_ok r rid RELEASED (g\<lparr>gov_budgets := bm, gov_reservations := rm\<rparr>))"

section \<open>Observations\<close>

definition device_of :: "governor \<Rightarrow> device_state" where
  "device_of g = (case map_of (gov_devices g) default_accel of None \<Rightarrow> new_device | Some ds \<Rightarrow> ds)"

definition put_device :: "device_state \<Rightarrow> governor \<Rightarrow> governor" where
  "put_device ds g = g\<lparr>gov_devices := AList.update default_accel ds (gov_devices g)\<rparr>"

text \<open>The power part of an observation. A sample the power window refuses leaves by an exception after
  the device has taken it over as its latest sample.\<close>

definition ingest_power :: "backend_sample \<Rightarrow> timestamp \<Rightarrow> device_state \<Rightarrow> exn option \<times> device_state" where
  "ingest_power s now ds = (case bs_power s of
     None \<Rightarrow> (None, ds)
   | Some p \<Rightarrow>
       let ds = ds\<lparr>dev_latest := Some s, dev_last_observed := now\<rparr>
       in case pw_record now p (dev_power_window ds) of
            (Some e, w) \<Rightarrow> (Some e, ds\<lparr>dev_power_window := w\<rparr>)
          | (None, w) \<Rightarrow> (None, ds\<lparr>dev_power_window := w, dev_hardware_cap := bs_power_limit s\<rparr>))"

definition ingest_thermal :: "backend_sample \<Rightarrow> timestamp \<Rightarrow> device_state \<Rightarrow> governor \<Rightarrow> device_state \<times> governor" where
  "ingest_thermal s now ds g = (case bs_temperature s of
     None \<Rightarrow> (ds, g)
   | Some t \<Rightarrow>
       let th = snd (observe (Some t) now (dev_thermal ds));
           ds = ds\<lparr>dev_thermal := th\<rparr>
       in (ds, if th_state th = THERMALLY_CONSTRAINED
               then log_change DEVICE_THERMALLY_CONSTRAINED ''device thermally constrained'' now g
               else if th_state th = RECOVERING then log_change DEVICE_RECOVERED ''device recovering'' now g
               else g))"

definition ingest ::
  "backend_capabilities \<Rightarrow> backend_sample \<Rightarrow> timestamp \<Rightarrow> governor \<Rightarrow> observation_id res \<times> governor" where
  "ingest bcaps s now g =
     (let og = gen_next (dev_obs_gen (device_of g));
          ds = (device_of g)\<lparr>dev_accel := default_accel, dev_caps := bcaps, dev_obs_gen := og\<rparr>;
          (oid, ctr) = allocate (next_observation (gov_ids g));
          g = g\<lparr>gov_ids := (gov_ids g)\<lparr>next_observation := ctr\<rparr>\<rparr>
      in case ingest_power s now ds of
           (Some e, ds) \<Rightarrow> (Inl e, put_device ds g)
         | (None, ds) \<Rightarrow>
             let (ds, g) = ingest_thermal s now ds g;
                 g = put_device ds g;
                 g = g\<lparr>gov_authority := advance_observation og (gov_authority g)\<rparr>
             in (Inr oid, log_change OBSERVATION_ACCEPTED (''power observation '' @ id_string oid) now g))"

text \<open>\<^verbatim>\<open>poll\<close> samples the backend first; a zero time means the clock's.\<close>

definition poll ::
  "timestamp \<Rightarrow> backend_capabilities \<Rightarrow> backend_sample \<Rightarrow> timestamp \<Rightarrow> governor \<Rightarrow> observation_id res \<times> governor" where
  "poll clk bcaps s now g = ingest bcaps s (if ts_is_zero now then clk else now) g"

section \<open>Decisions\<close>

definition default_input :: decision_input where
  "default_input = \<lparr>di_current_power = Fin 0, di_power_known = False, di_average_power = Fin 0,
     di_average_known = False, di_energy_window_used = Fin 0, di_energy_known = False,
     di_requested_power = Fin 0, di_requested_energy = Fin 0, di_requested_duration_s = Fin 0,
     di_hardware_cap = None, di_budget_available = None, di_soft_target = None, di_thermal_ceiling = None,
     di_thermal_state = TS_UNKNOWN, di_thermal_known = False, di_utilization = Fin 0,
     di_utilization_known = False, di_power_class = THROUGHPUT, di_rule = empty_rule,
     di_policy = empty_policy, di_policy_current = False, di_power_freshness = FS_EXPIRED,
     di_evidence = EP_UNKNOWN, di_hardware_throttled = False, di_in_thermal_recovery = False,
     di_burst_available = False, di_burst_utilization = Fin 0, di_requested_perf = BALANCED,
     di_budget_applied = None, di_parent_budgets = [], di_active_reservations = 0\<rparr>"

definition requested_perf_for :: "workload_power_class \<Rightarrow> performance_state" where
  "requested_perf_for c = (case c of LATENCY_CRITICAL \<Rightarrow> MAX_PERFORMANCE | ENERGY_OPTIMIZED \<Rightarrow> ECO | _ \<Rightarrow> BALANCED)"

definition tighten :: "watts option \<Rightarrow> watts option \<Rightarrow> watts option res" where
  "tighten v cap = (case v of
     Some w \<Rightarrow> if is_non_negative w
       then (case cap of Some c \<Rightarrow> rbind (Watts (std_min c w)) (\<lambda>x. Inr (Some x)) | None \<Rightarrow> Inr v)
       else Inr cap
   | None \<Rightarrow> Inr cap)"

definition device_ptr :: "governor \<Rightarrow> device_state option" where
  "device_ptr g = (case gov_devices g of [] \<Rightarrow> None | (_, ds) # _ \<Rightarrow> Some ds)"

definition hardware_ceiling :: "power_policy \<Rightarrow> device_state option \<Rightarrow> watts option res" where
  "hardware_ceiling p ds =
     rbind (tighten (fleet_hard_cap p) None) (\<lambda>c.
     rbind (tighten (node_hard_cap p) c) (\<lambda>c.
     rbind (tighten (device_hard_cap p) c) (\<lambda>c.
     case ds of Some d \<Rightarrow> tighten (dev_hardware_cap d) c | None \<Rightarrow> Inr c)))"

definition freshness_of :: "power_policy \<Rightarrow> device_state option \<Rightarrow> timestamp \<Rightarrow> freshness_state res" where
  "freshness_of p ds now = (case ds of
     None \<Rightarrow> Inr FS_EXPIRED
   | Some d \<Rightarrow> if ts_is_zero (dev_last_observed d) then Inr FS_EXPIRED
       else classify \<lparr>fresh = observation_freshness p, stale = observation_stale p, expired = observation_expired p\<rparr>
              now (dev_last_observed d))"

text \<open>The temperature the thermal ceiling is derived from: the latest sample's, else the last one known.\<close>

definition ceiling_temperature :: "device_state \<Rightarrow> celsius option" where
  "ceiling_temperature ds = (case dev_latest ds of
     Some s \<Rightarrow> (case bs_temperature s of Some t \<Rightarrow> Some t | None \<Rightarrow> last_temp (dev_thermal ds))
   | None \<Rightarrow> last_temp (dev_thermal ds))"

definition thermal_ceiling :: "device_state \<Rightarrow> watts option \<Rightarrow> watts option res" where
  "thermal_ceiling ds cap = (case cap of
     Some c \<Rightarrow> if is_positive c
       then (case ceiling_temperature ds of
               Some t \<Rightarrow> permitted_power (thresholds (dev_thermal ds)) c (Some t)
             | None \<Rightarrow> Inr None)
       else Inr None
   | None \<Rightarrow> Inr None)"

text \<open>What the device contributes to the input; the burst queries may open a new window of its budget.\<close>

definition device_input ::
  "power_policy \<Rightarrow> device_state \<Rightarrow> watts \<Rightarrow> double \<Rightarrow> timestamp \<Rightarrow> decision_input \<Rightarrow> (decision_input \<times> device_state) res"
where
  "device_input p ds req dur now inp =
     rbind (rbind (average_power (dev_power_window ds)) Watts) (\<lambda>avg.
     rbind (thermal_ceiling ds (di_hardware_cap inp)) (\<lambda>tc.
     rbind (Joules (req * std_max dur (lit 0))) (\<lambda>j.
     rbind (can_burst j now (dev_burst ds)) (\<lambda>(can, bb).
     rbind (burst_utilization now bb) (\<lambda>(util, bb).
     rbind (freshness_of p (Some ds) now) (\<lambda>fs.
     let pw = (case dev_latest ds of Some s \<Rightarrow> bs_power s | None \<Rightarrow> None) in
     Inr (inp\<lparr>di_power_known := pw \<noteq> None,
              di_current_power := (case pw of Some w \<Rightarrow> w | None \<Rightarrow> di_current_power inp),
              di_average_known := 2 \<le> length (pw_samples (dev_power_window ds)),
              di_average_power := avg,
              di_thermal_known := th_state (dev_thermal ds) \<noteq> TS_UNKNOWN,
              di_thermal_state := th_state (dev_thermal ds),
              di_thermal_ceiling := tc,
              di_hardware_throttled := (case dev_latest ds of Some s \<Rightarrow> bs_throttled s | None \<Rightarrow> False),
              di_burst_available := can,
              di_burst_utilization := util,
              di_power_freshness := fs,
              di_evidence := (case dev_latest ds of Some s \<Rightarrow> bs_provenance s | None \<Rightarrow> EP_UNKNOWN)\<rparr>,
          ds\<lparr>dev_burst := bb\<rparr>)))))))"

definition budget_input :: "budget_manager \<Rightarrow> budget_id \<Rightarrow> decision_input \<Rightarrow> decision_input" where
  "budget_input bm b inp = (if is_valid b \<and> has bm b
     then inp\<lparr>di_budget_available := Some (available bm b), di_budget_applied := Some b,
              di_parent_budgets := chain bm b\<rparr>
     else inp)"

definition base_input :: "power_policy \<Rightarrow> workload_power_class \<Rightarrow> watts \<Rightarrow> joules \<Rightarrow> double \<Rightarrow> watts option \<Rightarrow> decision_input" where
  "base_input p c req energy dur cap = default_input\<lparr>di_power_class := c, di_rule := rule_for p c, di_policy := p,
     di_policy_current := True, di_requested_power := req, di_requested_energy := energy,
     di_requested_duration_s := dur, di_requested_perf := requested_perf_for c, di_hardware_cap := cap\<rparr>"

definition complete_input :: "governor \<Rightarrow> budget_id \<Rightarrow> bool \<Rightarrow> decision_input \<Rightarrow> decision_input" where
  "complete_input g b device inp =
     (let p = gov_policy g;
          inp = budget_input (gov_budgets g) b inp;
          inp = (if device \<and> pol_soft_target p \<noteq> None then inp\<lparr>di_soft_target := pol_soft_target p\<rparr> else inp)
      in inp\<lparr>di_active_reservations := active_count (gov_reservations g)\<rparr>)"

definition decision_input_for ::
  "governor \<Rightarrow> budget_id \<Rightarrow> workload_power_class \<Rightarrow> watts \<Rightarrow> joules \<Rightarrow> double \<Rightarrow> timestamp \<Rightarrow>
   (decision_input \<times> device_state option) res"
where
  "decision_input_for g b c req energy dur now =
     rbind (hardware_ceiling (gov_policy g) (device_ptr g)) (\<lambda>cap.
       let inp = base_input (gov_policy g) c req energy dur cap
       in case device_ptr g of
            Some d \<Rightarrow> rbind (device_input (gov_policy g) d req dur now inp) (\<lambda>(inp, d).
              Inr (complete_input g b True inp, Some d))
          | None \<Rightarrow> Inr (complete_input g b False
              (inp\<lparr>di_power_freshness := FS_EXPIRED, di_evidence := EP_UNKNOWN\<rparr>), None))"

definition is_more_restrictive :: "decision_verdict \<Rightarrow> bool" where
  "is_more_restrictive v \<longleftrightarrow> v \<in> {THROTTLE, DEFER, REJECT, ALLOW_WITH_LIMIT, REVALIDATION_REQUIRED}"

definition put_first_device :: "device_state option \<Rightarrow> governor \<Rightarrow> governor" where
  "put_first_device d g = (case (d, gov_devices g) of
     (Some ds, (k, _) # rest) \<Rightarrow> g\<lparr>gov_devices := (k, ds) # rest\<rparr> | _ \<Rightarrow> g)"

definition decide_for ::
  "budget_id \<Rightarrow> workload_id \<Rightarrow> workload_power_class \<Rightarrow> watts \<Rightarrow> joules \<Rightarrow> double \<Rightarrow> timestamp \<Rightarrow> governor \<Rightarrow>
   (decision \<times> governor) res"
where
  "decide_for b wl c req energy dur now g =
     rbind (decision_input_for g b c req energy dur now) (\<lambda>(inp, ds).
     rbind (evaluate inp now (gov_engine g) (next_decision (gov_ids g))) (\<lambda>(d, e, ctr).
     let g = (put_first_device ds g)\<lparr>gov_engine := e, gov_ids := (gov_ids g)\<lparr>next_decision := ctr\<rparr>\<rparr>
     in Inr (d, if is_more_restrictive (dec_verdict d)
                then log_change DECISION_CHANGED
                       (''decision '' @ decision_to_string (dec_verdict d) @ '' '' @ dec_digest d) now g
                else g)))"

section \<open>Energy, control and queries\<close>

definition meter_of :: "governor \<Rightarrow> workload_id \<Rightarrow> energy_meter" where
  "meter_of g wl = (case map_of (gov_workload_meter g) wl of None \<Rightarrow> new_meter | Some m \<Rightarrow> m)"

fun add_to_devices ::
  "joules \<Rightarrow> energy_provenance \<Rightarrow> timestamp \<Rightarrow> (accelerator_id \<times> device_state) list \<Rightarrow>
   (accelerator_id \<times> device_state) list res" where
  "add_to_devices j p t [] = Inr []"
| "add_to_devices j p t ((k, ds) # rest) = rbind (meter_add j p t (dev_meter ds)) (\<lambda>m.
     rbind (add_to_devices j p t rest) (\<lambda>rest. Inr ((k, ds\<lparr>dev_meter := m\<rparr>) # rest)))"

text \<open>The first addition validates the amount; the subscript has created the workload's meter by then.\<close>

definition g_account_energy ::
  "workload_id \<Rightarrow> joules \<Rightarrow> energy_provenance \<Rightarrow> timestamp \<Rightarrow> governor \<Rightarrow> unit res \<times> governor" where
  "g_account_energy wl j p now g =
     (case meter_add j p now (meter_of g wl) of
        Inl e \<Rightarrow> (Inl e, g\<lparr>gov_workload_meter := AList.update wl (meter_of g wl) (gov_workload_meter g)\<rparr>)
      | Inr m \<Rightarrow>
          let g = g\<lparr>gov_workload_meter := AList.update wl m (gov_workload_meter g)\<rparr>
          in case add_to_devices j p now (gov_devices g) of
               Inl e \<Rightarrow> (Inl e, g)
             | Inr ds \<Rightarrow> (case meter_add j p now (gov_total_meter g) of
                 Inl e \<Rightarrow> (Inl e, g\<lparr>gov_devices := ds\<rparr>)
               | Inr t \<Rightarrow> (Inr (), g\<lparr>gov_devices := ds, gov_total_meter := t\<rparr>)))"

text \<open>\<^verbatim>\<open>set_power_limit\<close> calls the backend first and records what it confirmed.\<close>

definition g_set_power_limit ::
  "(watts option \<Rightarrow> 'b \<Rightarrow> (control_result \<times> 'b) res) \<Rightarrow> timestamp \<Rightarrow> watts option \<Rightarrow> 'b \<Rightarrow> governor \<Rightarrow>
   (control_result \<times> 'b \<times> governor) res"
where
  "g_set_power_limit set_limit clk limit b g = rbind (set_limit limit b) (\<lambda>(r, b).
     Inr (r, b, if r = APPLIED
                then log_change POWER_CONTROL_CAPABILITY_CHANGED
                  (case limit of Some w \<Rightarrow> ''power limit set to '' @ format_f w @ unit_name WattsTag
                   | None \<Rightarrow> ''power limit cleared'') clk g
                else g))"

text \<open>\<^verbatim>\<open>restore_power_limit\<close> and \<^verbatim>\<open>applied_limit\<close> only ask the backend: a restore leaves no trace in the history.\<close>

definition g_restore_power_limit ::
  "('b \<Rightarrow> (control_result \<times> 'b) res) \<Rightarrow> 'b \<Rightarrow> governor \<Rightarrow> (control_result \<times> 'b \<times> governor) res" where
  "g_restore_power_limit restore_limit b g = rbind (restore_limit b) (\<lambda>(r, b). Inr (r, b, g))"

definition g_applied_limit :: "('b \<Rightarrow> watts option) \<Rightarrow> 'b \<Rightarrow> watts option" where
  "g_applied_limit applied_limit b = applied_limit b"

definition total_energy :: "governor \<Rightarrow> joules" where
  "total_energy g = em_total (gov_total_meter g)"

definition active_reservations :: "governor \<Rightarrow> nat" where
  "active_reservations g = active_count (gov_reservations g)"

definition reservations_by_budget :: "governor \<Rightarrow> budget_id \<Rightarrow> reservation_id list" where
  "reservations_by_budget g b = by_budget (gov_index g) b"

definition reservation_state_of :: "governor \<Rightarrow> reservation_id \<Rightarrow> reservation_state" where
  "reservation_state_of g rid = rm_state (gov_reservations g) rid"

definition reservation_of :: "governor \<Rightarrow> reservation_id \<Rightarrow> reservation res" where
  "reservation_of g rid = rm_get (gov_reservations g) rid"

definition current_policy :: "governor \<Rightarrow> power_policy" where "current_policy g = gov_policy g"

definition g_has_domain :: "governor \<Rightarrow> power_domain_id \<Rightarrow> bool" where
  "g_has_domain g did \<longleftrightarrow> domain_contains (gov_domains g) did"

definition g_has_budget :: "governor \<Rightarrow> budget_id \<Rightarrow> bool" where
  "g_has_budget g b \<longleftrightarrow> has (gov_budgets g) b"

definition g_budget_available :: "governor \<Rightarrow> budget_id \<Rightarrow> watts" where
  "g_budget_available g b = available (gov_budgets g) b"

text \<open>\<^verbatim>\<open>observe_backend\<close> takes a sample from the caller instead of the backend.\<close>

definition observe_backend ::
  "backend_capabilities \<Rightarrow> backend_sample \<Rightarrow> timestamp \<Rightarrow> governor \<Rightarrow> observation_id res \<times> governor" where
  "observe_backend bcaps s now g = ingest bcaps s now g"

definition g_accounting_consistent :: "timestamp \<Rightarrow> governor \<Rightarrow> bool res" where
  "g_accounting_consistent clk g = (if accounting_consistent (gov_budgets g)
     then audit_no_leaks clk (gov_reservations g) else Inr False)"

definition g_reset_hysteresis :: "governor \<Rightarrow> governor" where
  "g_reset_hysteresis g = g\<lparr>gov_engine := reset_hysteresis (gov_engine g)\<rparr>"

definition forget_telemetry :: "device_state \<Rightarrow> device_state" where
  "forget_telemetry ds = ds\<lparr>dev_latest := None, dev_last_observed := 0, dev_obs_gen := gen_null,
     dev_thermal := th_reset (dev_thermal ds)\<rparr>"

definition invalidate_live_telemetry :: "governor \<Rightarrow> governor" where
  "invalidate_live_telemetry g = g\<lparr>gov_devices := map (\<lambda>(k, ds). (k, forget_telemetry ds)) (gov_devices g)\<rparr>"

end
