(* ===== verification/Governor_Runs.thy ===== *)
theory Governor_Runs
  imports Governor
begin

text \<open>
  Runs of the governor in service: one step per public operation that changes it, in any order, except
  \<^verbatim>\<open>load\<close>, which is for start-up and which Recovery treats on its own, and calls a caller makes on the
  manager \<^verbatim>\<open>budget_manager()\<close> hands out. A \<^verbatim>\<open>save\<close> adds at most an entry to the history, which
  \<open>step_control\<close> covers. Then the refinement of the managers by the governor, and the invariants that tie
  its parts together (index, policy and authority, devices).
\<close>

section \<open>Steps\<close>

inductive gov_step :: "governor \<Rightarrow> governor \<Rightarrow> bool" where
  step_domain: "g_add_domain did ty par nm ph g = Inr (i, g') \<Longrightarrow> gov_step g g'"
| step_policy: "install_policy clk p g = (b, g') \<Longrightarrow> gov_step g g'"
| step_budget: "install_budget clk bud g = (b, g') \<Longrightarrow> gov_step g g'"
| step_plan: "plan_reservation wl pc sc bid pw en pol dev now val g = (r, g') \<Longrightarrow> gov_step g g'"
| step_validate: "validate_reservation rid pol now g = Inr (r, g') \<Longrightarrow> gov_step g g'"
| step_reserve: "reserve_reservation rid bg now g = Inr (r, g') \<Longrightarrow> gov_step g g'"
| step_admit: "admit_reservation rid now g = Inr (r, g') \<Longrightarrow> gov_step g g'"
| step_activate: "activate_reservation rid bg now g = Inr (r, g') \<Longrightarrow> gov_step g g'"
| step_release: "release_reservation rid bg now g = Inr (r, g') \<Longrightarrow> gov_step g g'"
| step_ingest: "ingest bcaps s now g = (oid, g') \<Longrightarrow> gov_step g g'"
| step_decide: "decide_for bid wl pc req en dur now g = Inr (d, g') \<Longrightarrow> gov_step g g'"
| step_energy: "g_account_energy wl j pv now g = (u, g') \<Longrightarrow> gov_step g g'"
| step_control: "gov_step g (log_change k msg clk g)"
| step_hysteresis: "gov_step g (g_reset_hysteresis g)"
| step_invalidate: "gov_step g (invalidate_live_telemetry g)"

inductive gov_run :: "governor \<Rightarrow> governor \<Rightarrow> bool" where
  gov_refl: "gov_run g g"
| gov_trans: "gov_run g h \<Longrightarrow> gov_step h k \<Longrightarrow> gov_run g k"

section \<open>Which part an operation touches\<close>

lemma log_change_simps [simp]:
  "gov_cfg (log_change k m t g) = gov_cfg g" "gov_domains (log_change k m t g) = gov_domains g"
  "gov_budgets (log_change k m t g) = gov_budgets g" "gov_reservations (log_change k m t g) = gov_reservations g"
  "gov_index (log_change k m t g) = gov_index g" "gov_policy (log_change k m t g) = gov_policy g"
  "gov_engine (log_change k m t g) = gov_engine g" "gov_authority (log_change k m t g) = gov_authority g"
  "gov_devices (log_change k m t g) = gov_devices g" "gov_ids (log_change k m t g) = gov_ids g"
  "gov_workload_meter (log_change k m t g) = gov_workload_meter g"
  "gov_total_meter (log_change k m t g) = gov_total_meter g"
  by (simp_all add: log_change_def)

lemma index_if_ok_Inr:
  assumes "index_if_ok r rid st g = Inr (r', g')"
  obtains i where "r' = r" "g' = g\<lparr>gov_index := i\<rparr>"
    "if ok r then \<exists>x. map_of (gov_reservations g) rid = Some x \<and> i = index_set_state rid (res_budget x) (workload x) st (gov_index g)
     else i = gov_index g"
proof (cases "ok r")
  case True
  then show ?thesis using assms that
    by (auto simp: index_if_ok_def update_index_state_def rm_get_def split: option.splits)
next
  case False
  then have "g' = g\<lparr>gov_index := gov_index g\<rparr>" "r' = r" using assms by (auto simp: index_if_ok_def)
  then show ?thesis using that False by simp
qed

text \<open>The managers move together in the way of the lifecycle, or a budget is installed, or nothing moves.\<close>

definition manager_step :: "res_sys \<Rightarrow> res_sys \<Rightarrow> bool" where
  "manager_step s t \<longleftrightarrow> t = s \<or> res_step s t \<or> (\<exists>b. t = (fst s, snd (install b (snd s))))"

abbreviation managers :: "governor \<Rightarrow> res_sys" where
  "managers g \<equiv> (gov_reservations g, gov_budgets g)"

definition same_managers :: "governor \<Rightarrow> governor \<Rightarrow> bool" where
  "same_managers g h \<longleftrightarrow> gov_reservations h = gov_reservations g \<and> gov_budgets h = gov_budgets g \<and>
     gov_index h = gov_index g"

lemma ingest_thermal_same: "ingest_thermal s now ds g = (ds', g') \<Longrightarrow>
    same_managers g g' \<and> gov_policy g' = gov_policy g \<and> gov_authority g' = gov_authority g \<and> gov_devices g' = gov_devices g"
  by (auto simp: ingest_thermal_def same_managers_def Let_def split: option.splits if_splits)

lemma ingest_same:
  assumes "ingest bcaps s now g = (oid, g')"
  shows "same_managers g g' \<and> gov_policy g' = gov_policy g \<and> gate_policy (gov_authority g') = gate_policy (gov_authority g)"
  using assms
  by (auto simp: ingest_def Let_def put_device_def same_managers_def advance_observation_def allocate_def
      split: prod.splits option.splits dest!: ingest_thermal_same)

lemma decide_same:
  assumes "decide_for bid wl pc req en dur now g = Inr (d, g')"
  shows "same_managers g g' \<and> gov_policy g' = gov_policy g \<and> gov_authority g' = gov_authority g"
  using assms
  by (auto simp: decide_for_def Let_def put_first_device_def same_managers_def
      split: prod.splits option.splits list.splits if_splits)

lemma energy_same:
  assumes "g_account_energy wl j pv now g = (u, g')"
  shows "same_managers g g' \<and> gov_policy g' = gov_policy g \<and> gov_authority g' = gov_authority g"
  using assms by (auto simp: g_account_energy_def Let_def same_managers_def split: sum.splits)

lemma lifecycle_parts:
  assumes "index_if_ok r rid st (g\<lparr>gov_budgets := bm, gov_reservations := rm\<rparr>) = Inr (r', g')"
  shows "gov_reservations g' = rm \<and> gov_budgets g' = bm \<and> gov_policy g' = gov_policy g \<and>
    gov_authority g' = gov_authority g \<and> gov_devices g' = gov_devices g"
  using assms by (elim index_if_ok_Inr) simp

lemma lifecycle_parts':
  assumes "index_if_ok r rid st (g\<lparr>gov_reservations := rm\<rparr>) = Inr (r', g')"
  shows "gov_reservations g' = rm \<and> gov_budgets g' = gov_budgets g \<and> gov_policy g' = gov_policy g \<and>
    gov_authority g' = gov_authority g \<and> gov_devices g' = gov_devices g"
  using assms by (elim index_if_ok_Inr) simp

lemmas lifecycle_defs = validate_reservation_def reserve_reservation_def admit_reservation_def
  activate_reservation_def release_reservation_def

lemma index_if_ok_fst: "index_if_ok r rid st g = Inr (r', g') \<Longrightarrow> r' = r"
  by (elim index_if_ok_Inr)

lemma rbind_index2:
  assumes "rbind m (\<lambda>(r, rm). index_if_ok r rid st (f rm)) = Inr (r', g')"
  shows "\<exists>rm. m = Inr (r', rm) \<and> index_if_ok r' rid st (f rm) = Inr (r', g')"
proof -
  obtain r rm where "m = Inr (r, rm)" "index_if_ok r rid st (f rm) = Inr (r', g')" using assms by auto
  with index_if_ok_fst [OF this(2)] show ?thesis by simp
qed

lemma rbind_index3:
  assumes "rbind m (\<lambda>(r, bm, rm). index_if_ok r rid st (f bm rm)) = Inr (r', g')"
  shows "\<exists>bm rm. m = Inr (r', bm, rm) \<and> index_if_ok r' rid st (f bm rm) = Inr (r', g')"
proof -
  obtain r bm rm where "m = Inr (r, bm, rm)" "index_if_ok r rid st (f bm rm) = Inr (r', g')" using assms by auto
  with index_if_ok_fst [OF this(2)] show ?thesis by simp
qed

text \<open>Each lifecycle operation of the governor is the one of the reservation manager, followed by the index.\<close>

lemma lifecycle_decomp:
  "validate_reservation rid pol now g = Inr (r, g') \<Longrightarrow> \<exists>rm. rm_validate rid pol (gov_reservations g) = Inr (r, rm) \<and>
     index_if_ok r rid VALIDATED (g\<lparr>gov_reservations := rm\<rparr>) = Inr (r, g')"
  "reserve_reservation rid bg now g = Inr (r, g') \<Longrightarrow> \<exists>bm rm. rm_reserve rid bg now (gov_budgets g) (gov_reservations g) = Inr (r, bm, rm) \<and>
     index_if_ok r rid RESERVED (g\<lparr>gov_budgets := bm, gov_reservations := rm\<rparr>) = Inr (r, g')"
  "admit_reservation rid now g = Inr (r, g') \<Longrightarrow> \<exists>rm. rm_admit rid now (gov_reservations g) = Inr (r, rm) \<and>
     index_if_ok r rid ADMITTED (g\<lparr>gov_reservations := rm\<rparr>) = Inr (r, g')"
  "activate_reservation rid bg now g = Inr (r, g') \<Longrightarrow> \<exists>bm rm. rm_activate rid bg now (gov_budgets g) (gov_reservations g) = Inr (r, bm, rm) \<and>
     index_if_ok r rid ACTIVE (g\<lparr>gov_budgets := bm, gov_reservations := rm\<rparr>) = Inr (r, g')"
  "release_reservation rid bg now g = Inr (r, g') \<Longrightarrow> \<exists>bm rm. rm_release rid bg now (gov_budgets g) (gov_reservations g) = Inr (r, bm, rm) \<and>
     index_if_ok r rid RELEASED (g\<lparr>gov_budgets := bm, gov_reservations := rm\<rparr>) = Inr (r, g')"
  unfolding lifecycle_defs by (erule rbind_index2 rbind_index3)+

lemma manager_stepI: "res_step s t \<Longrightarrow> manager_step s t"
  by (simp add: manager_step_def)

lemma lifecycle_manager_step:
  "validate_reservation rid pol now g = Inr (r, g') \<Longrightarrow> manager_step (managers g) (managers g')"
  "reserve_reservation rid bg now g = Inr (r, g') \<Longrightarrow> manager_step (managers g) (managers g')"
  "admit_reservation rid now g = Inr (r, g') \<Longrightarrow> manager_step (managers g) (managers g')"
  "activate_reservation rid bg now g = Inr (r, g') \<Longrightarrow> manager_step (managers g) (managers g')"
  "release_reservation rid bg now g = Inr (r, g') \<Longrightarrow> manager_step (managers g) (managers g')"
  by (auto dest!: lifecycle_decomp lifecycle_parts lifecycle_parts' intro!: manager_stepI intro: res_step.intros)

lemma plan_manager_step:
  "plan_reservation wl pc sc bid pw en pol dev now val g = (r, g') \<Longrightarrow> manager_step (managers g) (managers g')"
  by (auto simp: plan_reservation_def Let_def split: prod.splits if_splits
      intro!: manager_stepI intro: res_step.step_plan)

lemma gov_step_managers: "gov_step g g' \<Longrightarrow> manager_step (managers g) (managers g')"
proof (induction rule: gov_step.induct)
  case (step_policy clk p g b g')
  then show ?case by (auto simp: install_policy_def manager_step_def split: if_splits)
next
  case (step_budget clk bud g b g')
  then show ?case by (auto simp: install_budget_def manager_step_def Let_def split: prod.splits if_splits) (metis snd_conv)+
qed (auto simp: g_add_domain_def manager_step_def g_reset_hysteresis_def invalidate_live_telemetry_def
    same_managers_def dest: ingest_same decide_same energy_same plan_manager_step lifecycle_manager_step)

section \<open>The index follows the reservations\<close>

lemma members_add: "map_of (members (index_add rid b w s i)) =
    (if is_valid rid then (map_of (members i))(rid \<mapsto> \<lparr>im_budget = b, im_workload = w, im_state = s\<rparr>)
     else map_of (members i))"
  by (simp add: index_add_def push_lists_def Let_def update_conv')

lemma members_set: "map_of (members (index_set_state rid b w s i)) =
    (if is_valid rid \<or> map_of (members i) rid \<noteq> None
     then (map_of (members i))(rid \<mapsto> \<lparr>im_budget = b, im_workload = w, im_state = s\<rparr>)
     else map_of (members i))"
  by (auto simp: index_set_state_def members_add push_lists_def remove_from_lists_def Let_def update_conv'
      split: option.splits)

text \<open>The entry of a reservation in the index; an expired reservation keeps the entry it had.\<close>

definition entry_ok :: "reservation option \<Rightarrow> index_meta option \<Rightarrow> bool" where
  "entry_ok r m = (case (r, m) of
     (Some r, Some m) \<Rightarrow> im_budget m = res_budget r \<and> im_workload m = workload r \<and>
       (im_state m = state r \<or> state r = EXPIRED)
   | (None, None) \<Rightarrow> True
   | _ \<Rightarrow> False)"

definition linked :: "governor \<Rightarrow> bool" where
  "linked g \<longleftrightarrow> index_run (gov_index g) \<and>
     (\<forall>rid. is_valid rid \<longrightarrow> entry_ok (map_of (gov_reservations g) rid) (map_of (members (gov_index g)) rid)) \<and>
     (\<forall>rid. \<not> is_valid rid \<longrightarrow> map_of (members (gov_index g)) rid = None)"

definition moves :: "reservation_state \<Rightarrow> reservation_id \<Rightarrow> bool \<Rightarrow> reservation_manager \<Rightarrow> reservation_manager \<Rightarrow> bool" where
  "moves st rid okay rm rm' \<longleftrightarrow> (\<exists>r r'. map_of rm rid = Some r \<and> res_budget r' = res_budget r \<and> workload r' = workload r \<and>
     (if okay then rm' = AList.update rid r' rm \<and> state r' = st
      else rm' = rm \<or> rm' = AList.update rid r' rm \<and> state r' = EXPIRED))"

lemma moves_refused: "map_of rm rid = Some r \<Longrightarrow> moves st rid False rm rm"
  unfolding moves_def by auto

lemma moves_expired: "map_of rm rid = Some r \<Longrightarrow> moves st rid False rm (AList.update rid (r\<lparr>state := EXPIRED\<rparr>) rm)"
  unfolding moves_def by (auto intro!: exI [of _ "r\<lparr>state := EXPIRED\<rparr>"])

lemma moves_ok: "map_of rm rid = Some r \<Longrightarrow> res_budget r' = res_budget r \<Longrightarrow> workload r' = workload r \<Longrightarrow>
    state r' = st \<Longrightarrow> moves st rid True rm (AList.update rid r' rm)"
  unfolding moves_def by auto

lemma rm_getE: assumes "rm_get rm rid = Inr r" shows "map_of rm rid = Some r"
  using assms by (simp add: rm_get_def split: option.splits)

lemma rm_moves:
  "rm_validate rid pol rm = Inr (r, rm') \<Longrightarrow> moves VALIDATED rid (ok r) rm rm'"
  "rm_reserve rid bg now bm rm = Inr (r, bm', rm') \<Longrightarrow> moves RESERVED rid (ok r) rm rm'"
  "rm_admit rid now rm = Inr (r, rm') \<Longrightarrow> moves ADMITTED rid (ok r) rm rm'"
  "rm_activate rid bg now bm rm = Inr (r, bm', rm') \<Longrightarrow> moves ACTIVE rid (ok r) rm rm'"
  "rm_release rid bg now bm rm = Inr (r, bm', rm') \<Longrightarrow> moves RELEASED rid (ok r) rm rm'"
  unfolding rm_validate_def rm_reserve_def rm_admit_def rm_activate_def rm_release_def
  by (auto split: if_splits prod.splits dest!: rm_getE simp: Let_def;
      (erule moves_refused | erule moves_expired | (erule moves_ok; simp)))+

lemma entry_update:
  assumes "moves st rid okay rm rm'" "entry_ok (map_of rm x) (map_of ms x)"
    "okay \<Longrightarrow> map_of rm' rid = Some y \<Longrightarrow> map_of ms' = (map_of ms)(rid \<mapsto> \<lparr>im_budget = res_budget y, im_workload = workload y, im_state = st\<rparr>)"
    "\<not> okay \<Longrightarrow> map_of ms' = map_of ms" "okay \<Longrightarrow> map_of rm' rid = Some y"
  shows "entry_ok (map_of rm' x) (map_of ms' x)"
  using assms by (cases okay)
    (auto simp: moves_def entry_ok_def update_conv' split: option.splits if_splits)

lemma linked_moves:
  assumes "linked g" "moves st rid (ok r) (gov_reservations g) rm"
    "index_if_ok r rid st (g\<lparr>gov_budgets := bm, gov_reservations := rm\<rparr>) = Inr (r', g')"
  shows "linked g'"
  using assms(3)
proof (rule index_if_ok_Inr)
  fix i assume i: "r' = r" "g' = g\<lparr>gov_budgets := bm, gov_reservations := rm\<rparr>\<lparr>gov_index := i\<rparr>"
    "if ok r then \<exists>x. map_of (gov_reservations (g\<lparr>gov_budgets := bm, gov_reservations := rm\<rparr>)) rid = Some x \<and>
       i = index_set_state rid (res_budget x) (workload x) st (gov_index (g\<lparr>gov_budgets := bm, gov_reservations := rm\<rparr>))
     else i = gov_index (g\<lparr>gov_budgets := bm, gov_reservations := rm\<rparr>)"
  show "linked g'"
  proof (cases "ok r")
    case False
    then show ?thesis using i assms(1) entry_update [OF assms(2)] by (simp add: linked_def)
  next
    case True
    then obtain x where x: "map_of rm rid = Some x" "i = index_set_state rid (res_budget x) (workload x) st (gov_index g)"
      using i(3) by auto
    have run: "index_run i" unfolding x(2) using assms(1) by (simp add: linked_def index_set)
    have "(is_valid q \<longrightarrow> entry_ok (map_of rm q) (map_of (members i) q)) \<and> (\<not> is_valid q \<longrightarrow> map_of (members i) q = None)" for q
    proof (cases "is_valid rid")
      case True
      then show ?thesis using assms(1) \<open>ok r\<close> x entry_update [OF assms(2), of q "members (gov_index g)" x "members i"]
        by (auto simp: linked_def members_set)
    next
      case False
      then have "map_of (members i) = map_of (members (gov_index g))"
        using assms(1) by (simp add: x(2) members_set linked_def)
      moreover have "q \<noteq> rid \<Longrightarrow> map_of rm q = map_of (gov_reservations g) q"
        using assms(2) by (auto simp: moves_def update_conv' split: if_splits)
      ultimately show ?thesis using assms(1) False by (cases "q = rid") (simp_all add: linked_def)
    qed
    with run show ?thesis by (simp add: i linked_def)
  qed
qed

lemma linked_moves':
  assumes "linked g" "moves st rid (ok r) (gov_reservations g) rm"
    "index_if_ok r rid st (g\<lparr>gov_reservations := rm\<rparr>) = Inr (r', g')"
  shows "linked g'"
  using linked_moves [OF assms(1,2), of "gov_budgets g"] assms(3) by simp

lemma linked_plan:
  assumes "linked g" "plan_reservation wl pc sc bid pw en pol dev now val g = (r, g')"
  shows "linked g'"
proof (cases "map_of (gov_reservations g) (StrongId (next_reservation (gov_ids g)))")
  case None
  let ?rid = "StrongId (next_reservation (gov_ids g)) :: reservation_id"
  have new: "map_of (members (gov_index g)) ?rid = None"
    using assms(1) None unfolding linked_def entry_ok_def
    by (cases "is_valid ?rid") (auto split: option.splits dest!: spec [of _ ?rid])
  obtain x where x: "gov_reservations g' = AList.update ?rid x (gov_reservations g)" "res_budget x = bid" "workload x = wl"
      "state x = PLANNED" "gov_index g' = index_add ?rid bid wl PLANNED (gov_index g)"
    using assms(2) None by (auto simp: plan_reservation_def rm_plan_def allocate_def Let_def)
  then show ?thesis using assms(1) new
    by (simp add: linked_def index_add_new members_add update_conv') (simp add: entry_ok_def)
next
  case (Some x)
  then show ?thesis using assms by (auto simp: plan_reservation_def rm_plan_def allocate_def Let_def linked_def)
qed

lemma linked_same: "linked g \<Longrightarrow> same_managers g g' \<Longrightarrow> linked g'"
  by (simp add: linked_def same_managers_def)

lemma linked_step: "gov_step g g' \<Longrightarrow> linked g \<Longrightarrow> linked g'"
proof (induction rule: gov_step.induct)
  case (step_validate rid pol now g r g')
  then show ?case by (auto dest!: lifecycle_decomp(1) dest: rm_moves(1) intro: linked_moves')
next
  case (step_reserve rid bg now g r g')
  then show ?case by (auto dest!: lifecycle_decomp(2) dest: rm_moves(2) intro: linked_moves)
next
  case (step_admit rid now g r g')
  then show ?case by (auto dest!: lifecycle_decomp(3) dest: rm_moves(3) intro: linked_moves')
next
  case (step_activate rid bg now g r g')
  then show ?case by (auto dest!: lifecycle_decomp(4) dest: rm_moves(4) intro: linked_moves)
next
  case (step_release rid bg now g r g')
  then show ?case by (auto dest!: lifecycle_decomp(5) dest: rm_moves(5) intro: linked_moves)
next
  case (step_plan wl pc sc bid pw en pol dev now val g r g')
  then show ?case by (blast intro: linked_plan)
next
  case (step_ingest bcaps s now g oid g')
  then show ?case by (blast dest: ingest_same intro: linked_same)
next
  case (step_decide bid wl pc req en dur now g d g')
  then show ?case by (blast dest: decide_same intro: linked_same)
next
  case (step_energy wl j pv now g u g')
  then show ?case by (blast dest: energy_same intro: linked_same)
qed (auto simp: g_add_domain_def install_policy_def install_budget_def linked_def g_reset_hysteresis_def
    invalidate_live_telemetry_def Let_def split: if_splits prod.splits)

lemma linked_new: "linked (new_governor cf ids)"
  by (simp add: linked_def new_governor_def allocate_def Let_def index_empty entry_ok_def)
    (simp add: empty_index_def)

lemma linked_run: "gov_run g h \<Longrightarrow> linked g \<Longrightarrow> linked h"
  by (induction rule: gov_run.induct) (auto intro: linked_step)

section \<open>Policy and authority\<close>

definition policy_fenced :: "governor \<Rightarrow> bool" where
  "policy_fenced g \<longleftrightarrow> gate_policy (gov_authority g) = pol_generation (gov_policy g)"

definition policy_le :: "governor \<Rightarrow> governor \<Rightarrow> bool" where
  "policy_le g h \<longleftrightarrow> (pol_generation (gov_policy g) \<le> pol_generation (gov_policy h)) \<and>
     (policy_fenced g \<longrightarrow> policy_fenced h)"

lemma policy_same: "gov_policy h = gov_policy g \<Longrightarrow> gate_policy (gov_authority h) = gate_policy (gov_authority g) \<Longrightarrow> policy_le g h"
  by (simp add: policy_le_def policy_fenced_def)

lemma lifecycle_policy:
  "index_if_ok r rid st (g\<lparr>gov_reservations := rm\<rparr>) = Inr (r', g') \<Longrightarrow> policy_le g g'"
  "index_if_ok r rid st (g\<lparr>gov_budgets := bm, gov_reservations := rm\<rparr>) = Inr (r', g') \<Longrightarrow> policy_le g g'"
  by (auto dest!: lifecycle_parts lifecycle_parts' intro: policy_same)

lemma policy_le_step: "gov_step g h \<Longrightarrow> policy_le g h"
proof (induction rule: gov_step.induct)
  case (step_policy clk p g b g')
  then show ?case by (auto simp: install_policy_def policy_le_def policy_fenced_def set_policy_def split: if_splits)
next
  case (step_validate rid pol now g r g')
  then show ?case by (auto dest!: lifecycle_decomp(1) intro: lifecycle_policy)
next
  case (step_reserve rid bg now g r g')
  then show ?case by (auto dest!: lifecycle_decomp(2) intro: lifecycle_policy)
next
  case (step_admit rid now g r g')
  then show ?case by (auto dest!: lifecycle_decomp(3) intro: lifecycle_policy)
next
  case (step_activate rid bg now g r g')
  then show ?case by (auto dest!: lifecycle_decomp(4) intro: lifecycle_policy)
next
  case (step_release rid bg now g r g')
  then show ?case by (auto dest!: lifecycle_decomp(5) intro: lifecycle_policy)
next
  case (step_ingest bcaps s now g oid g')
  then show ?case by (auto dest!: ingest_same intro: policy_same)
next
  case (step_decide bid wl pc req en dur now g d g')
  then show ?case by (auto dest!: decide_same intro: policy_same)
next
  case (step_energy wl j pv now g u g')
  then show ?case by (auto dest!: energy_same intro: policy_same)
qed (auto simp: g_add_domain_def install_budget_def plan_reservation_def g_reset_hysteresis_def
    invalidate_live_telemetry_def Let_def split: if_splits prod.splits intro: policy_same)

lemma policy_le_run: "gov_run g h \<Longrightarrow> policy_le g h"
proof (induction rule: gov_run.induct)
  case (gov_trans g h k)
  then show ?case using policy_le_step [OF gov_trans.hyps(2)] by (auto simp: policy_le_def)
qed (simp add: policy_le_def)

lemma policy_fenced_new: "policy_fenced (new_governor cf ids)"
  by (simp add: policy_fenced_def new_governor_def allocate_def Let_def new_gate_def)

section \<open>Devices keep their built-in limits\<close>

definition stock_device :: "device_state \<Rightarrow> bool" where
  "stock_device ds \<longleftrightarrow> limits (dev_burst ds) = default_burst_limits \<and> thresholds (dev_thermal ds) = default_thermal"

definition stock_devices :: "governor \<Rightarrow> bool" where
  "stock_devices g \<longleftrightarrow> (\<forall>(k, ds) \<in> set (gov_devices g). stock_device ds)"

lemma stock_new: "stock_device new_device"
  by (simp add: stock_device_def new_device_def new_burst_def new_thermal_def)

lemma set_update_subset: "set (AList.update k v al) \<subseteq> insert (k, v) (set al)"
  by (induction al) auto

lemma stock_put: "stock_devices g \<Longrightarrow> stock_device ds \<Longrightarrow> stock_devices (put_device ds g)"
  using set_update_subset [of default_accel ds "gov_devices g"]
  by (auto simp: stock_devices_def put_device_def)

lemma stock_device_of: "stock_devices g \<Longrightarrow> stock_device (device_of g)"
  by (auto simp: stock_devices_def device_of_def stock_new split: option.splits dest!: map_of_SomeD)

lemma stock_same: "stock_devices g \<Longrightarrow> gov_devices h = gov_devices g \<Longrightarrow> stock_devices h"
  by (simp add: stock_devices_def)

lemma stock_ingest_power: "ingest_power s now ds = (e, ds') \<Longrightarrow> stock_device ds \<Longrightarrow> stock_device ds'"
  by (auto simp: ingest_power_def stock_device_def Let_def split: option.splits prod.splits)

lemma stock_ingest_thermal: "ingest_thermal s now ds g = (ds', g') \<Longrightarrow> stock_device ds \<Longrightarrow> stock_device ds'"
  by (auto simp: ingest_thermal_def stock_device_def Let_def split: option.splits)

lemma stock_ingest:
  assumes "ingest bcaps s now g = (oid, g')" "stock_devices g"
  shows "stock_devices g'"
proof -
  let ?ds = "(device_of g)\<lparr>dev_accel := default_accel, dev_caps := bcaps, dev_obs_gen := gen_next (dev_obs_gen (device_of g))\<rparr>"
  have ds: "stock_device ?ds" using stock_device_of [OF assms(2)] by (simp add: stock_device_def)
  obtain e ds1 where p: "ingest_power s now ?ds = (e, ds1)" by force
  have ds1: "stock_device ds1" using stock_ingest_power [OF p ds] .
  have put: "stock_devices h" if "gov_devices h = AList.update default_accel d (gov_devices g)" "stock_device d" for h d
    using stock_put [OF assms(2) that(2)] that(1) by (simp add: stock_devices_def put_device_def)
  show ?thesis using assms(1) p ds1
    by (auto simp: ingest_def allocate_def Let_def put_device_def split: option.splits prod.splits
        dest: stock_ingest_thermal ingest_thermal_same intro!: put)
qed

lemma stock_burst:
  assumes "stock_device ds"
  shows "can_burst j now (dev_burst ds) = Inr (False, dev_burst ds)"
    "burst_utilization now (dev_burst ds) = Inr (lit 0, dev_burst ds)"
  using assms by (simp_all add: stock_device_def can_burst_def burst_utilization_def default_burst_limits_def)

lemma stock_device_input:
  assumes "device_input p ds req dur now inp = Inr (inp', ds')" "stock_device ds"
  shows "\<not> di_burst_available inp'" "di_burst_utilization inp' = lit 0" "ds' = ds"
    "di_energy_window_used inp' = di_energy_window_used inp"
    "thermal_ceiling ds (di_hardware_cap inp) = Inr (di_thermal_ceiling inp')"
    "di_hardware_cap inp' = di_hardware_cap inp"
  using assms by (auto simp: device_input_def stock_burst [OF assms(2)] Let_def)

lemma stock_decide:
  assumes "decide_for bid wl pc req en dur now g = Inr (d, g')" "stock_devices g"
  shows "stock_devices g'"
proof (cases "gov_devices g")
  case Nil
  then show ?thesis using assms
    by (auto simp: decide_for_def decision_input_for_def device_ptr_def put_first_device_def stock_devices_def
        Let_def split: if_splits)
next
  case (Cons k rest)
  have "stock_device (snd k)" using assms(2) Cons by (auto simp: stock_devices_def)
  with assms Cons have "gov_devices g' = gov_devices g"
    by (cases k) (auto simp: decide_for_def decision_input_for_def device_ptr_def put_first_device_def
        Let_def dest: stock_device_input(3) split: if_splits)
  then show ?thesis using assms(2) by (simp add: stock_devices_def)
qed

lemma stock_add_to_devices:
  "add_to_devices j p t ds = Inr ds' \<Longrightarrow> \<forall>(k, d) \<in> set ds. stock_device d \<Longrightarrow> \<forall>(k, d) \<in> set ds'. stock_device d"
proof (induction ds arbitrary: ds')
  case (Cons d ds)
  then show ?case by (cases d) (fastforce simp: stock_device_def)
qed simp

lemma stock_energy: "g_account_energy wl j pv now g = (u, g') \<Longrightarrow> stock_devices g \<Longrightarrow> stock_devices g'"
  by (auto simp: g_account_energy_def stock_devices_def Let_def split: sum.splits dest!: stock_add_to_devices)

lemma lifecycle_devices:
  "index_if_ok r rid st (g\<lparr>gov_reservations := rm\<rparr>) = Inr (r', g') \<Longrightarrow> stock_devices g \<Longrightarrow> stock_devices g'"
  "index_if_ok r rid st (g\<lparr>gov_budgets := bm, gov_reservations := rm\<rparr>) = Inr (r', g') \<Longrightarrow> stock_devices g \<Longrightarrow> stock_devices g'"
  by (auto dest!: lifecycle_parts lifecycle_parts' intro: stock_same)

lemma stock_step: "gov_step g h \<Longrightarrow> stock_devices g \<Longrightarrow> stock_devices h"
proof (induction rule: gov_step.induct)
  case (step_validate rid pol now g r g')
  then show ?case by (auto dest!: lifecycle_decomp(1) intro: lifecycle_devices)
next
  case (step_reserve rid bg now g r g')
  then show ?case by (auto dest!: lifecycle_decomp(2) intro: lifecycle_devices)
next
  case (step_admit rid now g r g')
  then show ?case by (auto dest!: lifecycle_decomp(3) intro: lifecycle_devices)
next
  case (step_activate rid bg now g r g')
  then show ?case by (auto dest!: lifecycle_decomp(4) intro: lifecycle_devices)
next
  case (step_release rid bg now g r g')
  then show ?case by (auto dest!: lifecycle_decomp(5) intro: lifecycle_devices)
next
  case (step_invalidate g)
  then show ?case by (auto simp: invalidate_live_telemetry_def forget_telemetry_def stock_devices_def
      stock_device_def th_reset_def)
qed (auto simp: g_add_domain_def install_policy_def install_budget_def plan_reservation_def g_reset_hysteresis_def
    Let_def split: if_splits prod.splits intro: stock_same stock_ingest stock_decide stock_energy)

lemma stock_run: "gov_run g h \<Longrightarrow> stock_devices g \<Longrightarrow> stock_devices h"
  by (induction rule: gov_run.induct) (auto intro: stock_step)

lemma stock_new_governor: "stock_devices (new_governor cf ids)"
  by (simp add: stock_devices_def new_governor_def allocate_def Let_def)

end
