(* ===== verification/Governor_Safety.thy ===== *)
theory Governor_Safety
  imports Governor_Runs
begin

text \<open>
  What the decisions of the governor guarantee: the input it assembles carries every cap in force, so
  the engine's safety lifts to the policy, the budgets and the telemetry the governor holds.
\<close>

section \<open>The caps of an assembled input\<close>

definition cap_ok :: "watts option \<Rightarrow> bool" where
  "cap_ok c \<longleftrightarrow> (case c of Some w \<Rightarrow> quantity_ok w | None \<Rightarrow> True)"

definition policy_caps_ok :: "power_policy \<Rightarrow> bool" where
  "policy_caps_ok p \<longleftrightarrow> cap_ok (fleet_hard_cap p) \<and> cap_ok (node_hard_cap p) \<and> cap_ok (device_hard_cap p)"

definition below :: "watts option \<Rightarrow> watts option \<Rightarrow> bool" where
  "below c w \<longleftrightarrow> (case w of None \<Rightarrow> True | Some x \<Rightarrow> (\<exists>y. c = Some y \<and> y \<le> x))"

lemma tighten_Inr:
  assumes "tighten v c = Inr d" "cap_ok v" "cap_ok c"
  shows "cap_ok d \<and> below d v \<and> below d c \<and> (d = v \<or> d = c)"
  using assms
  by (auto simp: tighten_def cap_ok_def below_def std_min_def is_non_negative_def split: option.splits if_splits
      elim!: quantity_okE)

lemma below_trans: "below c d \<Longrightarrow> below d e \<Longrightarrow> below c e"
  unfolding below_def using double_le_trans by (fastforce split: option.splits)

lemma hardware_ceiling_Inr:
  assumes "hardware_ceiling p ds = Inr c" "policy_caps_ok p" "\<forall>d. ds = Some d \<longrightarrow> cap_ok (dev_hardware_cap d)"
  shows "cap_ok c \<and> below c (fleet_hard_cap p) \<and> below c (node_hard_cap p) \<and> below c (device_hard_cap p) \<and>
    (\<forall>d. ds = Some d \<longrightarrow> below c (dev_hardware_cap d))"
proof -
  obtain c1 c2 c3 where c: "tighten (fleet_hard_cap p) None = Inr c1" "tighten (node_hard_cap p) c1 = Inr c2"
      "tighten (device_hard_cap p) c2 = Inr c3"
      "(case ds of Some d \<Rightarrow> tighten (dev_hardware_cap d) c3 | None \<Rightarrow> Inr c3) = Inr c"
    using assms(1) by (auto simp: hardware_ceiling_def)
  have 1: "cap_ok c1 \<and> below c1 (fleet_hard_cap p)"
    using tighten_Inr [OF c(1)] assms(2) by (simp add: policy_caps_ok_def cap_ok_def)
  have 2: "cap_ok c2 \<and> below c2 (node_hard_cap p) \<and> below c2 c1"
    using tighten_Inr [OF c(2)] assms(2) 1 by (simp add: policy_caps_ok_def)
  have 3: "cap_ok c3 \<and> below c3 (device_hard_cap p) \<and> below c3 c2"
    using tighten_Inr [OF c(3)] assms(2) 2 by (simp add: policy_caps_ok_def)
  have 4: "cap_ok c \<and> below c c3 \<and> (\<forall>d. ds = Some d \<longrightarrow> below c (dev_hardware_cap d))"
  proof (cases ds)
    case None
    then show ?thesis using c(4) 3 by (auto simp: below_def split: option.splits elim: quantity_okE simp: cap_ok_def)
  next
    case (Some d)
    then show ?thesis using tighten_Inr [of "dev_hardware_cap d" c3 c] c(4) 3 assms(3) by simp
  qed
  show ?thesis using 1 2 3 4 below_trans by blast
qed

lemma mul_quantity_ok: assumes "quantity_ok c" "isfinite (c * h)" "Fin 0 \<le> c * h" shows "quantity_ok (c * h)"
proof -
  obtain a where a: "c = Fin a" using assms(1) by (rule quantity_okE)
  have "\<exists>b. h = Fin b" using assms(2) a by (cases h) (auto simp: times_double_def signed_inf_def split: if_splits)
  then obtain b where "h = Fin b" by blast
  then have m: "c * h = rnd64 (a * b)" using a by simp
  obtain r where "rnd64 (a * b) = Fin r" using assms(2) m by auto
  then show ?thesis using assms(3) m b64.rnd_closed by simp
qed

lemma permitted_power_ok: "permitted_power th c t = Inr r \<Longrightarrow> quantity_ok c \<Longrightarrow> cap_ok r"
  by (auto simp: permitted_power_def cap_ok_def mul_quantity_ok split: option.splits)

lemma thermal_ceiling_ok: "thermal_ceiling ds cap = Inr r \<Longrightarrow> cap_ok cap \<Longrightarrow> cap_ok r"
  by (auto simp: thermal_ceiling_def split: option.splits if_splits dest!: permitted_power_ok)
    (auto simp: cap_ok_def)

lemma own_available_ok: "state_ok s \<Longrightarrow> quantity_ok (own_available s)"
proof -
  assume "state_ok s"
  then obtain h r u where "hard_max (cfg s) = Fin h" "reserved s = Fin r" "used s = Fin u"
    by (auto simp: state_ok_def elim!: quantity_okE)
  then show ?thesis
    using b64.rnd_closed b64.grid_zero
    by (cases "rnd64 (h - r)") (auto simp: own_available_def clamped_def minus_double_def)
qed

lemma available_loop_ok:
  "wf_bm bm \<Longrightarrow> quantity_ok v \<Longrightarrow> quantity_ok (available_loop bm v bs)"
proof (induction bs arbitrary: v)
  case (Cons b bs)
  show ?case
  proof (cases "map_of bm b")
    case (Some s)
    then have "quantity_ok (std_min v (own_available s))"
      using Cons.prems own_available_ok wf_bmD by (simp add: std_min_def)
    then show ?thesis using Cons Some by simp
  qed (simp add: b64.grid_zero)
qed simp

lemma available_ok: "wf_bm bm \<Longrightarrow> quantity_ok (available bm b)"
  by (auto simp: available_def b64.grid_zero split: option.splits intro: available_loop_ok own_available_ok wf_bmD)

section \<open>The assembled input\<close>

lemma device_input_Inr:
  assumes "device_input p ds req dur now inp = Inr (inp', ds')"
  obtains avg tc util bb can fs where
    "thermal_ceiling ds (di_hardware_cap inp) = Inr tc" "freshness_of p (Some ds) now = Inr fs"
    "can_burst (req * std_max dur (lit 0)) now (dev_burst ds) = Inr (can, bb)"
    "di_thermal_ceiling inp' = tc" "di_power_freshness inp' = fs" "di_burst_available inp' = can"
    "di_thermal_known inp' = (th_state (dev_thermal ds) \<noteq> TS_UNKNOWN)" "di_thermal_state inp' = th_state (dev_thermal ds)"
    "di_hardware_cap inp' = di_hardware_cap inp" "di_requested_power inp' = di_requested_power inp"
    "di_policy_current inp' = di_policy_current inp" "di_budget_available inp' = di_budget_available inp"
    "di_energy_window_used inp' = di_energy_window_used inp" "di_policy inp' = di_policy inp"
    "dev_thermal ds' = dev_thermal ds"
  using assms by (fastforce simp: device_input_def Let_def)

lemma complete_input_simps:
  "di_hardware_cap (complete_input g b v i) = di_hardware_cap i" "di_requested_power (complete_input g b v i) = di_requested_power i"
  "di_energy_window_used (complete_input g b v i) = di_energy_window_used i"
  "di_power_freshness (complete_input g b v i) = di_power_freshness i"
  "di_thermal_ceiling (complete_input g b v i) = di_thermal_ceiling i" "di_burst_available (complete_input g b v i) = di_burst_available i"
  "di_thermal_known (complete_input g b v i) = di_thermal_known i" "di_thermal_state (complete_input g b v i) = di_thermal_state i"
  "di_budget_available (complete_input g b v i) =
     (if is_valid b \<and> has (gov_budgets g) b then Some (available (gov_budgets g) b) else di_budget_available i)"
  by (simp_all add: complete_input_def budget_input_def Let_def)

lemma base_input_simps:
  "di_hardware_cap (base_input p c req e dur cap) = cap" "di_requested_power (base_input p c req e dur cap) = req"
  "di_energy_window_used (base_input p c req e dur cap) = Fin 0" "di_thermal_ceiling (base_input p c req e dur cap) = None"
  "\<not> di_burst_available (base_input p c req e dur cap)" "di_budget_available (base_input p c req e dur cap) = None"
  by (simp_all add: base_input_def default_input_def)

lemma decision_input_parts:
  assumes "decision_input_for g b c req energy dur now = Inr (inp, d)"
  shows "hardware_ceiling (gov_policy g) (device_ptr g) = Inr (di_hardware_cap inp)" "di_requested_power inp = req"
    "di_energy_window_used inp = Fin 0"
    "di_budget_available inp = (if is_valid b \<and> has (gov_budgets g) b then Some (available (gov_budgets g) b) else None)"
    "case device_ptr g of
       None \<Rightarrow> d = None \<and> di_power_freshness inp = FS_EXPIRED \<and> di_thermal_ceiling inp = None \<and> \<not> di_burst_available inp
     | Some ds \<Rightarrow> (\<exists>ds'. d = Some ds' \<and> dev_thermal ds' = dev_thermal ds) \<and>
         freshness_of (gov_policy g) (Some ds) now = Inr (di_power_freshness inp) \<and>
         thermal_ceiling ds (di_hardware_cap inp) = Inr (di_thermal_ceiling inp) \<and>
         (\<exists>j bb. can_burst j now (dev_burst ds) = Inr (di_burst_available inp, bb)) \<and>
         di_thermal_known inp = (th_state (dev_thermal ds) \<noteq> TS_UNKNOWN) \<and> di_thermal_state inp = th_state (dev_thermal ds)"
proof -
  let ?inp = "base_input (gov_policy g) c req energy dur"
  obtain cap where cap: "hardware_ceiling (gov_policy g) (device_ptr g) = Inr cap"
    using assms unfolding decision_input_for_def by (elim rbind_InrE)
  have "di_hardware_cap inp = cap \<and> di_requested_power inp = req \<and> di_energy_window_used inp = Fin 0 \<and>
    di_budget_available inp = (if is_valid b \<and> has (gov_budgets g) b then Some (available (gov_budgets g) b) else None) \<and>
    (case device_ptr g of
       None \<Rightarrow> d = None \<and> di_power_freshness inp = FS_EXPIRED \<and> di_thermal_ceiling inp = None \<and> \<not> di_burst_available inp
     | Some ds \<Rightarrow> (\<exists>ds'. d = Some ds' \<and> dev_thermal ds' = dev_thermal ds) \<and>
         freshness_of (gov_policy g) (Some ds) now = Inr (di_power_freshness inp) \<and>
         thermal_ceiling ds (di_hardware_cap inp) = Inr (di_thermal_ceiling inp) \<and>
         (\<exists>j bb. can_burst j now (dev_burst ds) = Inr (di_burst_available inp, bb)) \<and>
         di_thermal_known inp = (th_state (dev_thermal ds) \<noteq> TS_UNKNOWN) \<and> di_thermal_state inp = th_state (dev_thermal ds))"
  proof (cases "device_ptr g")
    case None
    then have "inp = complete_input g b False (?inp cap\<lparr>di_power_freshness := FS_EXPIRED, di_evidence := EP_UNKNOWN\<rparr>)" "d = None"
      using assms cap by (simp_all add: decision_input_for_def)
    then show ?thesis using None by (simp add: complete_input_simps base_input_simps)
  next
    case (Some ds)
    then obtain i ds' where i: "device_input (gov_policy g) ds req dur now (?inp cap) = Inr (i, ds')"
        "inp = complete_input g b True i" "d = Some ds'"
      using assms cap by (auto simp: decision_input_for_def)
    show ?thesis using i(1)
      by (rule device_input_Inr) (use Some i(2,3) in \<open>auto simp: complete_input_simps base_input_simps\<close>)
  qed
  with cap show "hardware_ceiling (gov_policy g) (device_ptr g) = Inr (di_hardware_cap inp)" "di_requested_power inp = req"
    "di_energy_window_used inp = Fin 0"
    "di_budget_available inp = (if is_valid b \<and> has (gov_budgets g) b then Some (available (gov_budgets g) b) else None)"
    "case device_ptr g of
       None \<Rightarrow> d = None \<and> di_power_freshness inp = FS_EXPIRED \<and> di_thermal_ceiling inp = None \<and> \<not> di_burst_available inp
     | Some ds \<Rightarrow> (\<exists>ds'. d = Some ds' \<and> dev_thermal ds' = dev_thermal ds) \<and>
         freshness_of (gov_policy g) (Some ds) now = Inr (di_power_freshness inp) \<and>
         thermal_ceiling ds (di_hardware_cap inp) = Inr (di_thermal_ceiling inp) \<and>
         (\<exists>j bb. can_burst j now (dev_burst ds) = Inr (di_burst_available inp, bb)) \<and>
         di_thermal_known inp = (th_state (dev_thermal ds) \<noteq> TS_UNKNOWN) \<and> di_thermal_state inp = th_state (dev_thermal ds)"
    by blast+
qed

text \<open>What a governor holds that the C++ constructors have validated.\<close>

definition holdings_ok :: "governor \<Rightarrow> bool" where
  "holdings_ok g \<longleftrightarrow> policy_caps_ok (gov_policy g) \<and> wf_bm (gov_budgets g) \<and>
     (\<forall>ds. device_ptr g = Some ds \<longrightarrow> cap_ok (dev_hardware_cap ds))"

text \<open>The caps a decision has to respect.\<close>

definition caps_in_force :: "governor \<Rightarrow> budget_id \<Rightarrow> watts option list" where
  "caps_in_force g b = [fleet_hard_cap (gov_policy g), node_hard_cap (gov_policy g), device_hard_cap (gov_policy g),
     (case device_ptr g of Some ds \<Rightarrow> dev_hardware_cap ds | None \<Rightarrow> None),
     (if is_valid b \<and> has (gov_budgets g) b then Some (available (gov_budgets g) b) else None)]"

lemma decision_input_Inr:
  assumes "decision_input_for g b c req energy dur now = Inr (inp, d)" "holdings_ok g" "quantity_ok req"
  shows "input_ok inp" "di_requested_power inp = req"
    "\<forall>w. Some w \<in> set (caps_in_force g b) \<longrightarrow> (\<exists>y \<in> set (Decision.caps inp). y \<le> w) \<and> quantity_ok w"
    "case device_ptr g of None \<Rightarrow> di_power_freshness inp = FS_EXPIRED
     | Some ds \<Rightarrow> freshness_of (gov_policy g) (Some ds) now = Inr (di_power_freshness inp) \<and>
         di_thermal_known inp = (th_state (dev_thermal ds) \<noteq> TS_UNKNOWN) \<and> di_thermal_state inp = th_state (dev_thermal ds)"
proof -
  let ?p = "gov_policy g"
  let ?cap = "di_hardware_cap inp"
  note parts = decision_input_parts [OF assms(1)]
  have hc: "cap_ok ?cap" "below ?cap (fleet_hard_cap ?p)" "below ?cap (node_hard_cap ?p)" "below ?cap (device_hard_cap ?p)"
      "\<forall>ds. device_ptr g = Some ds \<longrightarrow> below ?cap (dev_hardware_cap ds)"
    using hardware_ceiling_Inr [OF parts(1)] assms(2) by (simp_all add: holdings_ok_def)
  have tc: "cap_ok (di_thermal_ceiling inp)"
    using parts(5) hc(1) thermal_ceiling_ok by (cases "device_ptr g") (auto simp: cap_ok_def)
  have av: "quantity_ok (available (gov_budgets g) b)" using assms(2) available_ok by (simp add: holdings_ok_def)
  show "input_ok inp" "di_requested_power inp = req"
    using parts(2,4) tc hc(1) av assms(3) by (auto simp: input_ok_def caps_def cap_ok_def split: option.splits if_splits)
  show "case device_ptr g of None \<Rightarrow> di_power_freshness inp = FS_EXPIRED
     | Some ds \<Rightarrow> freshness_of ?p (Some ds) now = Inr (di_power_freshness inp) \<and>
         di_thermal_known inp = (th_state (dev_thermal ds) \<noteq> TS_UNKNOWN) \<and> di_thermal_state inp = th_state (dev_thermal ds)"
    using parts(5) by (cases "device_ptr g") simp_all
  have hw: "\<exists>y \<in> set (Decision.caps inp). y \<le> w" if "below ?cap (Some w)" for w
    using that by (auto simp: below_def caps_def)
  have av': "\<exists>y \<in> set (Decision.caps inp). y \<le> available (gov_budgets g) b" if "is_valid b \<and> has (gov_budgets g) b"
    using that parts(4) av by (auto simp: caps_def elim!: quantity_okE)
  have ok: "cap_ok x" if "x \<in> set (caps_in_force g b)" for x
    using that assms(2) av by (auto simp: caps_in_force_def holdings_ok_def policy_caps_ok_def cap_ok_def split: option.splits if_splits)
  show "\<forall>w. Some w \<in> set (caps_in_force g b) \<longrightarrow> (\<exists>y \<in> set (Decision.caps inp). y \<le> w) \<and> quantity_ok w"
  proof (intro allI impI)
    fix w assume w: "Some w \<in> set (caps_in_force g b)"
    then have "quantity_ok w" using ok [OF w] by (simp add: cap_ok_def)
    moreover have "\<exists>y \<in> set (Decision.caps inp). y \<le> w"
      using w hc hw av' by (auto simp: caps_in_force_def split: option.splits if_splits)
    ultimately show "(\<exists>y \<in> set (Decision.caps inp). y \<le> w) \<and> quantity_ok w" by simp
  qed
qed

lemma decision_device_cap:
  assumes "decision_input_for g b c req en dur t = Inr (inp, Some ds)"
  shows "\<exists>d0. device_ptr g = Some d0 \<and> dev_hardware_cap ds = dev_hardware_cap d0"
  using assms by (auto simp: decision_input_for_def device_input_def Let_def split: option.splits)

lemma decision_soft_target:
  assumes "decision_input_for g b c req en dur t = Inr (inp, ds)"
  shows "di_soft_target inp = None \<or> di_soft_target inp = pol_soft_target (gov_policy g)"
  using assms
  by (auto simp: decision_input_for_def device_input_def complete_input_def budget_input_def base_input_def default_input_def Let_def
      split: option.splits)

lemma decide_forE:
  assumes "decide_for b wl c req energy dur now g = Inr (d, g')"
  obtains inp ds e ctr where "decision_input_for g b c req energy dur now = Inr (inp, ds)"
    "evaluate inp now (gov_engine g) (next_decision (gov_ids g)) = Inr (d, e, ctr)" "gov_engine g' = e"
    "gov_devices g' = gov_devices (put_first_device ds g)"
proof -
  obtain inp ds e ctr where 1: "decision_input_for g b c req energy dur now = Inr (inp, ds)"
      "evaluate inp now (gov_engine g) (next_decision (gov_ids g)) = Inr (d, e, ctr)"
    and 2: "g' = (let g = (put_first_device ds g)\<lparr>gov_engine := e, gov_ids := (gov_ids g)\<lparr>next_decision := ctr\<rparr>\<rparr>
      in if is_more_restrictive (dec_verdict d)
         then log_change DECISION_CHANGED (''decision '' @ decision_to_string (dec_verdict d) @ '' '' @ dec_digest d) now g
         else g)"
    using assms by (auto simp: decide_for_def Let_def)
  from 2 have "gov_engine g' = e" "gov_devices g' = gov_devices (put_first_device ds g)" by (simp_all add: Let_def)
  with 1 that show thesis by blast
qed

lemma over_mono: "quantity_ok y \<Longrightarrow> quantity_ok w \<Longrightarrow> y \<le> w \<Longrightarrow> \<not> y + eps9 < r \<Longrightarrow> \<not> w + eps9 < r"
  using add_eps_mono double_le_less_trans by blast

section \<open>A concrete governor\<close>

definition demo_governor :: "id_counters \<Rightarrow> governor" where
  "demo_governor ids = (let g = new_governor \<lparr>cfg_id = StrongId 1, cfg_node = StrongId 1, cfg_boot = StrongId 1,
       cfg_epoch = gen_first\<rparr> ids
     in g\<lparr>gov_policy := (gov_policy g)\<lparr>device_hard_cap := Some (Fin 400)\<rparr>,
          gov_devices := [(default_accel, new_device\<lparr>dev_latest := Some (empty_sample\<lparr>bs_power := Some (Fin 92)\<rparr>),
            dev_last_observed := 5\<rparr>)]\<rparr>)"

definition demo_ids :: id_counters where
  "demo_ids = \<lparr>next_policy = 1, next_reservation = 1, next_observation = 1, next_decision = 1\<rparr>"

lemmas demo_gov_defs = demo_governor_def new_governor_def allocate_def policy_defaults_def empty_policy_def
  device_ptr_def new_device_def

lemma demo_holdings: "holdings_ok (demo_governor ids)"
  using grid64_int [of 400]
  by (simp add: holdings_ok_def policy_caps_ok_def cap_ok_def wf_bm_def demo_gov_defs Let_def)

lemma demo_decision:
  assumes "now \<in> {0, 5}" "dur \<in> {Fin 0, Fin 1}"
  shows "\<exists>d g'. decide_for id_invalid wl c (Fin 100) (Fin 0) dur now (demo_governor demo_ids) = Inr (d, g') \<and> dec_verdict d = ALLOW"
proof -
  let ?g = "demo_governor demo_ids"
  have "Fin 400 \<le> rnd64 (400 + eps9_val)" using grid64_int [of 400] eps9_bounds by (intro b64.rnd_add_ge) auto
  then have le: "\<not> rnd64 (400 + eps9_val) < Fin 100" by (cases "rnd64 (400 + eps9_val)") auto
  have i: "\<exists>inp d. decision_input_for ?g id_invalid c (Fin 100) (Fin 0) dur now = Inr (inp, d) \<and>
      di_policy_current inp \<and> di_power_freshness inp = CURRENT \<and> \<not> di_thermal_known inp \<and> di_soft_target inp = None \<and>
      di_hardware_cap inp = Some (Fin 400) \<and> di_budget_available inp = None \<and> di_thermal_ceiling inp = None \<and>
      di_requested_power inp = Fin 100 \<and> di_policy inp = gov_policy ?g"
    using assms by (elim insertE emptyE; simp add: decision_input_for_def complete_input_def base_input_def demo_gov_defs Let_def hardware_ceiling_def tighten_def is_non_negative_def
        device_input_def average_power_def new_power_window_def thermal_ceiling_def is_positive_def
        ceiling_temperature_def empty_sample_def new_thermal_def std_max_def can_burst_def new_burst_def
        default_burst_limits_def burst_utilization_def freshness_of_def ts_is_zero_def classify_def age_of_def
        elapsed_since_def Duration_def kMaxNs_def age_from_duration_def budget_input_def id_invalid_def is_valid_def
        default_input_def)
  then obtain inp d where inp: "decision_input_for ?g id_invalid c (Fin 100) (Fin 0) dur now = Inr (inp, d)"
      "di_policy_current inp" "di_power_freshness inp = CURRENT" "\<not> di_thermal_known inp" "di_soft_target inp = None"
      "di_hardware_cap inp = Some (Fin 400)" "di_budget_available inp = None" "di_thermal_ceiling inp = None"
      "di_requested_power inp = Fin 100" "di_policy inp = gov_policy ?g" by blast
  have lim: "hard_limit inp = (Some (Fin 400), ''device_hard_cap'')"
    using inp by (simp add: hard_limit_def consider_cap_def is_non_negative_def)
  have "early_verdict inp = None"
    using inp le by (simp add: early_verdict_def lim Let_def ceiling_of_def eps9_Fin)
      (simp add: demo_gov_defs Let_def default_energy_window_def)
  then have "\<exists>rs l bk. judge inp now (gov_engine ?g) = Inr (ALLOW, rs, l, bk)"
    by (simp add: judge_def default_verdict_def lim demo_gov_defs Let_def new_engine_def)
  then show ?thesis
    by (auto simp: decide_for_def inp(1) evaluate_def make_verdict_def allocate_def Let_def)
qed

section \<open>Properties\<close>

text \<open>An ALLOW of a governor whose quantities are valid: there is a device, its telemetry and its thermal state are
  acceptable, and no cap in force is exceeded by more than the tolerance.\<close>

lemma holdings_allow_safe:
  assumes "holdings_ok g" "quantity_ok req" "decide_for b wl c req energy dur now g = Inr (d, g')" "dec_verdict d = ALLOW"
  shows "(\<exists>ds fs. device_ptr g = Some ds \<and> freshness_of (gov_policy g) (Some ds) now = Inr fs \<and> fs \<in> {CURRENT, AGING} \<and>
      th_state (dev_thermal ds) \<notin> {THERMALLY_CONSTRAINED, RECOVERING}) \<and>
    (\<forall>w. Some w \<in> set (caps_in_force g b) \<longrightarrow> \<not> w + eps9 < req)"
  using assms(3)
proof (rule decide_forE)
  fix inp ds e ctr
  assume i: "decision_input_for g b c req energy dur now = Inr (inp, ds)"
    and ev: "evaluate inp now (gov_engine g) (next_decision (gov_ids g)) = Inr (d, e, ctr)"
  note a = decision_input_Inr [OF i assms(1,2)]
  note safe = allow_implies [OF a(1) ev assms(4)]
  from safe a(4) have "\<exists>ds fs. device_ptr g = Some ds \<and> freshness_of (gov_policy g) (Some ds) now = Inr fs \<and>
      fs \<in> {CURRENT, AGING} \<and> th_state (dev_thermal ds) \<notin> {THERMALLY_CONSTRAINED, RECOVERING}"
    by (cases "device_ptr g"; cases "di_power_freshness inp") auto
  moreover have "\<not> w + eps9 < req" if w: "Some w \<in> set (caps_in_force g b)" for w
  proof -
    obtain y where y: "y \<in> set (Decision.caps inp)" "y \<le> w" "quantity_ok w" using a(3) w by blast
    moreover have "quantity_ok y" using a(1) y(1) by (simp add: input_ok_def)
    moreover have "\<not> y + eps9 < req" using safe y(1) a(2) by simp
    ultimately show ?thesis using over_mono by blast
  qed
  ultimately show ?thesis by blast
qed

text \<open>C20: Without live telemetry nothing is allowed. After \<^verbatim>\<open>invalidate_live_telemetry\<close>, which ends every
  recovery of persisted state, each decision that returns demands revalidation and recommends no limit,
  whatever is requested and whatever was decided before.\<close>

theorem invalidated_telemetry_revalidates:
  assumes "decide_for b wl c req energy dur now (invalidate_live_telemetry g) = Inr (d, g')"
  shows "dec_verdict d = REVALIDATION_REQUIRED \<and> recommended_limit d = None"
  using assms
proof (rule decide_forE)
  let ?g = "invalidate_live_telemetry g"
  fix inp ds e ctr
  assume i: "decision_input_for ?g b c req energy dur now = Inr (inp, ds)"
    and ev: "evaluate inp now (gov_engine ?g) (next_decision (gov_ids ?g)) = Inr (d, e, ctr)"
  have "dev_last_observed dv = 0" if "device_ptr ?g = Some dv" for dv
    using that by (auto simp: device_ptr_def invalidate_live_telemetry_def forget_telemetry_def split: list.splits)
  then have "di_power_freshness inp = FS_EXPIRED"
    using decision_input_parts(5) [OF i] by (cases "device_ptr ?g") (auto simp: freshness_of_def ts_is_zero_def)
  then have "\<exists>rs. early_verdict inp = Some (REVALIDATION_REQUIRED, rs, None, ''freshness'')"
    by (simp add: early_verdict_def Let_def)
  then have "\<exists>rs. judge inp now (gov_engine ?g) = Inr (REVALIDATION_REQUIRED, rs, None, ''freshness'')"
    by (auto simp: judge_def)
  moreover obtain v rs l bk where "judge inp now (gov_engine ?g) = Inr (v, rs, l, bk)" "dec_verdict d = v" "recommended_limit d = l"
    using evaluate_judge [OF ev] by metis
  ultimately show ?thesis by auto
qed

lemma demo_fresh_decision:
  "\<exists>d g'. decide_for id_invalid wl BATCH (Fin 100) (Fin 0) (Fin 0) 5 (invalidate_live_telemetry (new_governor cf demo_ids)) = Inr (d, g')"
  by (simp add: decide_for_def decision_input_for_def complete_input_def base_input_def invalidate_live_telemetry_def new_governor_def allocate_def
      policy_defaults_def empty_policy_def device_ptr_def Let_def hardware_ceiling_def tighten_def evaluate_def judge_def
      early_verdict_def budget_input_def is_valid_def id_invalid_def split: prod.split)

theorem invalidated_telemetry_revalidates_witness:
  "\<exists>d g'. decide_for id_invalid (StrongId 1) BATCH (Fin 100) (Fin 0) (Fin 0) 5
      (invalidate_live_telemetry (new_governor \<lparr>cfg_id = StrongId 1, cfg_node = StrongId 1, cfg_boot = StrongId 1,
         cfg_epoch = gen_first\<rparr> demo_ids)) = Inr (d, g') \<and> dec_verdict d = REVALIDATION_REQUIRED"
  using demo_fresh_decision invalidated_telemetry_revalidates by blast

text \<open>C10: The index of the governor answers like a scan. In every run of a governor that loads no stored state,
  however its operations are interleaved, the reservations listed for a budget are exactly those (of a
  valid identifier) on that budget, each once; and for every state other than \<open>EXPIRED\<close> the list for that state
  holds every reservation in that state, and besides them only reservations that expired and whose entry was
  not updated. Nothing is said of the list for \<open>EXPIRED\<close>: an expiry does not update the index.\<close>

theorem governor_index_exact:
  assumes "gov_run (new_governor cf ids) g"
  shows "set (by_budget (gov_index g) b) =
      {rid. is_valid rid \<and> (\<exists>r. map_of (gov_reservations g) rid = Some r \<and> res_budget r = b)} \<and>
    distinct (by_budget (gov_index g) b) \<and>
    (st \<noteq> EXPIRED \<longrightarrow>
      {rid. is_valid rid \<and> (\<exists>r. map_of (gov_reservations g) rid = Some r \<and> state r = st)} \<subseteq> set (by_state (gov_index g) st) \<and>
      set (by_state (gov_index g) st) \<subseteq> {rid. \<exists>r. map_of (gov_reservations g) rid = Some r \<and> (state r = st \<or> state r = EXPIRED)})"
proof -
  have l: "linked g" using linked_run [OF assms linked_new] .
  let ?ms = "map_of (members (gov_index g))" let ?rm = "map_of (gov_reservations g)"
  have e: "entry_ok (?rm rid) (?ms rid)" if "is_valid rid" for rid using l that by (simp add: linked_def)
  have v: "is_valid rid" if "?ms rid = Some m" for rid m using l that by (auto simp: linked_def)
  have idx: "set (by_budget (gov_index g) b) = {rid. \<exists>m. ?ms rid = Some m \<and> im_budget m = b}" "distinct (by_budget (gov_index g) b)"
      "set (by_state (gov_index g) st) = {rid. \<exists>m. ?ms rid = Some m \<and> im_state m = st}"
    using index_run_in_step [of "gov_index g"] l
    by (simp_all add: linked_def budget_index.in_step_def state_index.in_step_def agrees_def by_budget_def by_state_def)
  have "(\<exists>m. ?ms rid = Some m \<and> im_budget m = b) \<longleftrightarrow> is_valid rid \<and> (\<exists>r. ?rm rid = Some r \<and> res_budget r = b)" for rid
    using e [of rid] v [of rid] by (auto simp: entry_ok_def split: option.splits)
  moreover have "\<exists>m. ?ms rid = Some m \<and> im_state m = st" if "is_valid rid" "?rm rid = Some r" "state r = st" "st \<noteq> EXPIRED" for rid r
    using e [OF that(1)] that by (auto simp: entry_ok_def split: option.splits)
  moreover have "\<exists>r. ?rm rid = Some r \<and> (state r = st \<or> state r = EXPIRED)" if "?ms rid = Some m" "im_state m = st" for rid m
    using e [OF v [OF that(1)]] that by (auto simp: entry_ok_def split: option.splits)
  ultimately show ?thesis unfolding idx using idx(2) by blast
qed

definition demo_cfg :: governor_config where
  "demo_cfg = \<lparr>cfg_id = StrongId 1, cfg_node = StrongId 1, cfg_boot = StrongId 1, cfg_epoch = gen_first\<rparr>"

definition demo_planned :: governor where
  "demo_planned = snd (plan_reservation (StrongId 7) BATCH (StrongId 1) (StrongId 2) (Fin 100) (Fin 0) gen_first gen_first
     1 1000 (new_governor demo_cfg demo_ids))"

lemma demo_planned_run: "gov_run (new_governor demo_cfg demo_ids) demo_planned"
proof -
  obtain r where "plan_reservation (StrongId 7) BATCH (StrongId 1) (StrongId 2) (Fin 100) (Fin 0) gen_first gen_first
      1 1000 (new_governor demo_cfg demo_ids) = (r, demo_planned)"
    unfolding demo_planned_def by (metis prod.collapse)
  then show ?thesis by (rule gov_trans [OF gov_refl gov_step.step_plan])
qed

theorem governor_index_exact_witness: "StrongId 1 \<in> set (by_budget (gov_index demo_planned) (StrongId 2))"
  using governor_index_exact [OF demo_planned_run, of "StrongId 2" PLANNED]
  by (simp add: demo_planned_def plan_reservation_def rm_plan_def new_governor_def demo_ids_def allocate_def Let_def is_valid_def)

end
