(* ===== verification/Governor_Effects.thy ===== *)
theory Governor_Effects
  imports Governor_Safety
begin

text \<open>
  What a run of the governor does to its parts: the policy and its fence only advance, the lifecycle of
  the managers is the one proved for them alone, refused samples and the limits of the policy.
\<close>

section \<open>Serving: runs between two changes of the budgets\<close>

definition budget_cfgs :: "governor \<Rightarrow> budget_id \<Rightarrow> power_budget option" where
  "budget_cfgs g x = map_option cfg (map_of (gov_budgets g) x)"

inductive serves :: "governor \<Rightarrow> governor \<Rightarrow> bool" where
  serves_refl: "serves g g"
| serves_step: "serves g h \<Longrightarrow> gov_step h k \<Longrightarrow> budget_cfgs k = budget_cfgs h \<Longrightarrow> serves g k"

lemma install_cfg_changes:
  assumes "install b bm = (done, bm')" "\<And>x. map_option cfg (map_of bm' x) = map_option cfg (map_of bm x)"
  shows "bm' = bm"
proof (cases "map_of bm (bud_id b)")
  case None
  then show ?thesis using assms(1) assms(2) [of "bud_id b"] by (auto simp: install_def update_conv')
next
  case (Some s)
  then show ?thesis using assms(1) assms(2) [of "bud_id b"]
    by (auto simp: install_def update_conv' split: if_splits)
qed

lemma serves_managers: "serves g h \<Longrightarrow> res_run (managers g) (managers h)"
proof (induction rule: serves.induct)
  case (serves_step g h k)
  have "res_step (managers h) (managers k) \<or> managers k = managers h"
    using gov_step_managers [OF serves_step.hyps(2)] serves_step.hyps(3)
      install_cfg_changes [where bm = "gov_budgets h" and bm' = "gov_budgets k"]
    unfolding manager_step_def budget_cfgs_def fun_eq_iff by (auto simp: prod_eq_iff)
  then show ?case using serves_step.IH by (auto intro: res_run.run_step)
qed (rule res_run.run_refl)

text \<open>C5: The governor conserves reserved power. Take a governor without reservations whose budgets are
  well formed and have nothing reserved, and let it serve any sequence of operations, accepted or refused (lifecycle calls,
  observations, decisions, accounting, policy changes, but no load), during which its budgets keep their
  configuration. If it then holds at most \<open>2 ^ 32\<close> reservations, each asking for a whole number of watts up
  to \<open>2 ^ 20\<close> on a budget whose ancestor chain contains no budget twice, the power reserved on every budget
  is exactly what the unreleased reservations below it hold.\<close>

theorem governor_conserves_power:
  assumes "serves g h" "gov_reservations g = []" "wf_bm (gov_budgets g)"
    and "\<forall>x s. map_of (gov_budgets g) x = Some s \<longrightarrow> reserved s = Fin 0"
    and "length (gov_reservations h) \<le> 2 ^ 32"
    and "\<And>k r. map_of (gov_reservations h) k = Some r \<Longrightarrow> \<exists>n \<le> 2 ^ 20. requested_power r = Fin (of_nat n)"
    and "\<And>k r. map_of (gov_reservations h) k = Some r \<Longrightarrow> distinct (chain (gov_budgets h) (res_budget r))"
    and "map_of (gov_budgets h) x = Some s"
  shows "reserved s = Fin (of_nat (total_held (gov_budgets h) (gov_reservations h) x))"
proof -
  have "books_match (managers g)" using assms(2-4) by (simp add: books_match_def total_held_def)
  moreover have "well_asked (managers h)" using assms(5-7) by (simp add: well_asked_def Lifecycle.whole_def)
  ultimately show ?thesis using run_books [OF serves_managers [OF assms(1)]] assms(8)
    by (simp add: books_match_def)
qed

definition demo_served :: "u64 \<Rightarrow> rat \<Rightarrow> reservation_manager \<Rightarrow> governor" where
  "demo_served ctr r rm = (new_governor \<lparr>cfg_id = StrongId 1, cfg_node = StrongId 1, cfg_boot = id_invalid,
       cfg_epoch = gen_null\<rparr> (demo_ids\<lparr>next_reservation := ctr\<rparr>))\<lparr>gov_budgets := demo_bm r 0, gov_reservations := rm\<rparr>"

lemma demo_serves: "\<exists>h. serves (demo_served 1 0 []) h \<and> gov_budgets h = demo_bm 100 0 \<and>
    gov_reservations h = [(StrongId 1, demo_res 1 100 RESERVED 100)]"
proof -
  have env: "make_envelope (gov_authority (demo_served c r rm)) = empty_envelope" for c r rm
    by (simp add: demo_served_def new_governor_def allocate_def Let_def make_envelope_def new_gate_def empty_envelope_def)
  obtain h1 r1 where p: "plan_reservation (StrongId 7) BATCH (StrongId 2) (StrongId 2) (Fin 100) (Fin 0) gen_first gen_first
      5 1000 (demo_served 1 0 []) = (r1, h1)" by force
  have ids: "next_reservation (gov_ids (demo_served 1 0 [])) = 1" "gov_reservations (demo_served 1 0 []) = []"
      "gov_budgets (demo_served 1 0 []) = demo_bm 0 0"
    by (simp_all add: demo_served_def new_governor_def allocate_def Let_def demo_ids_def)
  have h1: "gov_budgets h1 = demo_bm 0 0" "gov_reservations h1 = [(StrongId 1, demo_res 1 100 PLANNED 0)]"
    using p by (auto simp: plan_reservation_def env ids demo_plan Let_def)
  have s1: "serves (demo_served 1 0 []) h1"
    by (rule serves_step [OF serves_refl gov_step.step_plan [OF p]]) (simp add: budget_cfgs_def h1 ids fun_eq_iff)
  obtain r2 h2 where v: "reserve_reservation (StrongId 1) gen_first 6 h1 = Inr (r2, h2)"
      "gov_budgets h2 = demo_bm 100 0" "gov_reservations h2 = [(StrongId 1, demo_res 1 100 RESERVED 100)]"
    by (auto simp: reserve_reservation_def h1 demo_rm_reserve index_if_ok_def update_index_state_def rm_get_def)
  have "budget_cfgs h2 = budget_cfgs h1"
    by (simp add: budget_cfgs_def h1 v fun_eq_iff demo_bm_def demo_state_def)
  with s1 gov_step.step_reserve [OF v(1)] v(2,3) show ?thesis by (blast intro: serves_step)
qed

theorem governor_conserves_power_witness:
  "\<exists>h s. serves (demo_served 1 0 []) h \<and> map_of (gov_budgets h) (StrongId 1) = Some s \<and>
     reserved s = Fin (of_nat (total_held (gov_budgets h) (gov_reservations h) (StrongId 1)))"
proof -
  obtain h where h: "serves (demo_served 1 0 []) h" "gov_budgets h = demo_bm 100 0"
      "gov_reservations h = [(StrongId 1, demo_res 1 100 RESERVED 100)]" using demo_serves by blast
  have "reserved (demo_state 1 None 450 100 0) = Fin (of_nat (total_held (gov_budgets h) (gov_reservations h) (StrongId 1)))"
  proof (rule governor_conserves_power [OF h(1)])
    show "wf_bm (gov_budgets (demo_served 1 0 []))" using demo_wf by (simp add: demo_served_def)
    show "\<forall>x s. map_of (gov_budgets (demo_served 1 0 [])) x = Some s \<longrightarrow> reserved s = Fin 0"
      by (auto simp: demo_served_def demo_bm_def demo_state_def split: if_splits)
    show "map_of (gov_budgets h) (StrongId 1) = Some (demo_state 1 None 450 100 0)"
      by (simp add: h(2) demo_bm_def)
  qed (use demo_well_asked in \<open>simp_all only: h(2,3)\<close>, simp add: demo_served_def)
  then show ?thesis using h by (auto simp: demo_bm_def)
qed

section \<open>Policy\<close>

text \<open>C12: A policy is never rolled back by the operations of a governor in service. In every run that
  does not load a stored state the generation of the policy in force only grows, the authority gate
  always fences with exactly that generation, and installing a policy whose generation is not newer is
  refused and changes nothing. (A load takes over the stored policy whatever its generation.)\<close>

theorem policy_never_rolled_back:
  assumes "gov_run (new_governor cf ids) g" "gov_run g h"
  shows "pol_generation (gov_policy g) \<le> pol_generation (gov_policy h) \<and>
    gate_policy (gov_authority h) = pol_generation (gov_policy h) \<and>
    (pol_generation p \<le> pol_generation (gov_policy h) \<longrightarrow> install_policy clk p h = (False, h))"
  using policy_le_run [OF assms(1)] policy_le_run [OF assms(2)] policy_fenced_new [of cf ids]
  by (auto simp: policy_le_def policy_fenced_def install_policy_def)

theorem policy_never_rolled_back_witness:
  "gate_policy (gov_authority demo_planned) = pol_generation (gov_policy demo_planned)"
  using policy_never_rolled_back [OF gov_refl demo_planned_run] by blast

text \<open>The limits a policy states for bursts, energy windows and temperatures never reach a decision.
  In every reachable governor, whatever policy is installed, the input of a decision offers no burst, has
  an energy window of which nothing is used, and takes its thermal ceiling from the built-in thresholds.\<close>

theorem policy_limits_ignored:
  assumes "gov_run (new_governor cf ids) g"
    "decision_input_for g b c req en dur now = Inr (inp, ds)"
  shows "\<not> di_burst_available inp \<and> di_energy_window_used inp = Fin 0 \<and>
    (\<forall>d. device_ptr g = Some d \<longrightarrow> thresholds (dev_thermal d) = default_thermal \<and>
       limits (dev_burst d) = default_burst_limits)"
proof -
  have st: "stock_device d" if "device_ptr g = Some d" for d
    using stock_run [OF assms(1) stock_new_governor] that
    by (auto simp: stock_devices_def device_ptr_def split: list.splits)
  have "\<not> di_burst_available inp \<and> di_energy_window_used inp = Fin 0"
  proof (cases "device_ptr g")
    case None
    then show ?thesis using assms(2)
      by (auto simp: decision_input_for_def complete_input_def budget_input_def base_input_def default_input_def Let_def
          split: if_splits)
  next
    case (Some d)
    obtain inp0 inp1 d' where i: "device_input (gov_policy g) d req dur now inp0 = Inr (inp1, d')"
        "di_energy_window_used inp0 = Fin 0" "inp = complete_input g b True inp1"
      using assms(2) Some by (auto simp: decision_input_for_def base_input_def default_input_def Let_def)
    show ?thesis using stock_device_input(1,4) [OF i(1) st [OF Some]] i(2,3)
      by (simp add: complete_input_def budget_input_def Let_def)
  qed
  then show ?thesis using st by (auto simp: stock_device_def)
qed

theorem policy_limits_ignored_witness:
  "\<exists>inp ds. decision_input_for (new_governor demo_cfg demo_ids) id_invalid BATCH (Fin 100) (Fin 0) (Fin 0) 5 = Inr (inp, ds) \<and>
     \<not> di_burst_available inp"
proof -
  have "\<exists>inp ds. decision_input_for (new_governor demo_cfg demo_ids) id_invalid BATCH (Fin 100) (Fin 0) (Fin 0) 5 = Inr (inp, ds)"
    by (simp add: decision_input_for_def device_ptr_def new_governor_def allocate_def Let_def hardware_ceiling_def
        tighten_def policy_defaults_def empty_policy_def)
  then show ?thesis using policy_limits_ignored [OF gov_refl] by blast
qed

section \<open>Refused samples\<close>

text \<open>A sample the power window refuses is taken over all the same. Ingesting a sample raises an
  exception only for its power, and then the device already shows the sample as its latest one observed at
  that time, with a new observation generation, while the fence and the history have no trace of it.\<close>

lemma refused_sample_taken_over:
  assumes "ingest bcaps s now g = (Inl e, g')"
  shows "bs_power s \<noteq> None \<and> dev_latest (device_of g') = Some s \<and> dev_last_observed (device_of g') = now \<and>
    dev_obs_gen (device_of g') = gen_next (dev_obs_gen (device_of g)) \<and>
    gov_authority g' = gov_authority g \<and> gov_history g' = gov_history g"
  using assms
  by (auto simp: ingest_def ingest_power_def device_of_def put_device_def allocate_def Let_def update_conv'
      split: option.splits sum.splits prod.splits)

text \<open>A reading of 92 W, followed by one with an earlier time.\<close>

definition demo_watts :: backend_sample where
  "demo_watts = empty_sample\<lparr>bs_power := Some (Fin 92)\<rparr>"

lemma refused_sample_taken_over_witness:
  "\<exists>g'. ingest default_capabilities demo_watts 3 (snd (ingest default_capabilities demo_watts 5 (new_governor demo_cfg demo_ids)))
     = (Inl InvalidArgument, g') \<and> dev_last_observed (device_of g') = 3"
proof -
  have "\<exists>g'. ingest default_capabilities demo_watts 3
      (snd (ingest default_capabilities demo_watts 5 (new_governor demo_cfg demo_ids))) = (Inl InvalidArgument, g')"
    by (simp add: ingest_def ingest_power_def ingest_thermal_def pw_record_def allocate_def Let_def demo_watts_def
        empty_sample_def device_of_def new_governor_def new_device_def new_power_window_def put_device_def)
  then show ?thesis using refused_sample_taken_over by blast
qed

end
