(* ===== verification/Codec.thy ===== *)
theory Codec
  imports Util "HOL-Library.Monad_Syntax"
begin

text \<open>
  The little-endian writers and readers. \<^verbatim>\<open>WireWriter\<close>/\<^verbatim>\<open>WireReader\<close> of \<^verbatim>\<open>protocol.hpp\<close> and
  \<^verbatim>\<open>BinWriter\<close>/\<^verbatim>\<open>BinReader\<close> of \<^verbatim>\<open>persistence.hpp\<close> are the same code under two names and have one model.
  A writer is its buffer. A reader is the part of its buffer it has not read, so \<^verbatim>\<open>n_ - pos_\<close> is its
  length; a read returns the value and the reader after it, or \<open>None\<close> where the code returns
  \<^verbatim>\<open>false\<close> (no caller goes on with a reader after that). Signed integers are words of the same width,
  as the casts of the code keep the bits.
\<close>

type_synonym i32 = "32 word"
type_synonym i64 = "64 word"
type_synonym writer = bytes
type_synonym reader = bytes

section \<open>Writer\<close>

definition w_u8 :: "u8 \<Rightarrow> writer \<Rightarrow> writer" where
  "w_u8 v w = w @ [v]"

definition w_u16 :: "u16 \<Rightarrow> writer \<Rightarrow> writer" where
  "w_u16 v w = w_u8 (ucast (drop_bit 8 v)) (w_u8 (ucast v) w)"

definition w_u32 :: "u32 \<Rightarrow> writer \<Rightarrow> writer" where
  "w_u32 v w = fold (\<lambda>i. w_u8 (ucast (drop_bit (i * 8) v))) [0..<4] w"

definition w_u64 :: "u64 \<Rightarrow> writer \<Rightarrow> writer" where
  "w_u64 v w = fold (\<lambda>i. w_u8 (ucast (drop_bit (i * 8) v))) [0..<8] w"

definition w_i64 :: "i64 \<Rightarrow> writer \<Rightarrow> writer" where "w_i64 v w = w_u64 v w"
definition w_i32 :: "i32 \<Rightarrow> writer \<Rightarrow> writer" where "w_i32 v w = w_u32 v w"
definition w_bool :: "bool \<Rightarrow> writer \<Rightarrow> writer" where "w_bool b w = w_u8 (if b then 1 else 0) w"

definition w_str :: "string \<Rightarrow> writer \<Rightarrow> writer res" where
  "w_str s w = (if length s > 2 ^ 32 - 1 then Inl OverflowError
     else Inr (w_u32 (of_nat (length s)) w @ map of_char s))"

text \<open>\<^verbatim>\<open>f32\<close> of the wire writer and \<^verbatim>\<open>f64\<close> of the persistence writer: three decimals, truncated. The cast of a
  value outside the range of \<^verbatim>\<open>int64_t\<close> is undefined.\<close>

definition w_f64 :: "double \<Rightarrow> writer \<Rightarrow> writer res" where
  "w_f64 v w = (case int64_of_double (v * lit 1000) of
     None \<Rightarrow> Inl Undefined | Some n \<Rightarrow> Inr (w_i64 (word_of_int n) w))"

section \<open>Reader\<close>

fun r_u8 :: "reader \<Rightarrow> (u8 \<times> reader) option" where
  "r_u8 [] = None"
| "r_u8 (b # r) = Some (b, r)"

definition r_u16 :: "reader \<Rightarrow> (u16 \<times> reader) option" where
  "r_u16 r = do {
     (a, r) \<leftarrow> r_u8 r;
     (b, r) \<leftarrow> r_u8 r;
     Some (ucast a OR push_bit 8 (ucast b), r)
   }"

text \<open>The loop of \<^verbatim>\<open>u32\<close> and \<^verbatim>\<open>u64\<close>: byte \<open>i\<close> is shifted to its place and or-ed into the result; \<open>k\<close> bytes are
  left.\<close>

fun r_loop :: "nat \<Rightarrow> nat \<Rightarrow> 'a::len word \<Rightarrow> reader \<Rightarrow> ('a word \<times> reader) option" where
  "r_loop 0 i acc r = Some (acc, r)"
| "r_loop (Suc k) i acc r = do {
     (b, r) \<leftarrow> r_u8 r;
     r_loop k (i + 1) (acc OR push_bit (i * 8) (ucast b)) r
   }"

definition r_u32 :: "reader \<Rightarrow> (u32 \<times> reader) option" where "r_u32 r = r_loop 4 0 0 r"
definition r_u64 :: "reader \<Rightarrow> (u64 \<times> reader) option" where "r_u64 r = r_loop 8 0 0 r"
definition r_i64 :: "reader \<Rightarrow> (i64 \<times> reader) option" where "r_i64 r = r_u64 r"
definition r_i32 :: "reader \<Rightarrow> (i32 \<times> reader) option" where "r_i32 r = r_u32 r"

definition r_bool :: "reader \<Rightarrow> (bool \<times> reader) option" where
  "r_bool r = do { (v, r) \<leftarrow> r_u8 r; Some (v \<noteq> 0, r) }"

definition r_bytes :: "reader \<Rightarrow> (bytes \<times> reader) option" where
  "r_bytes r = do {
     (len, r) \<leftarrow> r_u32 r;
     if unat len > length r then None else Some (take (unat len) r, drop (unat len) r)
   }"

definition r_str :: "reader \<Rightarrow> (string \<times> reader) option" where
  "r_str r = do {
     (len, r) \<leftarrow> r_u32 r;
     if unat len > length r then None
     else Some (map (\<lambda>b. char_of (unat b)) (take (unat len) r), drop (unat len) r)
   }"

definition r_f64 :: "reader \<Rightarrow> (double \<times> reader) option" where
  "r_f64 r = do { (x, r) \<leftarrow> r_i64 r; Some (double_of_int (sint x) / lit 1000, r) }"

definition at_end :: "reader \<Rightarrow> bool" where
  "at_end r \<longleftrightarrow> r = []"

section \<open>The contract of a field\<close>

text \<open>
  A field written with \<open>enc\<close> is read back by \<open>get\<close> whatever follows it, and a read is not affected by
  bytes behind the ones it needs.
\<close>

definition prefix_stable :: "(reader \<Rightarrow> ('a \<times> reader) option) \<Rightarrow> bool" where
  "prefix_stable g \<longleftrightarrow> (\<forall>d v t e. g d = Some (v, t) \<longrightarrow> g (d @ e) = Some (v, t @ e))"

named_theorems stable \<open>readers that are prefix stable\<close>

lemma stableI: "(\<And>d v t e. g d = Some (v, t) \<Longrightarrow> g (d @ e) = Some (v, t @ e)) \<Longrightarrow> prefix_stable g"
  by (simp add: prefix_stable_def)

lemma stableD: "prefix_stable g \<Longrightarrow> g d = Some (v, t) \<Longrightarrow> g (d @ e) = Some (v, t @ e)"
  by (simp add: prefix_stable_def)

lemma stable_return [stable]: "prefix_stable (\<lambda>r. Some (v, r))"
  by (simp add: prefix_stable_def)

lemma stable_guard [stable]: "prefix_stable g \<Longrightarrow> prefix_stable (\<lambda>r. if c then None else g r)"
  by (simp add: prefix_stable_def)

lemma stable_bind [stable]:
  assumes "prefix_stable g" "\<And>v. prefix_stable (h v)"
  shows "prefix_stable (\<lambda>r. g r \<bind> (\<lambda>(v, r). h v r))"
proof (rule stableI)
  fix d v t e assume "g d \<bind> (\<lambda>(v, r). h v r) = Some (v, t)"
  then obtain u s where u: "g d = Some (u, s)" "h u s = Some (v, t)" by (auto simp: bind_eq_Some_conv)
  show "g (d @ e) \<bind> (\<lambda>(v, r). h v r) = Some (v, t @ e)"
    using stableD [OF assms(1) u(1)] stableD [OF assms(2) u(2)] by simp
qed

lemma stable_take [stable]:
  "prefix_stable (\<lambda>r. if length r < n then None else Some (f (take n r), drop n r))"
  by (rule stableI) (auto split: if_splits)

locale codec =
  fixes enc :: "'a \<Rightarrow> bytes" and get :: "reader \<Rightarrow> ('a \<times> reader) option" and ok :: "'a \<Rightarrow> bool"
  assumes get_enc: "ok v \<Longrightarrow> get (enc v @ t) = Some (v, t)"
    and get_stable: "prefix_stable get"
begin

lemma get_more: "get d = Some (v, t) \<Longrightarrow> get (d @ e) = Some (v, t @ e)"
  using get_stable by (rule stableD)

lemma enc_prefix_free:
  assumes "ok v" "ok w" "enc v @ s = enc w @ t" shows "v = w \<and> s = t"
proof -
  have "Some (v, s) = get (enc v @ s)" by (simp only: get_enc [OF assms(1)])
  also have "\<dots> = get (enc w @ t)" by (simp only: assms(3))
  also have "\<dots> = Some (w, t)" by (simp only: get_enc [OF assms(2)])
  finally show ?thesis by simp
qed

lemma get_truncated:
  assumes "ok v" "enc v = d @ e" "e \<noteq> []" shows "get d = None"
proof (rule ccontr)
  assume "get d \<noteq> None"
  then obtain w t where "get d = Some (w, t)" by (metis option.exhaust prod.exhaust)
  from get_more [OF this, of e] assms(2) get_enc [OF assms(1), of "[]"] have "t @ e = []" by simp
  with assms(3) show False by simp
qed

end

text \<open>
  A message reads its fields and then demands the end of the payload. Its payload is then exact: it
  decodes to the message, and neither a proper prefix of it nor a longer payload decodes to anything.
\<close>

definition finish :: "('m \<times> reader) option \<Rightarrow> 'm option" where
  "finish x = (case x of Some (m, r) \<Rightarrow> if at_end r then Some m else None | None \<Rightarrow> None)"

definition exact_payload :: "(bytes \<Rightarrow> 'm option) \<Rightarrow> bytes \<Rightarrow> 'm \<Rightarrow> bool" where
  "exact_payload dec p m \<longleftrightarrow> dec p = Some m \<and> (\<forall>e. e \<noteq> [] \<longrightarrow> dec (p @ e) = None) \<and>
     (\<forall>d e. p = d @ e \<and> e \<noteq> [] \<longrightarrow> dec d = None)"

locale message = codec enc get ok
  for enc :: "'m \<Rightarrow> bytes" and get :: "reader \<Rightarrow> ('m \<times> reader) option" and ok :: "'m \<Rightarrow> bool" +
  fixes dec :: "bytes \<Rightarrow> 'm option"
  assumes dec_get: "dec d = finish (get d)"
begin

lemma dec_enc: "ok m \<Longrightarrow> dec (enc m) = Some m"
  using get_enc [of m "[]"] by (simp add: dec_get finish_def at_end_def)

lemma dec_truncated: "ok m \<Longrightarrow> enc m = d @ e \<Longrightarrow> e \<noteq> [] \<Longrightarrow> dec d = None"
  using get_truncated by (simp add: dec_get finish_def)

lemma dec_trailing: "ok m \<Longrightarrow> e \<noteq> [] \<Longrightarrow> dec (enc m @ e) = None"
  using get_enc [of m e] by (simp add: dec_get finish_def at_end_def)

lemma dec_exact: "ok m \<Longrightarrow> exact_payload dec (enc m) m"
  unfolding exact_payload_def using dec_enc dec_trailing dec_truncated by blast

end

section \<open>Fields\<close>

definition le_bytes :: "nat \<Rightarrow> nat \<Rightarrow> 'a::len word \<Rightarrow> bytes" where
  "le_bytes i k v = map (\<lambda>j. ucast (drop_bit (j * 8) v)) [i..<i + k]"

lemma le_bytes_Suc: "le_bytes i (Suc k) v = ucast (drop_bit (i * 8) v) # le_bytes (i + 1) k v"
  by (simp add: le_bytes_def upt_conv_Cons del: upt_Suc)

lemma length_le_bytes [simp]: "length (le_bytes i k v) = k"
  by (simp add: le_bytes_def)

lemma fold_w_u8: "fold (\<lambda>i. w_u8 (f i)) is w = w @ map f is"
  by (induction "is" arbitrary: w) (simp_all add: w_u8_def)

lemma r_loop_le_bytes:
  fixes v acc :: "'a::len word"
  shows
  "\<exists>x. r_loop k i acc (le_bytes i k v @ t) = Some (x, t) \<and>
     (\<forall>n. bit x n \<longleftrightarrow> bit acc n \<or> (i * 8 \<le> n \<and> n < (i + k) * 8 \<and> bit v n))"
proof (induction k arbitrary: i acc)
  case 0
  then show ?case by (auto simp: le_bytes_def)
next
  case (Suc k)
  define acc' where "acc' = acc OR push_bit (i * 8) (ucast (ucast (drop_bit (i * 8) v) :: byte))"
  have b: "bit acc' n \<longleftrightarrow> bit acc n \<or> (i * 8 \<le> n \<and> n < i * 8 + 8 \<and> bit v n)" for n
    using bit_imp_le_length [of v n] by (auto simp: acc'_def bit_simps)
  obtain x where "r_loop k (i + 1) acc' (le_bytes (i + 1) k v @ t) = Some (x, t)"
      "\<forall>n. bit x n \<longleftrightarrow> bit acc' n \<or> ((i + 1) * 8 \<le> n \<and> n < (i + 1 + k) * 8 \<and> bit v n)"
    using Suc.IH by blast
  moreover have "r_loop (Suc k) i acc (le_bytes i (Suc k) v @ t) = r_loop k (i + 1) acc' (le_bytes (i + 1) k v @ t)"
    by (simp add: le_bytes_Suc acc'_def)
  moreover have "((i * 8 \<le> n \<and> n < i * 8 + 8 \<and> bit v n) \<or> ((i + 1) * 8 \<le> n \<and> n < (i + 1 + k) * 8 \<and> bit v n))
      = (i * 8 \<le> n \<and> n < (i + Suc k) * 8 \<and> bit v n)" for n by auto
  ultimately show ?case using b by (auto simp del: r_loop.simps)
qed

lemma r_loop_word:
  fixes v :: "'a::len word"
  assumes "LENGTH('a) = k * 8"
  shows "r_loop k 0 0 (le_bytes 0 k v @ t) = Some (v, t)"
proof -
  obtain x :: "'a word" where x: "r_loop k 0 0 (le_bytes 0 k v @ t) = Some (x, t)"
      "\<forall>n. bit x n \<longleftrightarrow> n < k * 8 \<and> bit v n"
    using r_loop_le_bytes [of k 0 0 v t] by auto
  then have "x = v" by (intro bit_word_eqI) (simp add: assms)
  with x show ?thesis by simp
qed

lemma r_u8_stable [stable]: "prefix_stable r_u8"
proof (rule stableI)
  show "r_u8 (d @ e) = Some (v, t @ e)" if "r_u8 d = Some (v, t)" for d v t e using that by (cases d) auto
qed

lemma r_loop_stable [stable]: "prefix_stable (r_loop k i acc)"
proof (induction k arbitrary: i acc)
  case 0
  then show ?case by (simp add: prefix_stable_def)
next
  case (Suc k)
  have "r_loop (Suc k) i acc = (\<lambda>r. r_u8 r \<bind> (\<lambda>(b, r). r_loop k (i + 1) (acc OR push_bit (i * 8) (ucast b)) r))"
    by (rule ext) simp
  then show ?case using Suc by (simp only: stable)
qed

lemma w_u16_app: "w_u16 v w = w @ [ucast v, ucast (drop_bit 8 v)]"
  by (simp add: w_u16_def w_u8_def)

lemma w_u32_app: "w_u32 v w = w @ le_bytes 0 4 v"
  by (simp add: w_u32_def fold_w_u8 le_bytes_def)

lemma w_u64_app: "w_u64 v w = w @ le_bytes 0 8 v"
  by (simp add: w_u64_def fold_w_u8 le_bytes_def)

lemma u16_of_bytes: "ucast (ucast v :: byte) OR push_bit 8 (ucast (ucast (drop_bit 8 v) :: byte)) = (v :: u16)"
  by (rule bit_word_eqI) (auto simp: bit_simps)

lemma char_byte [simp]: "char_of (unat (of_char c :: byte)) = c"
proof -
  have "(of_char c :: byte) = of_nat (of_char c)" by (cases c) (simp add: of_char_def)
  then have "unat (of_char c :: byte) = of_char c" by (simp add: unat_of_nat)
  then show ?thesis by simp
qed

lemma field_stable [stable]:
  "prefix_stable r_u16" "prefix_stable r_u32" "prefix_stable r_u64" "prefix_stable r_i32" "prefix_stable r_i64"
  "prefix_stable r_bool" "prefix_stable r_bytes" "prefix_stable r_str" "prefix_stable r_f64"
  unfolding r_u16_def r_u32_def r_u64_def r_i32_def r_i64_def r_bool_def r_bytes_def r_str_def r_f64_def
  by (intro stable)+

interpretation u8: codec "\<lambda>v. w_u8 v []" r_u8 "\<lambda>_. True"
  by unfold_locales (simp_all add: w_u8_def stable)

interpretation u16: codec "\<lambda>v. w_u16 v []" r_u16 "\<lambda>_. True"
  by unfold_locales (simp_all add: r_u16_def w_u16_app u16_of_bytes stable)

interpretation u32: codec "\<lambda>v. w_u32 v []" r_u32 "\<lambda>_. True"
  by unfold_locales (simp_all add: w_u32_app r_u32_def r_loop_word stable)

interpretation u64: codec "\<lambda>v. w_u64 v []" r_u64 "\<lambda>_. True"
  by unfold_locales (simp_all add: w_u64_app r_u64_def r_loop_word stable)

interpretation i32: codec "\<lambda>v. w_i32 v []" r_i32 "\<lambda>_. True"
  using u32.get_enc by unfold_locales (simp_all add: w_i32_def r_i32_def stable)

interpretation i64: codec "\<lambda>v. w_i64 v []" r_i64 "\<lambda>_. True"
  using u64.get_enc by unfold_locales (simp_all add: w_i64_def r_i64_def stable)

interpretation bool: codec "\<lambda>v. w_bool v []" r_bool "\<lambda>_. True"
  by unfold_locales (simp_all add: r_bool_def w_bool_def w_u8_def stable)

text \<open>A string that \<^verbatim>\<open>str\<close> accepts.\<close>

definition str_ok :: "string \<Rightarrow> bool" where
  "str_ok s \<longleftrightarrow> length s < 2 ^ 32"

definition enc_str :: "string \<Rightarrow> bytes" where
  "enc_str s = w_u32 (of_nat (length s)) [] @ map of_char s"

lemma w_str_app: "w_str s w = (if str_ok s then Inr (w @ enc_str s) else Inl OverflowError)"
  by (auto simp: w_str_def str_ok_def enc_str_def w_u32_app)

interpretation str: codec enc_str r_str str_ok
proof
  show "r_str (enc_str s @ t) = Some (s, t)" if "str_ok s" for s t
  proof -
    have "unat (of_nat (length s) :: u32) = length s" using that by (simp add: unat_of_nat str_ok_def)
    then show ?thesis by (simp add: r_str_def enc_str_def u32.get_enc comp_def)
  qed
qed (rule stable)

section \<open>Fixed-point quantities\<close>

text \<open>Whole quantities below \<open>2 ^ 43\<close> pass the fixed-point encoding unchanged.\<close>

definition whole :: "double \<Rightarrow> bool" where
  "whole v \<longleftrightarrow> (case v of Fin q \<Rightarrow> q = of_int \<lfloor>q\<rfloor> \<and> \<bar>q\<bar> \<le> 2 ^ 43 | _ \<Rightarrow> False)"

definition enc_f64 :: "double \<Rightarrow> bytes" where
  "enc_f64 v = (case w_f64 v [] of Inr bs \<Rightarrow> bs | Inl _ \<Rightarrow> [])"

lemma wholeE: assumes "whole v" obtains n where "v = Fin (of_int n)" "\<bar>n\<bar> \<le> 2 ^ 43"
proof (cases v)
  case (Fin q)
  have "\<bar>of_int \<lfloor>q\<rfloor> :: rat\<bar> \<le> of_int (2 ^ 43)" using assms Fin by (simp add: whole_def)
  then have "\<bar>\<lfloor>q\<rfloor>\<bar> \<le> 2 ^ 43" unfolding of_int_abs [symmetric] by (simp only: of_int_le_iff)
  with assms Fin show ?thesis by (intro that [of "\<lfloor>q\<rfloor>"]) (simp_all add: whole_def)
qed (use assms in \<open>simp_all add: whole_def\<close>)

lemma whole_of_int: "\<bar>n\<bar> \<le> 2 ^ 43 \<Longrightarrow> whole (Fin (of_int n))"
  by (simp add: whole_def flip: of_int_abs)

lemma trunc_rat_of_int: "trunc_rat (of_int k) = k"
  unfolding trunc_rat_def by (simp flip: of_int_minus)

lemma thousandfold:
  assumes "\<bar>n\<bar> \<le> 2 ^ 43" shows "int64_of_double (Fin (of_int n) * lit 1000) = Some (n * 1000)"
proof -
  have "\<bar>n * 1000\<bar> \<le> 2 ^ 53" using assms by simp
  from rnd64_int [OF this] have "Fin (of_int n) * lit 1000 = Fin (of_int (n * 1000))" by simp
  moreover have "- (2 ^ 63) \<le> n * 1000 \<and> n * 1000 < 2 ^ 63" using assms by (simp add: abs_le_iff)
  ultimately show ?thesis unfolding int64_of_double_def by (simp only: double.case trunc_rat_of_int Let_def if_True simp_thms)
qed

lemma w_f64_app: assumes "\<bar>n\<bar> \<le> 2 ^ 43"
  shows "w_f64 (Fin (of_int n)) w = Inr (w @ le_bytes 0 8 (word_of_int (n * 1000) :: u64))"
  unfolding w_f64_def thousandfold [OF assms] option.case w_i64_def w_u64_app ..

lemma w_f64_whole: "whole v \<Longrightarrow> w_f64 v w = Inr (w @ enc_f64 v)"
  by (elim wholeE) (simp add: w_f64_app enc_f64_def)

lemma r_f64_word: "r_f64 (le_bytes 0 8 (x :: u64) @ t) = Some (double_of_int (sint x) / lit 1000, t)"
  by (simp add: r_f64_def r_i64_def r_u64_def r_loop_word)

interpretation f64: codec enc_f64 r_f64 whole
proof
  show "r_f64 (enc_f64 v @ t) = Some (v, t)" if "whole v" for v t
    using that
  proof (rule wholeE)
    fix n assume n: "v = Fin (of_int n)" "\<bar>n\<bar> \<le> 2 ^ 43"
    have s: "sint (word_of_int (n * 1000) :: i64) = n * 1000"
      using n(2) by (subst sint_sbintrunc') (simp add: signed_take_bit_int_eq_self)
    have "r_f64 (le_bytes 0 8 (word_of_int (n * 1000) :: u64) @ t)
        = Some (double_of_int (n * 1000) / lit 1000, t)"
      by (simp only: r_f64_word s)
    moreover have "double_of_int (n * 1000) / lit 1000 = Fin (of_int n)"
      using n(2) rnd64_int [of "n * 1000"] rnd64_int [of n] by (simp add: double_of_int_def)
    ultimately show ?thesis using n by (simp add: enc_f64_def w_f64_app)
  qed
qed (rule stable)

section \<open>Automation for messages\<close>

lemma w_bool_app: "w_bool b w = w @ [of_bool b]"
  by (simp add: w_bool_def w_u8_def)

lemma w_i32_app: "w_i32 v w = w @ le_bytes 0 4 v" by (simp add: w_i32_def w_u32_app)
lemma w_i64_app: "w_i64 v w = w @ le_bytes 0 8 v" by (simp add: w_i64_def w_u64_app)

lemmas fields_app = w_u8_def w_u16_app w_u32_app w_u64_app w_i32_app w_i64_app w_bool_app w_str_app

lemma fields_get:
  "r_u16 (ucast v16 # ucast (drop_bit 8 v16) # t) = Some (v16, t)"
  "r_u32 (le_bytes 0 4 v32 @ t) = Some (v32, t)"
  "r_i32 (le_bytes 0 4 v32 @ t) = Some (v32, t)"
  "r_u64 (le_bytes 0 8 v64 @ t) = Some (v64, t)"
  "r_i64 (le_bytes 0 8 v64 @ t) = Some (v64, t)"
  "r_bool (of_bool b # t) = Some (b, t)"
  using u16.get_enc [of v16 t] u32.get_enc [of v32 t] i32.get_enc [of v32 t] u64.get_enc [of v64 t]
    i64.get_enc [of v64 t] bool.get_enc [of b t]
  by (simp_all add: fields_app)

text \<open>The bytes a fallible encoder has written.\<close>

definition written :: "writer res \<Rightarrow> bytes" where
  "written x = (case x of Inr bs \<Rightarrow> bs | Inl _ \<Rightarrow> [])"

lemma written_Inr [simp]: "written (Inr bs) = bs"
  by (simp add: written_def)

section \<open>Reading is canonical\<close>

text \<open>A fixed-width integer has one encoding: what is read is what would be written.\<close>

lemma r_loop_canonical:
  fixes acc :: "'a::len word"
  assumes "r_loop k i acc bs = Some (x, t)" "\<forall>n \<ge> i * 8. \<not> bit acc n" "(i + k) * 8 \<le> LENGTH('a)"
  shows "bs = le_bytes i k x @ t \<and> (\<forall>n < i * 8. bit x n \<longleftrightarrow> bit acc n)"
  using assms
proof (induction k arbitrary: i acc bs)
  case 0
  then show ?case by (simp add: le_bytes_def)
next
  case (Suc k)
  obtain b bs' where bs: "bs = b # bs'" using Suc.prems(1) by (cases bs) auto
  define acc' where "acc' = acc OR push_bit (i * 8) (ucast b)"
  have len: "i * 8 + 8 \<le> LENGTH('a)" using Suc.prems(3) by simp
  have acc': "bit acc' n \<longleftrightarrow> bit acc n \<or> (i * 8 \<le> n \<and> n < i * 8 + 8 \<and> bit b (n - i * 8))" for n
    using len bit_imp_le_length [of b "n - i * 8"] by (auto simp: acc'_def bit_simps)
  have "r_loop k (i + 1) acc' bs' = Some (x, t)" using Suc.prems(1) by (simp add: bs acc'_def)
  moreover have "\<forall>n \<ge> (i + 1) * 8. \<not> bit acc' n" using Suc.prems(2) by (auto simp: acc')
  ultimately have IH: "bs' = le_bytes (i + 1) k x @ t" "\<forall>n < (i + 1) * 8. bit x n \<longleftrightarrow> bit acc' n"
    using Suc.IH [of "i + 1" acc' bs'] Suc.prems(3) by simp_all
  have "ucast (drop_bit (i * 8) x) = b"
  proof (rule bit_word_eqI)
    fix n assume "n < LENGTH(8)"
    then have n: "n < 8" by simp
    then have "bit x (i * 8 + n) \<longleftrightarrow> bit acc' (i * 8 + n)" using IH(2) by simp
    also have "\<dots> \<longleftrightarrow> bit b n" using n Suc.prems(2) by (simp add: acc')
    finally show "bit (ucast (drop_bit (i * 8) x) :: byte) n \<longleftrightarrow> bit b n" using n by (simp add: bit_simps)
  qed
  moreover have "\<forall>n < i * 8. bit x n \<longleftrightarrow> bit acc n" using IH(2) by (simp add: acc')
  ultimately show ?case by (simp add: bs IH(1) le_bytes_Suc)
qed

lemma r_u32_canonical: "r_u32 bs = Some (x, t) \<Longrightarrow> bs = le_bytes 0 4 x @ t"
  unfolding r_u32_def using r_loop_canonical [of 4 0 0 bs x t] by simp

lemma r_u64_canonical: "r_u64 bs = Some (x, t) \<Longrightarrow> bs = le_bytes 0 8 x @ t"
  unfolding r_u64_def using r_loop_canonical [of 8 0 0 bs x t] by simp

lemma r_u16_loop: "r_u16 bs = r_loop 2 0 0 bs"
  unfolding r_u16_def numeral_2_eq_2 by (cases bs; cases "tl bs") auto

lemma w_u16_le: "w_u16 v w = w @ le_bytes 0 2 v"
  by (simp add: w_u16_app le_bytes_def numeral_2_eq_2)

lemma r_u16_canonical: "r_u16 bs = Some (x, t) \<Longrightarrow> bs = le_bytes 0 2 x @ t"
  unfolding r_u16_loop using r_loop_canonical [of 2 0 0 bs x t] by simp

section \<open>Sealed records\<close>

text \<open>The little-endian bytes of a checksum, as \<^verbatim>\<open>memcpy\<close> copies them on the little-endian targets of the
  program, are those \<^verbatim>\<open>u32\<close> writes; reading the stored checksum through a pointer is \<^verbatim>\<open>u32\<close> at its place.\<close>

definition seal :: "bytes \<Rightarrow> bytes" where
  "seal out = w_u32 (crc32 out) out"

definition stored_crc :: "bytes \<Rightarrow> nat \<Rightarrow> u32 option" where
  "stored_crc d i = map_option fst (r_u32 (drop i d))"

lemma seal_app: "seal out = out @ le_bytes 0 4 (crc32 out)"
  by (simp add: seal_def w_u32_app)

lemma length_seal [simp]: "length (seal out) = length out + 4"
  by (simp add: seal_app)

lemma stored_crc_iff:
  "stored_crc d i = Some c \<longleftrightarrow> (\<exists>t. drop i d = le_bytes 0 4 c @ t)"
proof
  assume "stored_crc d i = Some c"
  then obtain t where "r_u32 (drop i d) = Some (c, t)" by (auto simp: stored_crc_def)
  then show "\<exists>t. drop i d = le_bytes 0 4 c @ t" using r_u32_canonical by blast
qed (auto simp: stored_crc_def fields_get)

text \<open>The checksum of a prefix is intact exactly if the buffer starts with the sealed prefix.\<close>

lemma seal_iff:
  assumes "i \<le> length d"
  shows "stored_crc d i = Some (crc32 (take i d)) \<longleftrightarrow> (\<exists>t. d = seal (take i d) @ t)"
  unfolding stored_crc_iff seal_app using assms
  by (metis append.assoc append_take_drop_id same_append_eq)

text \<open>Two sealed records of the same length do not differ in exactly one byte.\<close>

lemma seal_one_byte:
  assumes "length out' = length out" "seal out' = (seal out)[i := b]" "i < length (seal out)"
  shows "b = seal out ! i"
proof (cases "i < length out")
  case True
  then have "out' @ le_bytes 0 4 (crc32 out') = out[i := b] @ le_bytes 0 4 (crc32 out)"
    using assms(2) unfolding seal_app by (simp only: list_update_append1)
  then have o: "out' = out[i := b]" "le_bytes 0 4 (crc32 out') = le_bytes 0 4 (crc32 out)"
    using assms(1) append_eq_append_conv [of out' "out[i := b]"] by (metis length_list_update)+
  then have "crc32 out' = crc32 out" using fields_get(2) [of _ "[]"] by (metis option.inject prod.inject)
  moreover have "out = take i out @ out ! i # drop (Suc i) out" using True by (rule id_take_nth_drop)
  moreover have "out' = take i out @ b # drop (Suc i) out" using o(1) True by (simp add: upd_conv_take_nth_drop)
  ultimately have "b = out ! i" using crc32_detects by metis
  then show ?thesis using True by (simp add: seal_app nth_append)
next
  case False
  then have "out' @ le_bytes 0 4 (crc32 out') = out @ (le_bytes 0 4 (crc32 out))[i - length out := b]"
    using assms(2) unfolding seal_app by (simp only: list_update_append if_False)
  then have "out' = out" using assms(1) by (simp add: append_eq_append_conv)
  then have "(seal out)[i := b] = seal out" using assms(2) by simp
  then show ?thesis using assms(3) by (metis nth_list_update_eq)
qed

end
