(* ===== verification/Persistence.thy ===== *)
theory Persistence
  imports Codec
begin

text \<open>
  The persistence container of \<^verbatim>\<open>persistence.hpp\<close>: the sealed envelope and the atomic file write. The
  writer and reader of record bodies are in Codec. The file system is outside the program: it is a
  map from paths to contents, and what its calls report is a parameter of the operations.
\<close>

section \<open>Envelope\<close>

definition PERSIST_MAGIC :: u32 where "PERSIST_MAGIC = 0x53504750"
definition PERSIST_SCHEMA :: u32 where "PERSIST_SCHEMA = 1"
definition PERSIST_MAX :: nat where "PERSIST_MAX = 256 * 1024 * 1024"

record persist_envelope =
  schema :: u32
  blob :: bytes

definition encode_envelope :: "persist_envelope \<Rightarrow> bytes res" where
  "encode_envelope e = (if length (blob e) > PERSIST_MAX then Inl LengthError
     else (let w = w_u32 PERSIST_MAGIC [];
               w = w_u32 (schema e) w;
               w = w_u32 (of_nat (length (blob e))) w
           in Inr (seal (w @ blob e))))"

definition read_envelope_header :: "reader \<Rightarrow> ((u32 \<times> u32 \<times> u32) \<times> reader) option" where
  "read_envelope_header r = do {
     (magic, r) \<leftarrow> r_u32 r;
     (sch, r) \<leftarrow> r_u32 r;
     (len, r) \<leftarrow> r_u32 r;
     Some ((magic, sch, len), r)
   }"

definition decode_envelope :: "bytes \<Rightarrow> string + persist_envelope" where
  "decode_envelope d =
    (let H = 4 + 4 + 4 in
     if length d < H + 4 then Inl ''truncated persistence record''
     else case read_envelope_header d of
       None \<Rightarrow> Inl ''malformed header''
     | Some ((magic, sch, len), _) \<Rightarrow>
         if magic \<noteq> PERSIST_MAGIC then Inl ''bad persistence magic''
         else if sch \<noteq> PERSIST_SCHEMA then Inl ''unsupported schema version''
         else if unat len > PERSIST_MAX then Inl ''oversized persistence record''
         else if length d < H + unat len + 4 then Inl ''truncated persistence payload''
         else if stored_crc d (H + unat len) \<noteq> Some (crc32 (take (H + unat len) d)) then Inl ''crc mismatch''
         else if length d \<noteq> H + unat len + 4 then Inl ''trailing garbage after persistence record''
         else Inr \<lparr>schema = sch, blob = take (unat len) (drop H d)\<rparr>)"

section \<open>Atomic file write and read\<close>

type_synonym file_system = "string \<rightharpoonup> bytes"

text \<open>
  What the file system reports during one write: whether the temporary file opens, how many bytes reach
  it and whether the stream is still good after the flush, whether the replacing rename succeeds, and
  whether the removal of the temporary file does. A write whose stream is good has written all bytes.
\<close>

record write_outcome =
  open_ok :: bool
  bytes_out :: nat
  flush_ok :: bool
  rename_ok :: bool
  remove_ok :: bool

definition outcome_ok :: "write_outcome \<Rightarrow> bytes \<Rightarrow> bool" where
  "outcome_ok io data \<longleftrightarrow> (flush_ok io \<longrightarrow> length data \<le> bytes_out io)"

definition persist_write ::
  "write_outcome \<Rightarrow> string \<Rightarrow> bytes \<Rightarrow> file_system \<Rightarrow> (string + unit) \<times> file_system" where
  "persist_write io path data fs =
    (let tmp = path @ ''.tmp'' in
     if \<not> open_ok io then (Inl ''open tmp failed'', fs)
     else let fs1 = fs(tmp \<mapsto> take (bytes_out io) data) in
     if \<not> flush_ok io then (Inl ''write failed'', fs1)
     else if rename_ok io then (Inr (), fs1(path := fs1 tmp, tmp := None))
     else (Inl ''atomic replace failed'', if remove_ok io then fs1(tmp := None) else fs1))"

record read_outcome =
  seek_ok :: bool
  read_ok :: bool

definition persist_read :: "read_outcome \<Rightarrow> string \<Rightarrow> file_system \<Rightarrow> string + bytes" where
  "persist_read io path fs = (case fs path of
     None \<Rightarrow> Inl ''open failed''
   | Some data \<Rightarrow> if \<not> seek_ok io then Inl ''seek failed''
       else if \<not> read_ok io then Inl ''read short'' else Inr data)"

section \<open>The envelope is canonical\<close>

definition envelope_image :: "persist_envelope \<Rightarrow> bytes" where
  "envelope_image e = le_bytes 0 4 PERSIST_MAGIC @ le_bytes 0 4 (schema e) @
     le_bytes 0 4 (of_nat (length (blob e)) :: u32) @ blob e"

lemma length_envelope_image [simp]: "length (envelope_image e) = 12 + length (blob e)"
  by (simp add: envelope_image_def)

lemma encode_envelope_image:
  "encode_envelope e = (if length (blob e) \<le> PERSIST_MAX then Inr (seal (envelope_image e)) else Inl LengthError)"
  by (simp add: encode_envelope_def Let_def fields_app envelope_image_def)

lemma read_envelope_header_iff:
  "read_envelope_header d = Some ((magic, sch, len), r) \<longleftrightarrow>
     d = le_bytes 0 4 magic @ le_bytes 0 4 sch @ le_bytes 0 4 len @ r"
proof
  assume "read_envelope_header d = Some ((magic, sch, len), r)"
  then obtain r1 r2 where "r_u32 d = Some (magic, r1)" "r_u32 r1 = Some (sch, r2)" "r_u32 r2 = Some (len, r)"
    by (auto simp: read_envelope_header_def bind_eq_Some_conv)
  then show "d = le_bytes 0 4 magic @ le_bytes 0 4 sch @ le_bytes 0 4 len @ r"
    by (auto dest!: r_u32_canonical)
qed (simp add: read_envelope_header_def fields_get(2))

lemma decode_envelope_iff:
  "decode_envelope d = Inr e \<longleftrightarrow> encode_envelope e = Inr d \<and> schema e = PERSIST_SCHEMA"
proof
  assume acc: "decode_envelope d = Inr e"
  then obtain magic sch len r where h: "read_envelope_header d = Some ((magic, sch, len), r)"
    by (auto simp: decode_envelope_def Let_def split: if_splits option.splits)
  let ?L = "unat len"
  from acc h have c: "magic = PERSIST_MAGIC" "sch = PERSIST_SCHEMA" "?L \<le> PERSIST_MAX"
      "length d = 12 + ?L + 4" "stored_crc d (12 + ?L) = Some (crc32 (take (12 + ?L) d))"
      and e: "e = \<lparr>schema = sch, blob = take ?L (drop 12 d)\<rparr>"
    by (auto simp: decode_envelope_def Let_def split: if_splits)
  have d: "d = le_bytes 0 4 magic @ le_bytes 0 4 sch @ le_bytes 0 4 len @ r"
    using h by (simp only: read_envelope_header_iff)
  have b: "blob e = take ?L r" "length (blob e) = ?L" using c(4) d e by simp_all
  have "take (12 + ?L) d = envelope_image e" using c(1,2) b d by (simp add: envelope_image_def e)
  moreover obtain t where "d = seal (take (12 + ?L) d) @ t" using c(4,5) seal_iff [of "12 + ?L" d] by auto
  ultimately have t: "d = seal (envelope_image e) @ t" by simp
  then have "length d = 12 + ?L + 4 + length t" using b by simp
  then have "t = []" using c(4) by simp
  with t show "encode_envelope e = Inr d \<and> schema e = PERSIST_SCHEMA"
    using c(2,3) b(2) e by (simp add: encode_envelope_image)
next
  assume a: "encode_envelope e = Inr d \<and> schema e = PERSIST_SCHEMA"
  then have m: "length (blob e) \<le> PERSIST_MAX" and d: "d = seal (envelope_image e)"
    by (auto simp: encode_envelope_image split: if_splits)
  let ?len = "of_nat (length (blob e)) :: u32"
  have u: "unat ?len = length (blob e)" using m by (simp add: unat_of_nat PERSIST_MAX_def)
  have h: "read_envelope_header d = Some ((PERSIST_MAGIC, PERSIST_SCHEMA, ?len),
      blob e @ le_bytes 0 4 (crc32 (envelope_image e)))"
    unfolding read_envelope_header_iff using a by (simp add: d seal_app envelope_image_def)
  have tk: "take (12 + length (blob e)) d = envelope_image e" by (simp add: d seal_app)
  have "stored_crc d (12 + length (blob e)) = Some (crc32 (take (12 + length (blob e)) d))"
    unfolding stored_crc_iff tk by (simp add: d seal_app)
  then show "decode_envelope d = Inr e"
    unfolding decode_envelope_def h Let_def using m a
    by (simp add: u) (simp add: d seal_app envelope_image_def)
qed

section \<open>Fixed-point quantities\<close>

lemma trunc_rat_error: "\<bar>of_int (trunc_rat x) - x\<bar> \<le> 1" and trunc_rat_le: "\<bar>of_int (trunc_rat x)\<bar> \<le> \<bar>x\<bar>"
proof -
  have "of_int \<lfloor>y\<rfloor> \<le> y" "y \<le> of_int \<lfloor>y\<rfloor> + 1" for y :: rat by linarith+
  note b = this [of x] this [of "- x"]
  show "\<bar>of_int (trunc_rat x) - x\<bar> \<le> 1"
    unfolding trunc_rat_def abs_le_iff using b by (simp del: of_int_floor_le)
  have "0 \<le> y \<Longrightarrow> 0 \<le> (of_int \<lfloor>y\<rfloor> :: rat)" for y by simp
  note c = this [of x] this [of "- x"]
  show "\<bar>of_int (trunc_rat x)\<bar> \<le> \<bar>x\<bar>"
    using b c by (cases "x < 0") (simp_all add: trunc_rat_def del: of_int_floor_le)
qed

lemma sint_word_of_int: assumes "- (2 ^ 63) \<le> n" "n < 2 ^ 63" shows "sint (word_of_int n :: i64) = n"
  using assms by (subst sint_sbintrunc') (simp add: signed_take_bit_int_eq_self)

lemma fixed_point_close:
  assumes "\<bar>a\<bar> \<le> 2 ^ 32"
  shows "\<exists>bs r. w_f64 (Fin a) [] = Inr bs \<and> r_f64 (bs @ t) = Some (Fin r, t) \<and> \<bar>r - a\<bar> \<le> 11 / 10000"
proof -
  have "\<bar>a * 1000\<bar> \<le> 2 ^ 42" using assms by (simp add: abs_mult)
  then obtain p where p: "rnd64 (a * 1000) = Fin p" "\<bar>p - a * 1000\<bar> \<le> 2 ^ 42 / 2 ^ 53" "\<bar>p\<bar> \<le> 2 ^ 42"
    by (rule rnd64_bounded) simp_all
  define n where "n = trunc_rat p"
  have n: "\<bar>of_int n - p\<bar> \<le> 1" and "\<bar>of_int n\<bar> \<le> \<bar>p\<bar>"
    unfolding n_def by (rule trunc_rat_error, rule trunc_rat_le)
  with p(3) have "\<bar>of_int n\<bar> \<le> rat_of_int (2 ^ 42)" by simp
  then have nb: "\<bar>n\<bar> \<le> 2 ^ 42" unfolding of_int_abs [symmetric] by (simp only: of_int_le_iff)
  then have nr: "- (2 ^ 63) \<le> n" "n < 2 ^ 63" by simp_all
  have w: "w_f64 (Fin a) [] = Inr (le_bytes 0 8 (word_of_int n :: u64))"
    using p(1) nr by (simp add: w_f64_def int64_of_double_def Let_def flip: n_def) (simp add: w_i64_app)
  have dn: "double_of_int n = Fin (of_int n)" unfolding double_of_int_def by (rule rnd64_int) (use nb in simp)
  have an: "\<bar>of_int n / 1000 - a\<bar> \<le> 1 / 1000 + 1 / 1000000" using n p(2) unfolding abs_le_iff by (simp add: field_simps)
  then have "\<bar>of_int n / 1000 :: rat\<bar> \<le> 2 ^ 33" using assms unfolding abs_le_iff by simp
  then obtain r where r: "rnd64 (of_int n / 1000) = Fin r" "\<bar>r - of_int n / 1000\<bar> \<le> 2 ^ 33 / 2 ^ 53"
    by (rule rnd64_bounded) simp_all
  have "r_f64 (le_bytes 0 8 (word_of_int n :: u64) @ t) = Some (Fin r, t)"
    using r(1) by (simp add: r_f64_word sint_word_of_int [OF nr] dn)
  moreover have "\<bar>r - a\<bar> \<le> 11 / 10000" using r(2) an unfolding abs_le_iff by simp
  ultimately show ?thesis using w by blast
qed

lemma fixed_point_drops_milliwatt:
  "w_f64 (lit (1005 / 1000)) [] = Inr (w_i64 1004 [])"
proof -
  have a: "rnd64 (1005/1000) = Fin (4526117625507348 / 2^52)"
    using rnd64_eval [of "1005/1000" 52 4526117625507348] by simp
  have b: "rnd64 (4526117625507348 / 2^52 * 1000) = Fin (8840073487319039 / 2^43)"
    using rnd64_eval [of "4526117625507348 / 2^52 * 1000" 43 8840073487319039] by simp
  have "trunc_rat (8840073487319039 / 2^43) = 1004" by (simp add: trunc_rat_def floor_eq_iff)
  then have "int64_of_double (Fin (8840073487319039 / 2^43)) = Some 1004" by (simp add: int64_of_double_def)
  moreover have "lit (1005/1000) * lit 1000 = Fin (8840073487319039 / 2^43)" unfolding a using b by simp
  ultimately have "int64_of_double (lit (1005/1000) * lit 1000) = Some 1004" by (simp only:)
  then show ?thesis by (simp add: w_f64_def)
qed

section \<open>Properties\<close>

text \<open>C21: The container is canonical: a buffer is accepted as an envelope exactly if it is the encoding of
  that envelope under the current schema. So saving and loading a blob round-trips, and truncation,
  trailing bytes, a foreign schema and any other buffer are refused.\<close>

theorem envelope_canonical:
  "decode_envelope d = Inr e \<longleftrightarrow> encode_envelope e = Inr d \<and> schema e = PERSIST_SCHEMA"
  by (rule decode_envelope_iff)

text \<open>C23: A write is atomic. Whatever the file system reports, after \<^verbatim>\<open>persist_write\<close> the target file holds
  all of the new data if the call succeeded and exactly what it held before if it failed; no file but
  the target and its temporary companion changes, and a later successful read returns the data.\<close>

theorem persist_write_atomic:
  assumes "outcome_ok io data" "persist_write io path data fs = (r, fs')"
  shows "(case r of Inr _ \<Rightarrow> fs' path = Some data \<and> persist_read \<lparr>seek_ok = True, read_ok = True\<rparr> path fs' = Inr data
      | Inl _ \<Rightarrow> fs' path = fs path) \<and>
    (\<forall>q. q \<noteq> path \<and> q \<noteq> path @ ''.tmp'' \<longrightarrow> fs' q = fs q)"
  using assms by (auto simp: persist_write_def persist_read_def outcome_ok_def Let_def split: if_splits)

theorem persist_write_atomic_witness:
  "\<exists>r fs'. persist_write \<lparr>open_ok = True, bytes_out = 1, flush_ok = True, rename_ok = True, remove_ok = True\<rparr>
      ''state'' [7] [''state'' \<mapsto> [1, 2]] = (r, fs') \<and> fs' ''state'' = Some [7]"
proof -
  let ?io = "\<lparr>open_ok = True, bytes_out = 1, flush_ok = True, rename_ok = True, remove_ok = True\<rparr>"
  obtain fs' where w: "persist_write ?io ''state'' [7] [''state'' \<mapsto> [1, 2]] = (Inr (), fs')"
    by (simp add: persist_write_def Let_def)
  then show ?thesis using persist_write_atomic [OF _ w] by (auto simp: outcome_ok_def)
qed

text \<open>Quantities are stored to the milliunit. A quantity of magnitude up to \<open>2 ^ 32\<close> is always encoded, and
  reading it back gives a finite value within 1.1 milliunits of it.\<close>

theorem fixed_point_error:
  assumes "\<bar>a\<bar> \<le> 2 ^ 32"
  shows "\<exists>bs r. w_f64 (Fin a) [] = Inr bs \<and> r_f64 (bs @ t) = Some (Fin r, t) \<and> \<bar>r - a\<bar> \<le> 11 / 10000"
  using assms by (rule fixed_point_close)

theorem fixed_point_error_witness:
  "\<exists>bs r. w_f64 (Fin (201 / 2)) [] = Inr bs \<and> r_f64 (bs @ [9]) = Some (Fin r, [9]) \<and> \<bar>r - 201 / 2\<bar> \<le> 11 / 10000"
  by (rule fixed_point_error) simp

end
