(* ===== verification/Snapshot.thy ===== *)
theory Snapshot
  imports Governor_Runs Persistence
begin

text \<open>
  Saving and loading the governor: \<^verbatim>\<open>encode_state\<close>, \<^verbatim>\<open>decode_state\<close>, \<^verbatim>\<open>validate_budget_hierarchy\<close>, \<^verbatim>\<open>save\<close>,
  \<^verbatim>\<open>load\<close> and \<^verbatim>\<open>state_digest\<close> of \<^verbatim>\<open>governor.hpp\<close>. Decoding changes the governor while it reads, so
  every step of it carries the governor along, also where it gives up.
\<close>

section \<open>Writing the state\<close>

definition w_cap :: "watts option \<Rightarrow> writer \<Rightarrow> writer res" where
  "w_cap c w = (let w = w_bool (c \<noteq> None) w in case c of None \<Rightarrow> Inr w | Some v \<Rightarrow> w_f64 v w)"

fun class_code :: "workload_power_class \<Rightarrow> u8" where
  "class_code LATENCY_CRITICAL = 0"
| "class_code THROUGHPUT = 1"
| "class_code BATCH = 2"
| "class_code BACKGROUND = 3"
| "class_code BEST_EFFORT = 4"
| "class_code ENERGY_OPTIMIZED = 5"
| "class_code THERMALLY_SENSITIVE = 6"
| "class_code CUSTOM = 7"

fun state_code :: "reservation_state \<Rightarrow> u8" where
  "state_code PLANNED = 0"
| "state_code VALIDATED = 1"
| "state_code RESERVED = 2"
| "state_code ADMITTED = 3"
| "state_code ACTIVE = 4"
| "state_code RELEASED = 5"
| "state_code EXPIRED = 6"

definition all_states :: "reservation_state list" where
  "all_states = [PLANNED, VALIDATED, RESERVED, ADMITTED, ACTIVE, RELEASED, EXPIRED]"

text \<open>The casts of a byte to the enumerations; the reader checks their range first.\<close>

definition class_of_code :: "u8 \<Rightarrow> workload_power_class" where "class_of_code n = all_classes ! unat n"
definition state_of_code :: "u8 \<Rightarrow> reservation_state" where "state_of_code n = all_states ! unat n"

definition w_policy :: "governor \<Rightarrow> writer \<Rightarrow> writer res" where
  "w_policy g w =
    (let p = gov_policy g;
         w = w_u64 (gen_raw (cfg_epoch (gov_cfg g))) w;
         w = w_u64 (raw (cfg_boot (gov_cfg g))) w;
         w = w_u64 (raw (cfg_node (gov_cfg g))) w;
         w = w_u64 (gen_raw (pol_generation p)) w
     in rbind (w_str (pol_name p) w) (\<lambda>w.
        rbind (w_cap (fleet_hard_cap p) w) (\<lambda>w.
        rbind (w_cap (node_hard_cap p) w) (\<lambda>w.
        rbind (w_cap (device_hard_cap p) w) (\<lambda>w.
        w_cap (pol_soft_target p) w)))))"

definition parent_raw :: "budget_id option \<Rightarrow> u64" where
  "parent_raw p = (case p of Some b \<Rightarrow> if is_valid b then raw b else 0 | None \<Rightarrow> 0)"

definition w_stored_budget :: "power_budget \<Rightarrow> writer \<Rightarrow> writer res" where
  "w_stored_budget b w =
    (let w = w_u64 (raw (bud_id b)) w;
         w = w_u64 (gen_raw (bud_generation b)) w;
         w = w_u64 (raw (bud_domain b)) w;
         w = w_u64 (parent_raw (bud_parent b)) w
     in rbind (w_str (bud_name b) w) (\<lambda>w.
        rbind (w_f64 (hard_max b) w) (\<lambda>w.
        rbind (w_f64 (soft_target b) w) (\<lambda>w.
        rbind (w_f64 (min_reserve b) w) (\<lambda>w.
        rbind (w_f64 (burst_allowance b) w) (\<lambda>w.
        let w = w_i64 (word_of_int (burst_window b)) w;
            w = w_i64 (word_of_int (recovery b)) w;
            w = w_i32 (word_of_int (bud_priority b)) w
        in Inr (w_bool (authoritative b) w)))))))"

definition w_stored_reservation :: "reservation \<Rightarrow> writer \<Rightarrow> writer res" where
  "w_stored_reservation r w =
    (let w = w_u64 (raw (res_id r)) w;
         w = w_u64 (raw (res_budget r)) w;
         w = w_u64 (raw (workload r)) w;
         w = w_u8 (class_code (power_class r)) w
     in rbind (w_f64 (requested_power r) w) (\<lambda>w.
        rbind (w_f64 (requested_energy r) w) (\<lambda>w.
        let w = w_u64 (gen_raw (res_policy_generation r)) w;
            w = w_u64 (gen_raw (res_device_generation r)) w;
            w = w_u64 (gen_raw (res_budget_generation r)) w;
            w = w_u64 (gen_raw (env_epoch (authority r))) w;
            w = w_u64 (raw (env_boot (authority r))) w;
            w = w_i64 (word_of_int (created r)) w;
            w = w_i64 (word_of_int (validity r)) w;
            w = w_u8 (state_code (state r)) w
        in rbind (w_f64 (reserved_power r) w) (w_f64 (energy_used r)))))"

definition w_stored_meter :: "workload_id \<times> energy_meter \<Rightarrow> writer \<Rightarrow> writer res" where
  "w_stored_meter m w = (case m of (wl, em) \<Rightarrow> w_f64 (em_total em) (w_u64 (raw wl) w))"

text \<open>A counted section: the number of records as 32 bits, then the records.\<close>

fun w_each :: "('a \<Rightarrow> writer \<Rightarrow> writer res) \<Rightarrow> 'a list \<Rightarrow> writer \<Rightarrow> writer res" where
  "w_each f [] w = Inr w"
| "w_each f (x # xs) w = rbind (f x w) (w_each f xs)"

definition w_section :: "('a \<Rightarrow> writer \<Rightarrow> writer res) \<Rightarrow> 'a list \<Rightarrow> writer \<Rightarrow> writer res" where
  "w_section f xs w = w_each f xs (w_u32 (of_nat (length xs)) w)"

definition encode_state :: "governor \<Rightarrow> bytes res" where
  "encode_state g =
     rbind (w_policy g []) (\<lambda>w.
     rbind (w_section w_stored_budget (snapshots (gov_budgets g)) w) (\<lambda>w.
     rbind (w_section w_stored_reservation (rm_all (gov_reservations g)) w) (\<lambda>w.
     w_section w_stored_meter (gov_workload_meter g) w)))"

definition state_digest :: "governor \<Rightarrow> string res" where
  "state_digest g = rbind (encode_state g) (\<lambda>b. Inr (digest_hex (map (\<lambda>x. char_of (unat x)) b)))"

section \<open>The hierarchy check\<close>

function hierarchy_walk :: "power_budget list \<Rightarrow> budget_id \<Rightarrow> nat \<Rightarrow> budget_id option \<Rightarrow> bool" where
  "hierarchy_walk snaps b guard cur = (case cur of
     None \<Rightarrow> True
   | Some c \<Rightarrow>
       if \<not> is_valid c then True
       else if c = b then False
       else (case find (\<lambda>x. bud_id x = c) snaps of
          None \<Rightarrow> True
        | Some x \<Rightarrow> if 256 < Suc guard then False else hierarchy_walk snaps b (Suc guard) (bud_parent x)))"
  by pat_completeness auto
termination
  by (relation "measure (\<lambda>(snaps, b, guard, cur). 256 - guard)") auto

declare hierarchy_walk.simps [simp del]

definition validate_budget_hierarchy :: "budget_manager \<Rightarrow> bool" where
  "validate_budget_hierarchy bm \<longleftrightarrow>
     list_all (\<lambda>b. case bud_parent b of Some p \<Rightarrow> is_valid p \<longrightarrow> has bm p | None \<Rightarrow> True) (snapshots bm) \<and>
     list_all (\<lambda>b. hierarchy_walk (snapshots bm) (bud_id b) 0 (bud_parent b)) (snapshots bm)"

section \<open>Steps of a load\<close>

text \<open>A step returns a value, gives up (\<open>Inr None\<close>, where the code returns \<^verbatim>\<open>false\<close>) or throws, and leaves a
  governor behind in every case.\<close>

type_synonym 'a load = "governor \<Rightarrow> 'a option res \<times> governor"

definition lreturn :: "'a \<Rightarrow> 'a load" where "lreturn x g = (Inr (Some x), g)"
definition lfail :: "'a load" where "lfail g = (Inr None, g)"

definition lbind :: "'a load \<Rightarrow> ('a \<Rightarrow> 'b load) \<Rightarrow> 'b load" where
  "lbind m f g = (case m g of
     (Inl e, g) \<Rightarrow> (Inl e, g) | (Inr None, g) \<Rightarrow> (Inr None, g) | (Inr (Some x), g) \<Rightarrow> f x g)"

text \<open>A read that may be short, a call that may throw, a change of the governor, and a test.\<close>

definition lread :: "'a option \<Rightarrow> 'a load" where "lread x g = (Inr x, g)"
definition lcall :: "'a res \<Rightarrow> 'a load" where
  "lcall x g = (case x of Inl e \<Rightarrow> (Inl e, g) | Inr v \<Rightarrow> (Inr (Some v), g))"
definition lmodify :: "(governor \<Rightarrow> governor) \<Rightarrow> unit load" where "lmodify f g = (Inr (Some ()), f g)"
definition ltest :: "bool \<Rightarrow> unit load" where "ltest b g = (Inr (if b then Some () else None), g)"

text \<open>A call of a manager that reports whether it succeeded.\<close>

definition ltry :: "(governor \<Rightarrow> bool \<times> governor) \<Rightarrow> unit load" where
  "ltry f g = (case f g of (b, g) \<Rightarrow> (Inr (if b then Some () else None), g))"

section \<open>Reading the state\<close>

definition read_head :: "reader \<Rightarrow> ((u64 \<times> u64 \<times> u64 \<times> u64 \<times> string) \<times> reader) option" where
  "read_head r = do {
     (epoch, r) \<leftarrow> r_u64 r;
     (boot, r) \<leftarrow> r_u64 r;
     (node, r) \<leftarrow> r_u64 r;
     (polgen, r) \<leftarrow> r_u64 r;
     (name, r) \<leftarrow> r_str r;
     Some ((epoch, boot, node, polgen, name), r)
   }"

definition load_cap :: "reader \<Rightarrow> (watts option \<times> reader) load" where
  "load_cap r = lbind (lread (r_bool r)) (\<lambda>(b, r).
     if b then lbind (lread (r_f64 r)) (\<lambda>(v, r). lbind (lcall (Watts v)) (\<lambda>w. lreturn (Some w, r)))
     else lreturn (None, r))"

definition recover_identity :: "u64 \<Rightarrow> u64 \<Rightarrow> u64 \<Rightarrow> governor \<Rightarrow> governor" where
  "recover_identity epoch boot node g =
     g\<lparr>gov_authority := set_boot (StrongId boot) (reset_epoch (Generation epoch) (gov_authority g)),
       gov_cfg := (gov_cfg g)\<lparr>cfg_node := StrongId node\<rparr>\<rparr>"

text \<open>\<^verbatim>\<open>PowerPolicy::defaults()\<close> allocates an identifier for its default argument, then the caller
  allocates the one it keeps.\<close>

definition allocate_policy :: "(policy_id) load" where
  "allocate_policy g = (let ctr = snd (allocate (next_policy (gov_ids g)) :: policy_id \<times> u64);
       (pid, ctr) = allocate ctr
     in (Inr (Some pid), g\<lparr>gov_ids := (gov_ids g)\<lparr>next_policy := ctr\<rparr>\<rparr>))"

definition adopt_policy :: "power_policy \<Rightarrow> governor \<Rightarrow> governor" where
  "adopt_policy p g = g\<lparr>gov_policy := p, gov_authority := set_policy (pol_generation p) (gov_authority g)\<rparr>"

definition load_policy :: "reader \<Rightarrow> reader load" where
  "load_policy r = lbind (lread (read_head r)) (\<lambda>((epoch, boot, node, polgen, name), r).
     lbind (lmodify (recover_identity epoch boot node)) (\<lambda>_.
     lbind allocate_policy (\<lambda>pid.
     lbind (load_cap r) (\<lambda>(fleet, r).
     lbind (load_cap r) (\<lambda>(nod, r).
     lbind (load_cap r) (\<lambda>(dev, r).
     lbind (load_cap r) (\<lambda>(soft, r).
     lbind (lmodify (adopt_policy ((policy_defaults pid name)\<lparr>pol_generation := Generation polgen,
       fleet_hard_cap := fleet, node_hard_cap := nod, device_hard_cap := dev, pol_soft_target := soft\<rparr>))) (\<lambda>_.
     lreturn r))))))))"

record stored_budget =
  sb_id :: u64
  sb_gen :: u64
  sb_domain :: u64
  sb_parent :: u64
  sb_name :: string
  sb_hmax :: double
  sb_soft :: double
  sb_reserve :: double
  sb_burst :: double
  sb_window :: i64
  sb_recovery :: i64
  sb_priority :: i32
  sb_auth :: bool

definition read_stored_budget :: "reader \<Rightarrow> (stored_budget \<times> reader) option" where
  "read_stored_budget r = do {
     (bid, r) \<leftarrow> r_u64 r;
     (bgen, r) \<leftarrow> r_u64 r;
     (dom, r) \<leftarrow> r_u64 r;
     (par, r) \<leftarrow> r_u64 r;
     (nm, r) \<leftarrow> r_str r;
     (hmax, r) \<leftarrow> r_f64 r;
     (soft, r) \<leftarrow> r_f64 r;
     (rsv, r) \<leftarrow> r_f64 r;
     (burst, r) \<leftarrow> r_f64 r;
     (bw, r) \<leftarrow> r_i64 r;
     (rcv, r) \<leftarrow> r_i64 r;
     (pri, r) \<leftarrow> r_i32 r;
     (auth, r) \<leftarrow> r_bool r;
     Some (\<lparr>sb_id = bid, sb_gen = bgen, sb_domain = dom, sb_parent = par, sb_name = nm, sb_hmax = hmax,
       sb_soft = soft, sb_reserve = rsv, sb_burst = burst, sb_window = bw, sb_recovery = rcv,
       sb_priority = pri, sb_auth = auth\<rparr>, r)
   }"

definition make_budget :: "stored_budget \<Rightarrow> power_budget res" where
  "make_budget s =
     rbind (Watts (sb_hmax s)) (\<lambda>hmax.
     rbind (Watts (sb_soft s)) (\<lambda>soft.
     rbind (Watts (sb_reserve s)) (\<lambda>rsv.
     rbind (Watts (sb_burst s)) (\<lambda>burst.
     rbind (nanoseconds (sint (sb_window s))) (\<lambda>bw.
     rbind (nanoseconds (sint (sb_recovery s))) (\<lambda>rcv.
     Inr \<lparr>bud_id = StrongId (sb_id s), bud_generation = Generation (sb_gen s),
       bud_domain = StrongId (sb_domain s), bud_policy_generation = gen_null,
       bud_parent = Some (StrongId (sb_parent s)), bud_name = sb_name s, hard_max = hmax,
       soft_target = soft, min_reserve = rsv, burst_allowance = burst, burst_window = bw,
       recovery = rcv, bud_priority = sint (sb_priority s), authoritative = sb_auth s\<rparr>))))))"

definition load_budget :: "stored_budget \<Rightarrow> unit load" where
  "load_budget s =
     lbind (ltest (\<not> (sb_hmax s < Fin 0 \<or> sb_soft s < Fin 0 \<or> sb_reserve s < Fin 0 \<or> sb_burst s < Fin 0))) (\<lambda>_.
     lbind (lcall (make_budget s)) (\<lambda>b.
     ltry (\<lambda>g. case install b (gov_budgets g) of (done, bm) \<Rightarrow> (done, g\<lparr>gov_budgets := bm\<rparr>))))"

record stored_reservation =
  sr_id :: u64
  sr_budget :: u64
  sr_workload :: u64
  sr_class :: u8
  sr_power :: double
  sr_energy :: double
  sr_policy :: u64
  sr_device :: u64
  sr_bgen :: u64
  sr_epoch :: u64
  sr_boot :: u64
  sr_created :: i64
  sr_validity :: i64
  sr_state :: u8
  sr_reserved :: double
  sr_used :: double

definition read_stored_reservation :: "reader \<Rightarrow> (stored_reservation \<times> reader) option" where
  "read_stored_reservation r = do {
     (rid, r) \<leftarrow> r_u64 r;
     (bid, r) \<leftarrow> r_u64 r;
     (wl, r) \<leftarrow> r_u64 r;
     (cls, r) \<leftarrow> r_u8 r;
     (pow, r) \<leftarrow> r_f64 r;
     (en, r) \<leftarrow> r_f64 r;
     (rpol, r) \<leftarrow> r_u64 r;
     (rdev, r) \<leftarrow> r_u64 r;
     (rbg, r) \<leftarrow> r_u64 r;
     (repoch, r) \<leftarrow> r_u64 r;
     (rboot, r) \<leftarrow> r_u64 r;
     (crt, r) \<leftarrow> r_i64 r;
     (val, r) \<leftarrow> r_i64 r;
     (st, r) \<leftarrow> r_u8 r;
     (rsv, r) \<leftarrow> r_f64 r;
     (used, r) \<leftarrow> r_f64 r;
     Some (\<lparr>sr_id = rid, sr_budget = bid, sr_workload = wl, sr_class = cls, sr_power = pow, sr_energy = en,
       sr_policy = rpol, sr_device = rdev, sr_bgen = rbg, sr_epoch = repoch, sr_boot = rboot,
       sr_created = crt, sr_validity = val, sr_state = st, sr_reserved = rsv, sr_used = used\<rparr>, r)
   }"

definition plausible_reservation :: "stored_reservation \<Rightarrow> bool" where
  "plausible_reservation s \<longleftrightarrow> \<not> (7 < sr_class s \<or> 6 < sr_state s) \<and>
     \<not> (\<not> isfinite (sr_power s) \<or> \<not> isfinite (sr_energy s) \<or> sr_power s < Fin 0 \<or>
        \<not> isfinite (sr_reserved s) \<or> sr_reserved s < Fin 0 \<or> \<not> isfinite (sr_used s) \<or> sr_used s < Fin 0)"

definition make_reservation :: "stored_reservation \<Rightarrow> reservation res" where
  "make_reservation s =
     rbind (Watts (sr_power s)) (\<lambda>pow.
     rbind (Joules (sr_energy s)) (\<lambda>en.
     rbind (nanoseconds (sint (sr_validity s))) (\<lambda>val.
     rbind (Watts (sr_reserved s)) (\<lambda>rsv.
     rbind (Joules (sr_used s)) (\<lambda>used.
     Inr \<lparr>res_id = StrongId (sr_id s), res_generation = gen_null, workload = StrongId (sr_workload s),
       request_class = id_invalid, power_class = class_of_code (sr_class s), scope = id_invalid,
       res_budget = StrongId (sr_budget s), requested_power = pow, requested_energy = en,
       res_policy_generation = Generation (sr_policy s), res_device_generation = Generation (sr_device s),
       res_budget_generation = Generation (sr_bgen s),
       authority = empty_envelope\<lparr>env_epoch := Generation (sr_epoch s), env_boot := StrongId (sr_boot s)\<rparr>,
       created = sint (sr_created s), validity = val, state = state_of_code (sr_state s),
       reserved_power = rsv, energy_used = used, activated_at = 0, released_at = 0\<rparr>)))))"

text \<open>A restored reservation that held power claims it again; what the budget answers is ignored.\<close>

definition reclaim :: "reservation \<Rightarrow> budget_manager \<Rightarrow> budget_manager" where
  "reclaim r bm =
     (if (state r = RESERVED \<or> state r = ACTIVE \<or> state r = ADMITTED) \<and> is_positive (reserved_power r) \<and>
         has bm (res_budget r)
      then snd (bm_reserve bm (res_budget r) (reserved_power r) (res_id r) (res_budget_generation r)) else bm)"

definition load_reservation :: "stored_reservation \<Rightarrow> unit load" where
  "load_reservation s =
     lbind (ltest (plausible_reservation s)) (\<lambda>_.
     lbind (lcall (make_reservation s)) (\<lambda>r.
     lbind (ltry (\<lambda>g. case rm_restore r (gov_reservations g) of (done, rm) \<Rightarrow> (done, g\<lparr>gov_reservations := rm\<rparr>))) (\<lambda>_.
     lmodify (\<lambda>g. g\<lparr>gov_index := index_add (res_id r) (res_budget r) (workload r) (state r) (gov_index g),
       gov_budgets := reclaim r (gov_budgets g)\<rparr>))))"

definition read_stored_meter :: "reader \<Rightarrow> ((u64 \<times> double) \<times> reader) option" where
  "read_stored_meter r = do { (wl, r) \<leftarrow> r_u64 r; (en, r) \<leftarrow> r_f64 r; Some ((wl, en), r) }"

definition put_meter :: "workload_id \<Rightarrow> energy_meter \<Rightarrow> governor \<Rightarrow> governor" where
  "put_meter wl m g = g\<lparr>gov_workload_meter := AList.update wl m (gov_workload_meter g)\<rparr>"

definition load_meter :: "timestamp \<Rightarrow> u64 \<times> double \<Rightarrow> unit load" where
  "load_meter clk s = (case s of (wl, en) \<Rightarrow>
     lbind (ltest (\<not> (en < Fin 0 \<or> \<not> isfinite en))) (\<lambda>_.
     lbind (lmodify (put_meter (StrongId wl) new_meter)) (\<lambda>_.
     lbind (lcall (rbind (Joules en) (\<lambda>j. meter_add j DERIVED clk new_meter))) (\<lambda>m.
     lmodify (put_meter (StrongId wl) m)))))"

fun load_each :: "(reader \<Rightarrow> ('s \<times> reader) option) \<Rightarrow> ('s \<Rightarrow> unit load) \<Rightarrow> nat \<Rightarrow> reader \<Rightarrow> reader load" where
  "load_each rd f 0 r = lreturn r"
| "load_each rd f (Suc n) r = lbind (lread (rd r)) (\<lambda>(s, r). lbind (f s) (\<lambda>_. load_each rd f n r))"

definition load_section :: "(reader \<Rightarrow> ('s \<times> reader) option) \<Rightarrow> ('s \<Rightarrow> unit load) \<Rightarrow> reader \<Rightarrow> reader load" where
  "load_section rd f r = lbind (lread (r_u32 r)) (\<lambda>(n, r).
     lbind (ltest (\<not> 100000 < n)) (\<lambda>_. load_each rd f (unat n) r))"

definition decode_state :: "timestamp \<Rightarrow> bytes \<Rightarrow> unit load" where
  "decode_state clk b =
     lbind (load_policy b) (\<lambda>r.
     lbind (load_section read_stored_budget load_budget r) (\<lambda>r.
     lbind (\<lambda>g. ltest (validate_budget_hierarchy (gov_budgets g)) g) (\<lambda>_.
     lbind (load_section read_stored_reservation load_reservation r) (\<lambda>r.
     lbind (load_section read_stored_meter (load_meter clk) r) (\<lambda>r.
     lbind (ltest (at_end r)) (\<lambda>_.
     lmodify invalidate_live_telemetry))))))"

section \<open>Save and load\<close>

definition g_save ::
  "write_outcome \<Rightarrow> timestamp \<Rightarrow> string \<Rightarrow> file_system \<times> governor \<Rightarrow> bool res \<times> file_system \<times> governor" where
  "g_save io clk path s = (case s of (fs, g) \<Rightarrow>
     case rbind (encode_state g) (\<lambda>b. encode_envelope \<lparr>schema = PERSIST_SCHEMA, blob = b\<rparr>) of
       Inl e \<Rightarrow> (Inl e, fs, g)
     | Inr bytes \<Rightarrow> (case persist_write io path bytes fs of
         (Inl _, fs') \<Rightarrow> (Inr False, fs', g)
       | (Inr _, fs') \<Rightarrow> (Inr True, fs', log_change RECOVERED (''state saved to '' @ path) clk g)))"

definition g_load ::
  "read_outcome \<Rightarrow> timestamp \<Rightarrow> string \<Rightarrow> file_system \<Rightarrow> governor \<Rightarrow> bool res \<times> governor" where
  "g_load io clk path fs g = (case persist_read io path fs of
     Inl _ \<Rightarrow> (Inr False, g)
   | Inr bytes \<Rightarrow> (case decode_envelope bytes of
       Inl _ \<Rightarrow> (Inr False, g)
     | Inr env \<Rightarrow> (case decode_state clk (blob env) g of
         (Inl e, g') \<Rightarrow> (Inl e, g')
       | (Inr None, g') \<Rightarrow> (Inr False, g')
       | (Inr (Some _), g') \<Rightarrow> (Inr True, log_change RECOVERED (''state recovered from '' @ path) clk g'))))"

end
