(* ===== verification/Snapshot_Proofs.thy ===== *)
theory Snapshot_Proofs
  imports Snapshot
begin

text \<open>
  What survives a save and a load: the sections of the stored state as instances of one locale, the
  recovery of a stored governor, loads over a live governor, and the hierarchy check.
\<close>

section \<open>Steps of a load\<close>

lemma lbind_simps [simp]:
  "m g = (Inr (Some x), g') \<Longrightarrow> lbind m f g = f x g'"
  "m g = (Inr None, g') \<Longrightarrow> lbind m f g = (Inr None, g')"
  "m g = (Inl e, g') \<Longrightarrow> lbind m f g = (Inl e, g')"
  by (simp_all add: lbind_def)

lemmas load_steps = lreturn_def lfail_def lread_def lcall_def lmodify_def ltest_def ltry_def

section \<open>Sections of records\<close>

lemma section_count:
  assumes "n \<le> 100000"
  shows "unat (of_nat n :: u32) = n" "\<not> (100000 :: u32) < of_nat n"
  using assms by (simp_all add: unat_of_nat word_less_nat_alt)

locale stored_section =
  fixes wr :: "'a \<Rightarrow> writer \<Rightarrow> writer res" and rd :: "reader \<Rightarrow> ('s \<times> reader) option"
    and image :: "'a \<Rightarrow> 's" and storable :: "'a \<Rightarrow> bool"
  assumes wr_app: "storable x \<Longrightarrow> wr x w = Inr (w @ written (wr x []))"
    and rd_wr: "storable x \<Longrightarrow> rd (written (wr x []) @ t) = Some (image x, t)"
begin

definition section_bytes :: "'a list \<Rightarrow> bytes" where
  "section_bytes xs = le_bytes 0 4 (of_nat (length xs) :: u32) @ concat (map (\<lambda>x. written (wr x [])) xs)"

lemma w_each_app: "\<forall>x \<in> set xs. storable x \<Longrightarrow> w_each wr xs w = Inr (w @ concat (map (\<lambda>x. written (wr x [])) xs))"
proof (induction xs arbitrary: w)
  case (Cons x xs)
  then have "wr x w = Inr (w @ written (wr x []))" by (intro wr_app) simp
  with Cons show ?case by simp
qed simp

lemma w_section_app: "\<forall>x \<in> set xs. storable x \<Longrightarrow> w_section wr xs w = Inr (w @ section_bytes xs)"
  by (simp add: w_section_def w_each_app section_bytes_def fields_app)

lemma load_each_app:
  assumes "\<forall>x \<in> set xs. storable x"
    "\<And>ys x zs. xs = ys @ x # zs \<Longrightarrow> f (image x) (fold upd ys g) = (Inr (Some ()), upd x (fold upd ys g))"
  shows "load_each rd f (length xs) (concat (map (\<lambda>x. written (wr x [])) xs) @ t) g = (Inr (Some t), fold upd xs g)"
  using assms
proof (induction xs arbitrary: g)
  case (Cons x xs)
  have x: "f (image x) g = (Inr (Some ()), upd x g)" using Cons.prems(2) [of "[]" x xs] by simp
  have rest: "f (image y) (fold upd ys (upd x g)) = (Inr (Some ()), upd y (fold upd ys (upd x g)))"
    if "xs = ys @ y # zs" for ys y zs
    using Cons.prems(2) [of "x # ys" y zs] that by simp
  show ?case using Cons.prems(1) x Cons.IH [OF _ rest] by (simp add: rd_wr load_steps)
qed (simp add: load_steps)

lemma load_section_app:
  assumes "\<forall>x \<in> set xs. storable x" "length xs \<le> 100000"
    "\<And>ys x zs. xs = ys @ x # zs \<Longrightarrow> f (image x) (fold upd ys g) = (Inr (Some ()), upd x (fold upd ys g))"
  shows "load_section rd f (section_bytes xs @ t) g = (Inr (Some t), fold upd xs g)"
  using load_each_app [OF assms(1), of f upd g, OF assms(3)]
  by (simp add: load_section_def section_bytes_def fields_get load_steps section_count [OF assms(2)])

text \<open>The first record the governor refuses ends the section.\<close>

lemma load_section_refused:
  assumes "storable x" "length xs < 100000" "f (image x) g = (Inr None, g')"
  shows "load_section rd f (section_bytes (x # xs) @ t) g = (Inr None, g')"
proof -
  have "length (x # xs) \<le> 100000" using assms(2) by simp
  note n = section_count [OF this]
  show ?thesis using assms(1,3)
    by (simp add: load_section_def section_bytes_def fields_get load_steps n [unfolded length_Cons] rd_wr del: of_nat_Suc)
qed

end

section \<open>What can be stored\<close>

definition amount_ok :: "double \<Rightarrow> bool" where
  "amount_ok v \<longleftrightarrow> Codec.whole v \<and> Fin 0 \<le> v"

definition ns_ok :: "int \<Rightarrow> bool" where
  "ns_ok n \<longleftrightarrow> 0 \<le> n \<and> n \<le> kMaxNs"

definition budget_storable :: "power_budget \<Rightarrow> bool" where
  "budget_storable b \<longleftrightarrow> str_ok (bud_name b) \<and> amount_ok (hard_max b) \<and> amount_ok (soft_target b) \<and>
     amount_ok (min_reserve b) \<and> amount_ok (burst_allowance b) \<and> ns_ok (burst_window b) \<and> ns_ok (recovery b) \<and>
     - (2 ^ 31) \<le> bud_priority b \<and> bud_priority b < 2 ^ 31"

definition reservation_storable :: "reservation \<Rightarrow> bool" where
  "reservation_storable r \<longleftrightarrow> amount_ok (requested_power r) \<and> amount_ok (requested_energy r) \<and>
     amount_ok (reserved_power r) \<and> amount_ok (energy_used r) \<and> ns_ok (validity r) \<and>
     - (2 ^ 63) \<le> created r \<and> created r < 2 ^ 63"

definition meter_storable :: "workload_id \<times> energy_meter \<Rightarrow> bool" where
  "meter_storable m \<longleftrightarrow> amount_ok (em_total (snd m))"

definition budget_image :: "power_budget \<Rightarrow> stored_budget" where
  "budget_image b = \<lparr>sb_id = raw (bud_id b), sb_gen = gen_raw (bud_generation b), sb_domain = raw (bud_domain b),
     sb_parent = parent_raw (bud_parent b), sb_name = bud_name b, sb_hmax = hard_max b, sb_soft = soft_target b,
     sb_reserve = min_reserve b, sb_burst = burst_allowance b, sb_window = word_of_int (burst_window b),
     sb_recovery = word_of_int (recovery b), sb_priority = word_of_int (bud_priority b), sb_auth = authoritative b\<rparr>"

definition reservation_image :: "reservation \<Rightarrow> stored_reservation" where
  "reservation_image r = \<lparr>sr_id = raw (res_id r), sr_budget = raw (res_budget r), sr_workload = raw (workload r),
     sr_class = class_code (power_class r), sr_power = requested_power r, sr_energy = requested_energy r,
     sr_policy = gen_raw (res_policy_generation r), sr_device = gen_raw (res_device_generation r),
     sr_bgen = gen_raw (res_budget_generation r), sr_epoch = gen_raw (env_epoch (authority r)),
     sr_boot = raw (env_boot (authority r)), sr_created = word_of_int (created r),
     sr_validity = word_of_int (validity r), sr_state = state_code (state r),
     sr_reserved = reserved_power r, sr_used = energy_used r\<rparr>"

lemma amount_whole [simp]: "amount_ok v \<Longrightarrow> Codec.whole v" by (simp add: amount_ok_def)

lemmas stored_get = fields_get str.get_enc f64.get_enc
lemmas stored_app = fields_app w_f64_whole

interpretation budgets: stored_section w_stored_budget read_stored_budget budget_image budget_storable
  by unfold_locales
    (simp_all add: w_stored_budget_def read_stored_budget_def budget_storable_def budget_image_def stored_app stored_get)

interpretation reservations: stored_section w_stored_reservation read_stored_reservation reservation_image reservation_storable
  by unfold_locales
    (simp_all add: w_stored_reservation_def read_stored_reservation_def reservation_storable_def reservation_image_def
      stored_app stored_get)

interpretation meters: stored_section w_stored_meter read_stored_meter "\<lambda>(wl, m). (raw wl, em_total m)" meter_storable
  by unfold_locales
    (auto simp: w_stored_meter_def read_stored_meter_def meter_storable_def stored_app stored_get split: prod.splits)

section \<open>What a record is read back as\<close>

text \<open>A stored budget forgets its policy generation, and its parent is always present: 0 for none.\<close>

definition persisted_budget :: "power_budget \<Rightarrow> power_budget" where
  "persisted_budget b = b\<lparr>bud_policy_generation := gen_null, bud_parent := Some (StrongId (parent_raw (bud_parent b)))\<rparr>"

text \<open>A stored reservation forgets its generation, request class, scope and times, and of its authority
  all but the epoch and the boot.\<close>

definition persisted_reservation :: "reservation \<Rightarrow> reservation" where
  "persisted_reservation r = r\<lparr>res_generation := gen_null, request_class := id_invalid, scope := id_invalid,
     authority := empty_envelope\<lparr>env_epoch := env_epoch (authority r), env_boot := env_boot (authority r)\<rparr>,
     activated_at := 0, released_at := 0\<rparr>"

lemma sint_i32: assumes "- (2 ^ 31) \<le> n" "n < 2 ^ 31" shows "sint (word_of_int n :: i32) = n"
  using assms by (subst sint_sbintrunc') (simp add: signed_take_bit_int_eq_self)

lemma ns_sint: "ns_ok n \<Longrightarrow> sint (word_of_int n :: i64) = n"
  by (rule sint_word_of_int) (simp_all add: ns_ok_def kMaxNs_def)

lemma ns_duration: "ns_ok n \<Longrightarrow> nanoseconds n = Inr n"
  by (simp add: ns_ok_def nanoseconds_def Duration_def)

lemma amount_quantity: "amount_ok v \<Longrightarrow> Watts v = Inr v \<and> Joules v = Inr v \<and> isfinite v \<and> \<not> v < Fin 0"
  by (cases v) (auto simp: amount_ok_def Codec.whole_def)

lemma class_code_inv: "class_of_code (class_code c) = c" "\<not> 7 < class_code c"
  by (cases c; simp add: class_of_code_def all_classes_def)+

lemma state_code_inv: "state_of_code (state_code s) = s" "\<not> 6 < state_code s"
  by (cases s; simp add: state_of_code_def all_states_def)+

lemma id_raw [simp]: "StrongId (raw i) = i" "Generation (gen_raw h) = h"
  by (cases i, simp, cases h, simp)

lemma make_budget_image: "budget_storable b \<Longrightarrow> make_budget (budget_image b) = Inr (persisted_budget b)"
  by (simp add: make_budget_def budget_image_def budget_storable_def persisted_budget_def amount_quantity
      ns_sint ns_duration sint_i32)

lemma make_reservation_image:
  "reservation_storable r \<Longrightarrow> make_reservation (reservation_image r) = Inr (persisted_reservation r)"
  by (simp add: make_reservation_def reservation_image_def reservation_storable_def persisted_reservation_def
      amount_quantity ns_sint ns_duration sint_word_of_int class_code_inv state_code_inv)

lemma plausible_image: "reservation_storable r \<Longrightarrow> plausible_reservation (reservation_image r)"
  by (simp add: plausible_reservation_def reservation_image_def reservation_storable_def amount_quantity
      class_code_inv state_code_inv)

definition add_budget :: "power_budget \<Rightarrow> governor \<Rightarrow> governor" where
  "add_budget b g = g\<lparr>gov_budgets := gov_budgets g @
     [(bud_id b, \<lparr>cfg = persisted_budget b, reserved = Fin 0, used = Fin 0\<rparr>)]\<rparr>"

definition add_reservation :: "reservation \<Rightarrow> governor \<Rightarrow> governor" where
  "add_reservation r g = g\<lparr>gov_reservations := gov_reservations g @ [(res_id r, persisted_reservation r)],
     gov_index := index_add (res_id r) (res_budget r) (workload r) (state r) (gov_index g),
     gov_budgets := reclaim (persisted_reservation r) (gov_budgets g)\<rparr>"

lemma load_budget_image:
  assumes "budget_storable b" "map_of (gov_budgets g) (bud_id b) = None"
  shows "load_budget (budget_image b) g = (Inr (Some ()), add_budget b g)"
proof -
  have "\<not> (sb_hmax (budget_image b) < Fin 0 \<or> sb_soft (budget_image b) < Fin 0 \<or>
      sb_reserve (budget_image b) < Fin 0 \<or> sb_burst (budget_image b) < Fin 0)"
    using assms(1) by (simp add: budget_image_def budget_storable_def amount_quantity)
  moreover have "bud_id (persisted_budget b) = bud_id b" by (simp add: persisted_budget_def)
  ultimately show ?thesis using assms(2)
    by (simp add: load_budget_def load_steps make_budget_image [OF assms(1)] install_def update_fresh add_budget_def)
qed

lemma load_reservation_image:
  assumes "reservation_storable r" "map_of (gov_reservations g) (res_id r) = None"
  shows "load_reservation (reservation_image r) g = (Inr (Some ()), add_reservation r g)"
proof -
  have "res_id (persisted_reservation r) = res_id r" "res_budget (persisted_reservation r) = res_budget r"
      "workload (persisted_reservation r) = workload r" "state (persisted_reservation r) = state r"
    by (simp_all add: persisted_reservation_def)
  then show ?thesis using assms(2)
    by (simp add: load_reservation_def load_steps make_reservation_image [OF assms(1)] plausible_image [OF assms(1)]
        rm_restore_def update_fresh add_reservation_def)
qed

text \<open>A stored meter is read back as one sample of derived energy.\<close>

definition recovered_meter :: "timestamp \<Rightarrow> joules \<Rightarrow> energy_meter" where
  "recovered_meter clk j = new_meter\<lparr>em_total := j, by_provenance := [Fin 0, Fin 0, j, Fin 0, Fin 0], em_last := clk, em_samples := 1\<rparr>"

lemma whole_add_zero: assumes "amount_ok j" shows "clamped (Fin 0 + j) = j"
proof -
  from assms obtain n where n: "j = Fin (of_int n)" "\<bar>n\<bar> \<le> 2 ^ 43" "Fin 0 \<le> j"
    by (auto simp: amount_ok_def elim: wholeE)
  have "\<bar>n\<bar> \<le> 2 ^ 53" using n(2) by simp
  then have "rnd64 (of_int n) = j" using n(1) by (simp add: rnd64_int)
  then show ?thesis using n by (simp add: clamped_def)
qed

lemma meter_add_image: "amount_ok j \<Longrightarrow> rbind (Joules j) (\<lambda>j. meter_add j DERIVED clk new_meter) = Inr (recovered_meter clk j)"
  using amount_quantity [of j] whole_add_zero [of j]
  by (simp add: meter_add_def recovered_meter_def new_meter_def numeral_nat)

lemma update_twice: "AList.update k v (AList.update k w al) = AList.update k v al"
  by (induction al) auto

lemma load_meter_image:
  assumes "meter_storable m"
  shows "load_meter clk (case m of (wl, em) \<Rightarrow> (raw wl, em_total em)) g =
    (Inr (Some ()), put_meter (fst m) (recovered_meter clk (em_total (snd m))) g)"
  using assms amount_quantity [of "em_total (snd m)"] meter_add_image [of "em_total (snd m)" clk]
  by (cases m) (simp add: load_meter_def load_steps meter_storable_def put_meter_def update_twice)

section \<open>The hierarchy check\<close>

lemma parent_raw_valid: "is_valid (StrongId (parent_raw p)) \<longleftrightarrow> (\<exists>c. p = Some c \<and> is_valid c)"
  by (auto simp: parent_raw_def is_valid_def split: option.split)

lemma parent_raw_id: "is_valid c \<Longrightarrow> StrongId (parent_raw (Some c)) = c"
  by (simp add: parent_raw_def)

lemma find_persisted: "find (\<lambda>x. bud_id x = c) (map persisted_budget bs) = map_option persisted_budget (find (\<lambda>x. bud_id x = c) bs)"
  by (induction bs) (auto simp: persisted_budget_def)

text \<open>Storing does not change what the check sees: an absent parent and the parent 0 both end the walk.\<close>

lemma walk_persisted:
  "hierarchy_walk (map persisted_budget bs) b k (Some (StrongId (parent_raw p))) = hierarchy_walk bs b k p"
proof (induction bs b k p rule: hierarchy_walk.induct)
  case (1 bs b k p)
  show ?case
  proof (cases "\<exists>c. p = Some c \<and> is_valid c")
    case False
    then show ?thesis using parent_raw_valid [of p] hierarchy_walk.simps [of bs b k p]
      by (subst hierarchy_walk.simps) (auto split: option.splits)
  next
    case True
    then obtain c where c: "p = Some c" "is_valid c" by blast
    show ?thesis
    proof (cases "find (\<lambda>x. bud_id x = c) bs")
      case None
      then show ?thesis using c hierarchy_walk.simps [of bs b k p]
        by (subst hierarchy_walk.simps) (simp add: parent_raw_id find_persisted)
    next
      case (Some x)
      have "bud_parent (persisted_budget x) = Some (StrongId (parent_raw (bud_parent x)))" by (simp add: persisted_budget_def)
      then show ?thesis using c Some 1 [OF c(1) _ _ Some] hierarchy_walk.simps [of bs b k p]
        by (subst hierarchy_walk.simps) (simp add: parent_raw_id find_persisted)
    qed
  qed
qed

lemma validate_persisted:
  assumes "snapshots bm' = map persisted_budget (snapshots bm)" "\<And>x. has bm' x = has bm x"
  shows "validate_budget_hierarchy bm' = validate_budget_hierarchy bm"
proof -
  have "(case bud_parent (persisted_budget b) of Some p \<Rightarrow> is_valid p \<longrightarrow> has bm' p | None \<Rightarrow> True) =
      (case bud_parent b of Some p \<Rightarrow> is_valid p \<longrightarrow> has bm p | None \<Rightarrow> True)" for b
    using assms(2) parent_raw_valid [of "bud_parent b"]
    by (auto simp: persisted_budget_def parent_raw_id split: option.splits)
  moreover have "hierarchy_walk (snapshots bm') (bud_id (persisted_budget b)) 0 (bud_parent (persisted_budget b)) =
      hierarchy_walk (snapshots bm) (bud_id b) 0 (bud_parent b)" for b
    unfolding assms(1) by (simp add: persisted_budget_def walk_persisted)
  ultimately show ?thesis by (simp add: validate_budget_hierarchy_def assms(1) list_all_iff)
qed

lemma find_snapshots: "wf_bm bm \<Longrightarrow> find (\<lambda>x. bud_id x = c) (snapshots bm) = map_option cfg (map_of bm c)"
proof (induction bm)
  case (Cons a bm)
  obtain k s where a: "a = (k, s)" by force
  have d: "distinct (map fst bm)" "k \<notin> fst ` set bm" using Cons.prems by (simp_all add: wf_bm_def a)
  have "bud_id (cfg t) = x \<and> state_ok t" if "map_of bm x = Some t" for x t
  proof -
    have "x \<noteq> k" using that d(2) map_of_SomeD by force
    then have "map_of (a # bm) x = Some t" using that by (simp add: a)
    then show ?thesis using Cons.prems unfolding wf_bm_def by blast
  qed
  then have "wf_bm bm" using d(1) by (simp add: wf_bm_def)
  moreover have "bud_id (cfg s) = k" using Cons.prems by (simp add: wf_bm_def a)
  ultimately show ?case using Cons.IH by (simp add: snapshots_def a)
qed (simp add: snapshots_def)

lemma walk_simps:
  "hierarchy_walk snaps b k None"
  "\<not> is_valid c \<Longrightarrow> hierarchy_walk snaps b k (Some c)"
  "is_valid b \<Longrightarrow> \<not> hierarchy_walk snaps b k (Some b)"
  "is_valid c \<Longrightarrow> c \<noteq> b \<Longrightarrow> find (\<lambda>x. bud_id x = c) snaps = Some x \<Longrightarrow>
     hierarchy_walk snaps b k (Some c) \<longleftrightarrow> k < 256 \<and> hierarchy_walk snaps b (Suc k) (bud_parent x)"
  by (subst hierarchy_walk.simps; simp add: Suc_le_eq not_less)+

lemma chain_loop_simps:
  "chain_loop bm n None = []"
  "\<not> is_valid c \<Longrightarrow> chain_loop bm n (Some c) = []"
  "is_valid c \<Longrightarrow> map_of bm c = None \<Longrightarrow> chain_loop bm n (Some c) = [c]"
  "is_valid c \<Longrightarrow> map_of bm c = Some s \<Longrightarrow> chain_loop bm n (Some c) =
     (if n < 64 then c # chain_loop bm (Suc n) (bud_parent (cfg s)) else [c])"
  by (subst chain_loop.simps; simp)+

lemma chain_loop_cases:
  obtains (stop) "chain_loop bm n cur = []"
  | (open_end) c where "cur = Some c" "is_valid c" "map_of bm c = None" "chain_loop bm n cur = [c]"
  | (step) c s where "cur = Some c" "is_valid c" "map_of bm c = Some s"
      "chain_loop bm n cur = (if n < 64 then c # chain_loop bm (Suc n) (bud_parent (cfg s)) else [c])"
  using chain_loop_simps by (cases cur) (metis option.exhaust)+

lemma walk_not_in_chain:
  assumes "wf_bm bm" "hierarchy_walk (snapshots bm) b k cur"
  shows "b \<notin> set (chain_loop bm n cur)"
  using assms(2)
proof (induction "64 - n" arbitrary: n k cur rule: less_induct)
  case less
  show ?case
  proof (cases rule: chain_loop_cases [of bm n cur])
    case (open_end c)
    then show ?thesis using less.prems walk_simps(3) by auto
  next
    case (step c s)
    have "c \<noteq> b" using step less.prems walk_simps(3) by auto
    moreover have "hierarchy_walk (snapshots bm) b (Suc k) (bud_parent (cfg s))"
      using less.prems step \<open>c \<noteq> b\<close> walk_simps(4) [of c b "snapshots bm" "cfg s" k] find_snapshots [OF assms(1), of c] by simp
    moreover have "64 - Suc n < 64 - n" if "n < 64" using that by simp
    ultimately show ?thesis using less.hyps [of "Suc n"] step(4) by auto
  qed simp
qed

lemma chain_distinct:
  assumes "wf_bm bm" "validate_budget_hierarchy bm"
  shows "distinct (chain_loop bm n cur)"
proof (induction "64 - n" arbitrary: n cur rule: less_induct)
  case less
  show ?case
  proof (cases rule: chain_loop_cases [of bm n cur])
    case (step c s)
    have "(c, s) \<in> set bm" using step(3) by (rule map_of_SomeD)
    then have "cfg s \<in> set (snapshots bm)" by (force simp: snapshots_def)
    moreover have "bud_id (cfg s) = c" using assms(1) step(3) by (simp add: wf_bm_def)
    ultimately have "hierarchy_walk (snapshots bm) c 0 (bud_parent (cfg s))"
      using assms(2) by (auto simp: validate_budget_hierarchy_def list_all_iff)
    from walk_not_in_chain [OF assms(1) this] less [of "Suc n"] step(4) show ?thesis by auto
  qed simp_all
qed

lemma chain_installed:
  assumes "wf_bm bm" "validate_budget_hierarchy bm" "\<forall>c. cur = Some c \<and> is_valid c \<longrightarrow> has bm c"
  shows "\<forall>x \<in> set (chain_loop bm n cur). has bm x"
  using assms(3)
proof (induction "64 - n" arbitrary: n cur rule: less_induct)
  case less
  show ?case
  proof (cases rule: chain_loop_cases [of bm n cur])
    case (open_end c)
    then show ?thesis using less.prems by (auto simp: has_def)
  next
    case (step c s)
    have "cfg s \<in> set (snapshots bm)" using map_of_SomeD [OF step(3)] by (force simp: snapshots_def)
    then have "\<forall>p. bud_parent (cfg s) = Some p \<and> is_valid p \<longrightarrow> has bm p"
      using assms(2) by (auto simp: validate_budget_hierarchy_def list_all_iff split: option.splits)
    then have "n < 64 \<Longrightarrow> \<forall>x \<in> set (chain_loop bm (Suc n) (bud_parent (cfg s))). has bm x"
      using less.hyps [of "Suc n"] by simp
    then show ?thesis using step by (auto simp: has_def)
  qed simp
qed

end
