(* ===== verification/Recovery.thy ===== *)
theory Recovery
  imports Governor_Safety Snapshot_Proofs "HOL-Library.Multiset"
begin

text \<open>
  The properties of saving and loading a governor: what a fresh governor recovers, what a load over a
  governor in service does, and what the hierarchy check guarantees.
\<close>

section \<open>The policy\<close>

definition cap_storable :: "watts option \<Rightarrow> bool" where
  "cap_storable c \<longleftrightarrow> (\<forall>v. c = Some v \<longrightarrow> amount_ok v)"

definition policy_storable :: "power_policy \<Rightarrow> bool" where
  "policy_storable p \<longleftrightarrow> str_ok (pol_name p) \<and> cap_storable (fleet_hard_cap p) \<and> cap_storable (node_hard_cap p) \<and>
     cap_storable (device_hard_cap p) \<and> cap_storable (pol_soft_target p)"

definition enc_cap :: "watts option \<Rightarrow> bytes" where
  "enc_cap c = written (w_cap c [])"

lemma w_cap_app: "cap_storable c \<Longrightarrow> w_cap c w = Inr (w @ enc_cap c)"
  by (cases c) (simp_all add: cap_storable_def enc_cap_def w_cap_def stored_app)

lemma load_cap_enc: "cap_storable c \<Longrightarrow> load_cap (enc_cap c @ t) g = (Inr (Some (c, t)), g)"
  using fields_get(6) [of True] fields_get(6) [of False]
  by (cases c) (simp_all add: cap_storable_def enc_cap_def w_cap_def stored_app load_cap_def load_steps
      f64.get_enc amount_quantity)

text \<open>The policy a load builds: the defaults with the stored name, generation and caps.\<close>

definition persisted_policy :: "policy_id \<Rightarrow> power_policy \<Rightarrow> power_policy" where
  "persisted_policy pid p = (policy_defaults pid (pol_name p))\<lparr>pol_generation := pol_generation p,
     fleet_hard_cap := fleet_hard_cap p, node_hard_cap := node_hard_cap p,
     device_hard_cap := device_hard_cap p, pol_soft_target := pol_soft_target p\<rparr>"

definition recover_policy :: "governor \<Rightarrow> governor \<Rightarrow> governor" where
  "recover_policy g f =
     (let f1 = recover_identity (gen_raw (cfg_epoch (gov_cfg g))) (raw (cfg_boot (gov_cfg g))) (raw (cfg_node (gov_cfg g))) f;
          pid = StrongId (next_policy (gov_ids f) + 1)
      in adopt_policy (persisted_policy pid (gov_policy g)) (snd (allocate_policy f1)))"

definition head_bytes :: "governor \<Rightarrow> bytes" where
  "head_bytes g = written (w_policy g [])"

lemma head_written:
  assumes "policy_storable (gov_policy g)"
  shows "w_policy g [] = Inr (head_bytes g)"
    "load_policy (head_bytes g @ t) f = (Inr (Some t), recover_policy g f)"
proof -
  let ?p = "gov_policy g"
  have w: "w_policy g [] = Inr (le_bytes 0 8 (gen_raw (cfg_epoch (gov_cfg g))) @ le_bytes 0 8 (raw (cfg_boot (gov_cfg g))) @
      le_bytes 0 8 (raw (cfg_node (gov_cfg g))) @ le_bytes 0 8 (gen_raw (pol_generation ?p)) @ enc_str (pol_name ?p) @
      enc_cap (fleet_hard_cap ?p) @ enc_cap (node_hard_cap ?p) @ enc_cap (device_hard_cap ?p) @ enc_cap (pol_soft_target ?p))"
    using assms by (simp add: w_policy_def policy_storable_def stored_app w_cap_app Let_def)
  then show "w_policy g [] = Inr (head_bytes g)" by (simp add: head_bytes_def)
  show "load_policy (head_bytes g @ t) f = (Inr (Some t), recover_policy g f)"
    using assms unfolding head_bytes_def w
    by (simp add: load_policy_def read_head_def stored_get load_steps policy_storable_def load_cap_enc
        allocate_policy_def allocate_def recover_policy_def persisted_policy_def recover_identity_def Let_def)
qed

lemma recover_policy_simps [simp]:
  "gov_budgets (recover_policy g f) = gov_budgets f" "gov_reservations (recover_policy g f) = gov_reservations f"
  "gov_workload_meter (recover_policy g f) = gov_workload_meter f" "gov_devices (recover_policy g f) = gov_devices f"
  "gov_index (recover_policy g f) = gov_index f" "gov_history (recover_policy g f) = gov_history f"
  by (simp_all add: recover_policy_def adopt_policy_def allocate_policy_def recover_identity_def allocate_def Let_def)

section \<open>The whole state\<close>

definition storable :: "governor \<Rightarrow> bool" where
  "storable g \<longleftrightarrow> policy_storable (gov_policy g) \<and>
     (\<forall>b \<in> set (snapshots (gov_budgets g)). budget_storable b) \<and> length (gov_budgets g) \<le> 100000 \<and>
     (\<forall>r \<in> set (rm_all (gov_reservations g)). reservation_storable r) \<and> length (gov_reservations g) \<le> 100000 \<and>
     (\<forall>m \<in> set (gov_workload_meter g). meter_storable m) \<and> length (gov_workload_meter g) \<le> 100000"

text \<open>The tables of a governor are maps from the identifiers of what they hold.\<close>

definition keyed :: "governor \<Rightarrow> bool" where
  "keyed g \<longleftrightarrow> wf_bm (gov_budgets g) \<and> distinct (map fst (gov_reservations g)) \<and>
     (\<forall>(k, r) \<in> set (gov_reservations g). res_id r = k) \<and> distinct (map fst (gov_workload_meter g))"

definition state_bytes :: "governor \<Rightarrow> bytes" where
  "state_bytes g = head_bytes g @ budgets.section_bytes (snapshots (gov_budgets g)) @
     reservations.section_bytes (rm_all (gov_reservations g)) @ meters.section_bytes (gov_workload_meter g)"

lemma encode_state_bytes: "storable g \<Longrightarrow> encode_state g = Inr (state_bytes g)"
  by (simp add: encode_state_def state_bytes_def storable_def head_written budgets.w_section_app
      reservations.w_section_app meters.w_section_app)

text \<open>What the three sections add to a governor.\<close>

definition fresh_entry :: "power_budget \<Rightarrow> budget_id \<times> budget_state" where
  "fresh_entry b = (bud_id b, \<lparr>cfg = persisted_budget b, reserved = Fin 0, used = Fin 0\<rparr>)"

lemma fold_add_budget: "fold add_budget bs f = f\<lparr>gov_budgets := gov_budgets f @ map fresh_entry bs\<rparr>"
  by (induction bs arbitrary: f) (simp_all add: add_budget_def fresh_entry_def)

lemma fold_add_reservation:
  "gov_reservations (fold add_reservation rs f) = gov_reservations f @ map (\<lambda>r. (res_id r, persisted_reservation r)) rs"
  "gov_budgets (fold add_reservation rs f) = fold (\<lambda>r. reclaim (persisted_reservation r)) rs (gov_budgets f)"
  "gov_workload_meter (fold add_reservation rs f) = gov_workload_meter f"
  "gov_policy (fold add_reservation rs f) = gov_policy f" "gov_authority (fold add_reservation rs f) = gov_authority f"
  "gov_cfg (fold add_reservation rs f) = gov_cfg f" "gov_devices (fold add_reservation rs f) = gov_devices f"
  by (induction rs arbitrary: f) (simp_all add: add_reservation_def)

definition add_meter :: "timestamp \<Rightarrow> workload_id \<times> energy_meter \<Rightarrow> governor \<Rightarrow> governor" where
  "add_meter clk m = put_meter (fst m) (recovered_meter clk (em_total (snd m)))"

lemma fold_add_meter:
  "fold (add_meter clk) ms f =
     f\<lparr>gov_workload_meter := fold (\<lambda>m. AList.update (fst m) (recovered_meter clk (em_total (snd m)))) ms (gov_workload_meter f)\<rparr>"
  by (induction ms arbitrary: f) (simp_all add: add_meter_def put_meter_def)

definition recovered :: "timestamp \<Rightarrow> governor \<Rightarrow> governor \<Rightarrow> governor" where
  "recovered clk g f = invalidate_live_telemetry (fold (add_meter clk) (gov_workload_meter g)
     (fold add_reservation (rm_all (gov_reservations g)) (fold add_budget (snapshots (gov_budgets g)) (recover_policy g f))))"

lemma snapshot_ids: "wf_bm bm \<Longrightarrow> map bud_id (snapshots bm) = map fst bm"
  by (auto simp: wf_bm_def snapshots_def split_beta)

lemma rm_all_ids: "keyed g \<Longrightarrow> distinct (map res_id (rm_all (gov_reservations g)))"
proof -
  assume k: "keyed g"
  have "map res_id (map snd (gov_reservations g)) = map fst (gov_reservations g)" using k by (auto simp: keyed_def)
  then have "distinct (map res_id (map snd (gov_reservations g)))" using k unfolding keyed_def by metis
  moreover have "mset (map res_id (rm_all (gov_reservations g))) = mset (map res_id (map snd (gov_reservations g)))"
    unfolding rm_all_def mset_map mset_sort ..
  ultimately show ?thesis using mset_eq_imp_distinct_iff by blast
qed

lemma decode_state_bytes:
  assumes "storable g" "keyed g" "validate_budget_hierarchy (gov_budgets g)"
    "gov_budgets f = []" "gov_reservations f = []"
  shows "decode_state clk (state_bytes g) f = (Inr (Some ()), recovered clk g f)"
proof -
  let ?bs = "snapshots (gov_budgets g)" and ?rs = "rm_all (gov_reservations g)" and ?ms = "gov_workload_meter g"
  let ?f1 = "recover_policy g f"
  let ?f2 = "fold add_budget ?bs ?f1" let ?f3 = "fold add_reservation ?rs ?f2"
  have l: "length ?bs \<le> 100000" "length ?rs \<le> 100000"
    using assms(1) by (simp_all add: storable_def snapshots_def rm_all_def)
  have wf: "wf_bm (gov_budgets g)" using assms(2) by (simp add: keyed_def)
  have d: "distinct (map bud_id ?bs)" using wf by (simp add: snapshot_ids) (simp add: wf_bm_def)
  have b: "load_section read_stored_budget load_budget (budgets.section_bytes ?bs @ t) ?f1 = (Inr (Some t), ?f2)" for t
  proof (rule budgets.load_section_app)
    fix ys x zs assume e: "?bs = ys @ x # zs"
    then have "map_of (gov_budgets (fold add_budget ys ?f1)) (bud_id x) = None"
      using d assms(4) by (auto simp: fold_add_budget map_of_eq_None_iff fresh_entry_def image_iff)
    moreover have "budget_storable x" using assms(1) e by (simp add: storable_def)
    ultimately show "load_budget (budget_image x) (fold add_budget ys ?f1) = (Inr (Some ()), add_budget x (fold add_budget ys ?f1))"
      by (metis load_budget_image)
  qed (use assms(1) l in \<open>simp_all add: storable_def\<close>)
  have r: "load_section read_stored_reservation load_reservation (reservations.section_bytes ?rs @ t) ?f2 = (Inr (Some t), ?f3)" for t
  proof (rule reservations.load_section_app)
    fix ys x zs assume e: "?rs = ys @ x # zs"
    then have "map_of (gov_reservations (fold add_reservation ys ?f2)) (res_id x) = None"
      using rm_all_ids [OF assms(2)] assms(5) by (auto simp: fold_add_reservation fold_add_budget map_of_eq_None_iff image_iff)
    moreover have "reservation_storable x" using assms(1) e by (simp add: storable_def)
    ultimately show "load_reservation (reservation_image x) (fold add_reservation ys ?f2) = (Inr (Some ()), add_reservation x (fold add_reservation ys ?f2))"
      by (metis load_reservation_image)
  qed (use assms(1) l in \<open>simp_all add: storable_def\<close>)
  have m: "load_section read_stored_meter (load_meter clk) (meters.section_bytes ?ms @ t) ?f3 = (Inr (Some t), fold (add_meter clk) ?ms ?f3)" for t
    using assms(1) by (intro meters.load_section_app) (auto simp: storable_def load_meter_image add_meter_def)
  have v: "validate_budget_hierarchy (gov_budgets ?f2)"
  proof -
    have "has (map fresh_entry ?bs) x = has (gov_budgets g) x" for x
      using arg_cong [OF snapshot_ids [OF wf], of set]
      by (auto simp: has_def map_of_eq_None_iff fresh_entry_def image_iff) 
    moreover have "snapshots (map fresh_entry ?bs) = map persisted_budget ?bs" by (simp add: snapshots_def fresh_entry_def split_beta)
    ultimately show ?thesis using validate_persisted [of "map fresh_entry ?bs" "gov_budgets g"] assms(3,4)
      by (simp add: fold_add_budget)
  qed
  show ?thesis using assms(1)
      head_written(2) [of g "budgets.section_bytes ?bs @ reservations.section_bytes ?rs @ meters.section_bytes ?ms" f] m [of "[]"]
    by (simp add: decode_state_def state_bytes_def load_steps storable_def recovered_def at_end_def b r v)
qed

text \<open>The same through the file system: what \<^verbatim>\<open>save\<close> reported as saved, \<^verbatim>\<open>load\<close> recovers.\<close>

lemma saved_file:
  assumes "storable g" and saved: "g_save io clk path (fs, g) = (Inr True, fs', g')"
    and stream: "\<And>data. encode_envelope \<lparr>schema = PERSIST_SCHEMA, blob = state_bytes g\<rparr> = Inr data \<Longrightarrow> outcome_ok io data"
  obtains bytes where "fs' path = Some bytes" "decode_envelope bytes = Inr \<lparr>schema = PERSIST_SCHEMA, blob = state_bytes g\<rparr>"
proof -
  let ?e = "\<lparr>schema = PERSIST_SCHEMA, blob = state_bytes g\<rparr>"
  obtain bytes where e: "encode_envelope ?e = Inr bytes" and w: "persist_write io path bytes fs = (Inr (), fs')"
    using saved by (auto simp: g_save_def encode_state_bytes [OF assms(1)] split: sum.splits prod.splits)
  show thesis
  proof (rule that)
    show "fs' path = Some bytes"
      using w stream [OF e] by (auto simp: persist_write_def outcome_ok_def Let_def split: if_splits)
    show "decode_envelope bytes = Inr ?e" using e by (simp add: decode_envelope_iff)
  qed
qed

lemma save_then_load:
  assumes "storable g" "keyed g" "validate_budget_hierarchy (gov_budgets g)" "gov_budgets f = []" "gov_reservations f = []"
    and saved: "g_save io clk path (fs, g) = (Inr True, fs', g')"
    and stream: "\<And>data. encode_envelope \<lparr>schema = PERSIST_SCHEMA, blob = state_bytes g\<rparr> = Inr data \<Longrightarrow> outcome_ok io data"
  shows "g_load \<lparr>seek_ok = True, read_ok = True\<rparr> now path fs' f =
    (Inr True, log_change RECOVERED (''state recovered from '' @ path) now (recovered now g f))"
proof (rule saved_file [OF assms(1) saved stream])
  fix bytes assume "fs' path = Some bytes" "decode_envelope bytes = Inr \<lparr>schema = PERSIST_SCHEMA, blob = state_bytes g\<rparr>"
  then show ?thesis using decode_state_bytes [OF assms(1-5), of now] by (simp add: g_load_def persist_read_def)
qed

section \<open>What the recovered governor holds\<close>

definition same_but_reserved :: "budget_manager \<Rightarrow> budget_manager \<Rightarrow> bool" where
  "same_but_reserved bm bm' \<longleftrightarrow>
     (\<forall>x. map_option (\<lambda>s. (cfg s, used s)) (map_of bm' x) = map_option (\<lambda>s. (cfg s, used s)) (map_of bm x))"

lemma book_reserved: "same_but_reserved bm (book (add_reserved a) bs bm)"
proof (induction bs arbitrary: bm)
  case (Cons b bs)
  have "same_but_reserved bm (upd_state (add_reserved a) b bm)"
    by (auto simp: same_but_reserved_def upd_state_def update_conv' add_reserved_def split: option.split)
  then show ?case using Cons.IH [of "upd_state (add_reserved a) b bm"] by (simp add: same_but_reserved_def book_def)
qed (simp add: same_but_reserved_def book_def)

lemma reclaim_reserved: "same_but_reserved bm (reclaim r bm)"
  using book_reserved by (auto simp: reclaim_def bm_reserve_def same_but_reserved_def split: option.split)

lemma fold_reclaim: "same_but_reserved bm (fold (\<lambda>r. reclaim (persisted_reservation r)) rs bm)"
proof (induction rs arbitrary: bm)
  case (Cons r rs)
  then show ?case using reclaim_reserved [of bm "persisted_reservation r"] unfolding same_but_reserved_def by simp
qed (simp add: same_but_reserved_def)

lemma map_of_fresh:
  assumes "wf_bm bm"
  shows "map_of (map fresh_entry (snapshots bm)) x =
    map_option (\<lambda>s. \<lparr>cfg = persisted_budget (cfg s), reserved = Fin 0, used = Fin 0\<rparr>) (map_of bm x)"
proof -
  have "map fresh_entry (snapshots bm) =
      map (\<lambda>(k, s). (k, \<lparr>cfg = persisted_budget (cfg s), reserved = Fin 0, used = Fin 0\<rparr>)) bm"
    using assms by (auto simp: snapshots_def fresh_entry_def wf_bm_def)
  then show ?thesis by (simp add: map_of_map)
qed

lemma map_of_reservations:
  assumes "keyed g"
  shows "map_of (map (\<lambda>r. (res_id r, persisted_reservation r)) (rm_all (gov_reservations g))) x =
    map_option persisted_reservation (map_of (gov_reservations g) x)"
proof -
  let ?rs = "rm_all (gov_reservations g)"
  have d: "distinct (map fst (map (\<lambda>r. (res_id r, persisted_reservation r)) ?rs))"
    using rm_all_ids [OF assms] by (simp add: comp_def)
  have s: "set ?rs = snd ` set (gov_reservations g)" by (simp add: rm_all_def)
  have k: "distinct (map fst (gov_reservations g))" "\<And>k r. (k, r) \<in> set (gov_reservations g) \<Longrightarrow> res_id r = k"
    using assms by (auto simp: keyed_def)
  show ?thesis
  proof (cases "map_of (gov_reservations g) x")
    case None
    then have "\<forall>r \<in> set ?rs. res_id r \<noteq> x" using k(2) s by (auto simp: map_of_eq_None_iff image_iff)
    then have "map_of (map (\<lambda>r. (res_id r, persisted_reservation r)) ?rs) x = None" by (auto simp: map_of_eq_None_iff)
    then show ?thesis using None by simp
  next
    case (Some r)
    then have "(x, r) \<in> set (gov_reservations g)" by (rule map_of_SomeD)
    then have "r \<in> set ?rs" "res_id r = x" using s k(2) by force+
    then have "(x, persisted_reservation r) \<in> set (map (\<lambda>r. (res_id r, persisted_reservation r)) ?rs)" by auto
    then show ?thesis using map_of_is_SomeI [OF d] Some by simp
  qed
qed

lemma map_of_meters:
  assumes "distinct (map fst ms)"
  shows "map_of (fold (\<lambda>m. AList.update (fst m) (h (snd m))) ms al) x =
    (case map_of ms x of Some m \<Rightarrow> Some (h m) | None \<Rightarrow> map_of al x)"
  using assms
proof (induction ms arbitrary: al)
  case (Cons m ms)
  then have "map_of ms (fst m) = None" by (auto simp: map_of_eq_None_iff)
  with Cons show ?case by (cases m) (auto simp: update_conv' split: option.split)
qed simp

section \<open>Properties\<close>

text \<open>C6: A saved state is recovered. Take a governor whose stored quantities are whole numbers in range,
  whose tables are within the limits of the format and keyed by the identifiers of their entries, and
  whose budgets pass the hierarchy check (every parent installed, no cycle; \<^verbatim>\<open>install\<close> does not ask for
  it). Encoding it succeeds, and a governor without budgets, reservations and workload energy that
  decodes the bytes recovers the node, the boot identifier and the epoch of the saver's configuration
  (its gate may have moved on to another epoch: that one is not stored), the policy generation and
  the caps of the policy, every budget, every reservation in its state, and the energy of every workload;
  it holds no other budget, reservation or workload. What is not stored is reset: usage of the budgets is
  zero, and telemetry has to be observed anew.\<close>

theorem saved_state_recovered:
  assumes "storable g" "keyed g" "validate_budget_hierarchy (gov_budgets g)"
    "gov_budgets f = []" "gov_reservations f = []" "gov_workload_meter f = []"
  shows "\<exists>b h. encode_state g = Inr b \<and> decode_state clk b f = (Inr (Some ()), h) \<and>
    cfg_node (gov_cfg h) = cfg_node (gov_cfg g) \<and>
    gate_epoch (gov_authority h) = cfg_epoch (gov_cfg g) \<and> gate_boot (gov_authority h) = cfg_boot (gov_cfg g) \<and>
    gate_policy (gov_authority h) = pol_generation (gov_policy g) \<and>
    (\<exists>pid. gov_policy h = persisted_policy pid (gov_policy g)) \<and>
    (\<forall>x. map_option (\<lambda>s. (cfg s, used s)) (map_of (gov_budgets h) x) =
      map_option (\<lambda>s. (persisted_budget (cfg s), Fin 0)) (map_of (gov_budgets g) x)) \<and>
    (\<forall>x. map_of (gov_reservations h) x = map_option persisted_reservation (map_of (gov_reservations g) x)) \<and>
    (\<forall>wl. map_option em_total (map_of (gov_workload_meter h) wl) = map_option em_total (map_of (gov_workload_meter g) wl)) \<and>
    (\<forall>(k, ds) \<in> set (gov_devices h). dev_latest ds = None \<and> dev_last_observed ds = 0)"
proof -
  let ?h = "recovered clk g f"
  let ?f2 = "fold add_budget (snapshots (gov_budgets g)) (recover_policy g f)"
  have wf: "wf_bm (gov_budgets g)" "distinct (map fst (gov_workload_meter g))" using assms(2) by (simp_all add: keyed_def)
  have h: "?h = invalidate_live_telemetry (fold (add_meter clk) (gov_workload_meter g) (fold add_reservation (rm_all (gov_reservations g)) ?f2))"
    by (simp add: recovered_def)
  have f2: "gov_budgets ?f2 = map fresh_entry (snapshots (gov_budgets g))" "gov_reservations ?f2 = []" "gov_workload_meter ?f2 = []"
    by (simp_all add: fold_add_budget assms(4-6))
  have "gov_cfg ?h = gov_cfg (recover_policy g f)" "gov_authority ?h = gov_authority (recover_policy g f)"
      "gov_policy ?h = gov_policy (recover_policy g f)"
    by (simp_all add: h invalidate_live_telemetry_def fold_add_meter fold_add_reservation fold_add_budget)
  then have head: "cfg_node (gov_cfg ?h) = cfg_node (gov_cfg g)" "gate_epoch (gov_authority ?h) = cfg_epoch (gov_cfg g)"
      "gate_boot (gov_authority ?h) = cfg_boot (gov_cfg g)" "gate_policy (gov_authority ?h) = pol_generation (gov_policy g)"
      "\<exists>pid. gov_policy ?h = persisted_policy pid (gov_policy g)"
    by (auto simp: recover_policy_def recover_identity_def adopt_policy_def allocate_policy_def allocate_def
        set_boot_def reset_epoch_def set_policy_def persisted_policy_def Let_def)
  have "map_option (\<lambda>s. (cfg s, used s)) (map_of (gov_budgets ?h) x) =
      map_option (\<lambda>s. (persisted_budget (cfg s), Fin 0)) (map_of (gov_budgets g) x)" for x
    using fold_reclaim [of "gov_budgets ?f2" "rm_all (gov_reservations g)"] map_of_fresh [OF wf(1), of x]
    by (simp add: h invalidate_live_telemetry_def fold_add_meter fold_add_reservation f2 same_but_reserved_def
        option.map_comp comp_def)
  moreover have "map_of (gov_reservations ?h) x = map_option persisted_reservation (map_of (gov_reservations g) x)" for x
    using map_of_reservations [OF assms(2), of x]
    by (simp add: h invalidate_live_telemetry_def fold_add_meter fold_add_reservation f2)
  moreover have "map_option em_total (map_of (gov_workload_meter ?h) wl) = map_option em_total (map_of (gov_workload_meter g) wl)" for wl
    using map_of_meters [OF wf(2), of "\<lambda>m. recovered_meter clk (em_total m)" "[]" wl]
    by (simp add: h invalidate_live_telemetry_def fold_add_meter fold_add_reservation f2 recovered_meter_def split: option.split)
  moreover have "\<forall>(k, ds) \<in> set (gov_devices ?h). dev_latest ds = None \<and> dev_last_observed ds = 0"
    by (auto simp: h invalidate_live_telemetry_def forget_telemetry_def)
  ultimately show ?thesis
    using encode_state_bytes [OF assms(1)] decode_state_bytes [OF assms(1-5), of clk] head by blast
qed

definition demo_saved :: governor where
  "demo_saved = (new_governor demo_cfg demo_ids)\<lparr>gov_budgets := demo_bm 100 0,
     gov_reservations := [(StrongId 1, demo_res 1 100 RESERVED 100)]\<rparr>"

lemma demo_amounts: "amount_ok (Fin 0)" "amount_ok (Fin 100)" "amount_ok (Fin 450)" "amount_ok (Fin 402)"
  by (simp_all add: amount_ok_def Codec.whole_def)

lemma demo_wf_reserved: "wf_bm (demo_bm 100 0)"
  using grid64_int [of 450] grid64_int [of 402] grid64_int [of 100] b64.grid_zero
  by (auto simp: wf_bm_def demo_bm_def demo_state_def demo_budget_def state_ok_def quantity_ok_def split: if_splits)

lemma demo_saved_ok: "storable demo_saved" "keyed demo_saved" "validate_budget_hierarchy (gov_budgets demo_saved)"
proof -
  show "storable demo_saved"
    by (simp add: storable_def demo_saved_def new_governor_def allocate_def Let_def policy_storable_def
        policy_defaults_def empty_policy_def cap_storable_def str_ok_def snapshots_def demo_bm_def demo_state_def demo_budget_def
        budget_storable_def demo_amounts ns_ok_def kMaxNs_def rm_all_def demo_res_def reservation_storable_def)
  show "keyed demo_saved" using demo_wf_reserved
    by (simp add: keyed_def demo_saved_def new_governor_def allocate_def Let_def demo_res_def)
  show "validate_budget_hierarchy (gov_budgets demo_saved)"
    by (simp add: demo_saved_def validate_budget_hierarchy_def snapshots_def demo_bm_def demo_state_def demo_budget_def has_def
        walk_simps is_valid_def)
qed

theorem saved_state_recovered_witness:
  "\<exists>b h. encode_state demo_saved = Inr b \<and> decode_state 7 b (new_governor demo_cfg demo_ids) = (Inr (Some ()), h) \<and>
     map_of (gov_reservations h) (StrongId 1) = Some (persisted_reservation (demo_res 1 100 RESERVED 100))"
proof -
  have e: "gov_budgets (new_governor demo_cfg demo_ids) = []" "gov_reservations (new_governor demo_cfg demo_ids) = []"
      "gov_workload_meter (new_governor demo_cfg demo_ids) = []"
    by (simp_all add: new_governor_def allocate_def Let_def)
  have "map_of (gov_reservations demo_saved) (StrongId 1) = Some (demo_res 1 100 RESERVED 100)" by (simp add: demo_saved_def)
  then show ?thesis using saved_state_recovered [OF demo_saved_ok e, of 7] by fastforce
qed

text \<open>Of the two operations that are no step of a run, a save at most adds an entry to the history.\<close>

lemma save_is_step:
  "g_save io clk path (fs, g) = (r, fs', g') \<Longrightarrow> gov_step g g' \<or> g' = g"
  by (auto simp: g_save_def intro: gov_step.step_control split: sum.splits prod.splits)

text \<open>A load can roll the policy back: it takes over the generation that is stored, and fences with it,
  even when the governor has a newer one in force.\<close>

lemma load_rolls_policy_back:
  assumes "storable g" "keyed g" "validate_budget_hierarchy (gov_budgets g)"
    "gov_budgets f = []" "gov_reservations f = []"
    "pol_generation (gov_policy g) < pol_generation (gov_policy f)"
  shows "\<exists>b h. encode_state g = Inr b \<and> decode_state clk b f = (Inr (Some ()), h) \<and>
    pol_generation (gov_policy h) < pol_generation (gov_policy f) \<and>
    gate_policy (gov_authority h) = pol_generation (gov_policy h)"
proof -
  let ?h = "recovered clk g f"
  have "gov_authority ?h = gov_authority (recover_policy g f)" "gov_policy ?h = gov_policy (recover_policy g f)"
    by (simp_all add: recovered_def invalidate_live_telemetry_def fold_add_meter fold_add_reservation fold_add_budget)
  then have "gate_policy (gov_authority ?h) = pol_generation (gov_policy ?h)"
      "pol_generation (gov_policy ?h) = pol_generation (gov_policy g)"
    by (simp_all add: recover_policy_def adopt_policy_def set_policy_def persisted_policy_def Let_def)
  then show ?thesis
    using encode_state_bytes [OF assms(1)] decode_state_bytes [OF assms(1-5), of clk] assms(6) by simp
qed

text \<open>A governor that holds a budget refuses its own state, after it has taken over the stored policy.\<close>

lemma own_state_refused:
  assumes "storable g" "keyed g" "gov_budgets g \<noteq> []"
  shows "decode_state clk (state_bytes g) g = (Inr None, recover_policy g g)"
proof -
  let ?f = "recover_policy g g"
  obtain x xs where bs: "snapshots (gov_budgets g) = x # xs" using assms(3) by (cases "gov_budgets g") (auto simp: snapshots_def)
  have wf: "wf_bm (gov_budgets g)" using assms(2) by (simp add: keyed_def)
  have x: "budget_storable x" "length xs < 100000"
  proof -
    show "budget_storable x" using assms(1) by (simp add: storable_def bs)
    have "length (gov_budgets g) = Suc (length xs)" using arg_cong [OF bs, of length] by (simp add: snapshots_def)
    then show "length xs < 100000" using assms(1) by (simp add: storable_def)
  qed
  have "map_option cfg (map_of (gov_budgets g) (bud_id x)) = Some x"
    using find_snapshots [OF wf, of "bud_id x"] bs by simp
  then obtain s where s: "map_of (gov_budgets g) (bud_id x) = Some s" "cfg s = x" by auto
  have "\<not> (sb_hmax (budget_image x) < Fin 0 \<or> sb_soft (budget_image x) < Fin 0 \<or>
      sb_reserve (budget_image x) < Fin 0 \<or> sb_burst (budget_image x) < Fin 0)"
    using x(1) by (simp add: budget_image_def budget_storable_def amount_quantity)
  then have "load_budget (budget_image x) ?f = (Inr None, ?f)"
    using s by (simp add: load_budget_def load_steps make_budget_image [OF x(1)] install_def persisted_budget_def)
  from budgets.load_section_refused [OF x, of load_budget, OF this]
  have "load_section read_stored_budget load_budget (budgets.section_bytes (x # xs) @ t) ?f = (Inr None, ?f)" for t .
  moreover have "load_policy (head_bytes g @ t) g = (Inr (Some t), ?f)" for t
    using assms(1) by (simp add: head_written storable_def)
  ultimately show ?thesis by (simp add: decode_state_def state_bytes_def bs)
qed

text \<open>C38: A state is not loaded over a governor in service, and the attempt is not without trace. A governor
  that holds a budget and decodes its own saved state is told that the load failed, keeps its budgets and
  reservations, but has lost its policy: the name, generation and caps are those stored, the rest,
  thresholds and class rules included, are the defaults under a new identifier.\<close>

theorem failed_load_resets_policy:
  assumes "storable g" "keyed g" "gov_budgets g \<noteq> []"
  shows "\<exists>b h. encode_state g = Inr b \<and> decode_state clk b g = (Inr None, h) \<and>
    gov_budgets h = gov_budgets g \<and> gov_reservations h = gov_reservations g \<and>
    gov_policy h = persisted_policy (StrongId (next_policy (gov_ids g) + 1)) (gov_policy g)"
proof -
  have "gov_policy (recover_policy g g) = persisted_policy (StrongId (next_policy (gov_ids g) + 1)) (gov_policy g)"
    by (simp add: recover_policy_def adopt_policy_def Let_def)
  then show ?thesis using own_state_refused [OF assms, of clk] encode_state_bytes [OF assms(1)] by simp
qed

theorem failed_load_resets_policy_witness:
  "\<exists>b h. encode_state demo_saved = Inr b \<and> decode_state 7 b demo_saved = (Inr None, h)"
  using failed_load_resets_policy [OF demo_saved_ok(1,2), of 7] by (auto simp: demo_saved_def demo_bm_def)

text \<open>C13: The hierarchy check of a load is sound. If the check passes, the chain of every budget visits no
  budget twice, and the chain of an installed budget holds installed budgets only, so that a booking along
  it books each budget once and cannot fail for an unknown ancestor.\<close>

theorem hierarchy_check_sound:
  assumes "wf_bm bm" "validate_budget_hierarchy bm"
  shows "distinct (chain bm b) \<and> (has bm b \<longrightarrow> (\<forall>x \<in> set (chain bm b). has bm x))"
  unfolding chain_def using chain_distinct [OF assms] chain_installed [OF assms] by blast

theorem hierarchy_check_sound_witness: "distinct (chain (gov_budgets demo_saved) (StrongId 2))"
  using hierarchy_check_sound [OF _ demo_saved_ok(3)] demo_wf_reserved by (simp add: demo_saved_def)

end
