(* ===== verification/Protocol.thy ===== *)
theory Protocol
  imports Codec
begin

text \<open>
  The framed binary protocol of \<^verbatim>\<open>protocol.hpp\<close>: frames with their checksum, and the typed messages.
  A raw buffer with its length is a list of bytes. \<^verbatim>\<open>FrameResult\<close> is a sum: the error text, or the frame
  and the number of bytes consumed.
\<close>

section \<open>Frames\<close>

definition FRAME_MAGIC :: u32 where "FRAME_MAGIC = 0x43544750"
definition PROTOCOL_MAJOR :: u16 where "PROTOCOL_MAJOR = 1"
definition MAX_FRAME :: nat where "MAX_FRAME = 16 * 1024 * 1024"
definition HEADER_SIZE :: nat where "HEADER_SIZE = 4 + 2 + 2 + 4"
definition TRAILER_SIZE :: nat where "TRAILER_SIZE = 4"

datatype msg_type =
    MSG_HELLO | MSG_REGISTER | MSG_POWER_OBSERVATION | MSG_THERMAL_OBSERVATION
  | MSG_SET_POLICY | MSG_SET_BUDGET | MSG_RESERVE | MSG_ACTIVATE | MSG_RELEASE
  | MSG_DECISION_REQUEST | MSG_DECISION_RESPONSE | MSG_THROTTLE_REPORT
  | MSG_SNAPSHOT_REQUEST | MSG_SNAPSHOT_RESPONSE | MSG_ACK | MSG_ERROR

definition msg_types :: "msg_type list" where
  "msg_types = [MSG_HELLO, MSG_REGISTER, MSG_POWER_OBSERVATION, MSG_THERMAL_OBSERVATION,
     MSG_SET_POLICY, MSG_SET_BUDGET, MSG_RESERVE, MSG_ACTIVATE, MSG_RELEASE,
     MSG_DECISION_REQUEST, MSG_DECISION_RESPONSE, MSG_THROTTLE_REPORT,
     MSG_SNAPSHOT_REQUEST, MSG_SNAPSHOT_RESPONSE, MSG_ACK, MSG_ERROR]"

fun msg_code :: "msg_type \<Rightarrow> u16" where
  "msg_code MSG_HELLO = 1"
| "msg_code MSG_REGISTER = 2"
| "msg_code MSG_POWER_OBSERVATION = 3"
| "msg_code MSG_THERMAL_OBSERVATION = 4"
| "msg_code MSG_SET_POLICY = 5"
| "msg_code MSG_SET_BUDGET = 6"
| "msg_code MSG_RESERVE = 7"
| "msg_code MSG_ACTIVATE = 8"
| "msg_code MSG_RELEASE = 9"
| "msg_code MSG_DECISION_REQUEST = 10"
| "msg_code MSG_DECISION_RESPONSE = 11"
| "msg_code MSG_THROTTLE_REPORT = 12"
| "msg_code MSG_SNAPSHOT_REQUEST = 13"
| "msg_code MSG_SNAPSHOT_RESPONSE = 14"
| "msg_code MSG_ACK = 15"
| "msg_code MSG_ERROR = 16"

definition is_valid_msg_type :: "u16 \<Rightarrow> bool" where
  "is_valid_msg_type t \<longleftrightarrow> t \<ge> 1 \<and> t \<le> 16"

text \<open>The cast of a valid code to the enumeration.\<close>

definition msg_of_code :: "u16 \<Rightarrow> msg_type" where
  "msg_of_code t = msg_types ! (unat t - 1)"

record frame =
  ftype :: msg_type
  payload :: bytes

definition encode_frame :: "msg_type \<Rightarrow> bytes \<Rightarrow> frame" where
  "encode_frame t p = \<lparr>ftype = t, payload = p\<rparr>"

definition serialize_frame :: "frame \<Rightarrow> bytes res" where
  "serialize_frame f = (if length (payload f) > MAX_FRAME then Inl LengthError
     else (let w = [];
               w = w_u32 FRAME_MAGIC w;
               w = w_u16 PROTOCOL_MAJOR w;
               w = w_u16 (msg_code (ftype f)) w;
               w = w_u32 (of_nat (length (payload f))) w
           in Inr (seal (w @ payload f))))"

definition read_header :: "reader \<Rightarrow> ((u32 \<times> u16 \<times> u16 \<times> u32) \<times> reader) option" where
  "read_header r = do {
     (magic, r) \<leftarrow> r_u32 r;
     (major, r) \<leftarrow> r_u16 r;
     (type, r) \<leftarrow> r_u16 r;
     (len, r) \<leftarrow> r_u32 r;
     Some ((magic, major, type, len), r)
   }"

definition deserialize_frame :: "bytes \<Rightarrow> string + (frame \<times> nat)" where
  "deserialize_frame d =
    (if length d < HEADER_SIZE + TRAILER_SIZE then Inl ''frame too small''
     else case read_header d of
       None \<Rightarrow> Inl ''malformed header''
     | Some ((magic, major, type, len), _) \<Rightarrow>
         if magic \<noteq> FRAME_MAGIC then Inl ''bad magic''
         else if major \<noteq> PROTOCOL_MAJOR then Inl ''unsupported protocol version''
         else if \<not> is_valid_msg_type type then Inl ''invalid message type''
         else if unat len > MAX_FRAME then Inl ''oversized frame''
         else if length d < HEADER_SIZE + unat len + TRAILER_SIZE then Inl ''truncated payload''
         else if stored_crc d (HEADER_SIZE + unat len) \<noteq> Some (crc32 (take (HEADER_SIZE + unat len) d))
         then Inl ''crc mismatch''
         else Inr (\<lparr>ftype = msg_of_code type, payload = take (unat len) (drop HEADER_SIZE d)\<rparr>,
                   HEADER_SIZE + unat len + TRAILER_SIZE))"

section \<open>Messages\<close>

record register_msg =
  reg_worker :: worker_id
  reg_boot :: worker_boot_id
  reg_node :: node_id
  reg_name :: string

record power_obs_msg =
  po_worker :: worker_id
  po_boot :: worker_boot_id
  po_epoch :: coordinator_epoch
  po_accel :: accelerator_id
  po_device_gen :: device_generation
  po_obs_gen :: observation_generation
  po_timestamp_ns :: i64
  po_power_mw :: i64
  po_has_power :: bool
  po_has_temp :: bool
  po_temp_centi :: i32
  po_sm_mhz :: u32
  po_mem_mhz :: u32
  po_utilization_bp :: u16
  po_has_util :: bool
  po_energy_mj :: i64
  po_has_energy :: bool
  po_throttled :: bool
  po_provenance :: u8
  po_source :: string

record thermal_obs_msg =
  to_worker :: worker_id
  to_boot :: worker_boot_id
  to_epoch :: coordinator_epoch
  to_accel :: accelerator_id
  to_therm_gen :: thermal_generation
  to_obs_gen :: observation_generation
  to_timestamp_ns :: i64
  to_has_temp :: bool
  to_temp_centi :: i32
  to_state :: u8

record budget_msg =
  bg_budget :: budget_id
  bg_generation :: budget_generation
  bg_domain :: power_domain_id
  bg_parent :: budget_id
  bg_name :: string
  bg_hard_max_mw :: i64
  bg_soft_mw :: i64
  bg_min_reserve_mw :: i64
  bg_burst_mw :: i64
  bg_burst_window_ns :: i64
  bg_recovery_ns :: i64
  bg_priority :: i32
  bg_authoritative :: bool
  bg_policy_gen :: u64

record reserve_msg =
  rs_reservation :: reservation_id
  rs_budget :: budget_id
  rs_requested_mw :: i64
  rs_requested_mj :: i64
  rs_budget_gen :: budget_generation
  rs_reservation_gen :: reservation_generation
  rs_policy_gen :: policy_generation
  rs_device_gen :: device_generation
  rs_workload :: workload_id
  rs_cls :: u8
  rs_scope :: power_domain_id
  rs_epoch :: coordinator_epoch
  rs_boot :: worker_boot_id
  rs_timestamp_ns :: i64
  rs_validity_ns :: i64

record budget_action_msg =
  ba_reservation :: reservation_id
  ba_budget :: budget_id
  ba_amount_mw :: i64
  ba_budget_gen :: budget_generation
  ba_epoch :: coordinator_epoch
  ba_boot :: worker_boot_id

record ack_msg =
  ack_message_id :: u64
  ack_ok :: bool
  ack_message :: string

subsection \<open>Register\<close>

definition encode_register :: "register_msg \<Rightarrow> bytes res" where
  "encode_register m =
    (let w = w_u64 (raw (reg_worker m)) [];
         w = w_u64 (raw (reg_boot m)) w;
         w = w_u64 (raw (reg_node m)) w
     in w_str (reg_name m) w)"

definition read_register :: "reader \<Rightarrow> (register_msg \<times> reader) option" where
  "read_register r = do {
     (a, r) \<leftarrow> r_u64 r;
     (b, r) \<leftarrow> r_u64 r;
     (c, r) \<leftarrow> r_u64 r;
     (name, r) \<leftarrow> r_str r;
     Some (\<lparr>reg_worker = StrongId a, reg_boot = StrongId b, reg_node = StrongId c, reg_name = name\<rparr>, r)
   }"

definition decode_register :: "frame \<Rightarrow> register_msg option" where
  "decode_register f = finish (read_register (payload f))"

subsection \<open>Power observation\<close>

definition encode_power_obs :: "power_obs_msg \<Rightarrow> bytes res" where
  "encode_power_obs m =
    (let w = w_u64 (raw (po_worker m)) [];
         w = w_u64 (raw (po_boot m)) w;
         w = w_u64 (gen_raw (po_epoch m)) w;
         w = w_u64 (raw (po_accel m)) w;
         w = w_u64 (gen_raw (po_device_gen m)) w;
         w = w_u64 (gen_raw (po_obs_gen m)) w;
         w = w_i64 (po_timestamp_ns m) w;
         w = w_bool (po_has_power m) w;
         w = w_i64 (po_power_mw m) w;
         w = w_bool (po_has_temp m) w;
         w = w_i32 (po_temp_centi m) w;
         w = w_u32 (po_sm_mhz m) w;
         w = w_u32 (po_mem_mhz m) w;
         w = w_bool (po_has_util m) w;
         w = w_u16 (po_utilization_bp m) w;
         w = w_bool (po_has_energy m) w;
         w = w_i64 (po_energy_mj m) w;
         w = w_bool (po_throttled m) w;
         w = w_u8 (po_provenance m) w
     in w_str (po_source m) w)"

definition read_power_obs :: "reader \<Rightarrow> (power_obs_msg \<times> reader) option" where
  "read_power_obs r = do {
     (a, r) \<leftarrow> r_u64 r;
     (b, r) \<leftarrow> r_u64 r;
     (ce, r) \<leftarrow> r_u64 r;
     (c, r) \<leftarrow> r_u64 r;
     (d, r) \<leftarrow> r_u64 r;
     (e, r) \<leftarrow> r_u64 r;
     (ts, r) \<leftarrow> r_i64 r;
     (hp, r) \<leftarrow> r_bool r;
     (mw, r) \<leftarrow> r_i64 r;
     (ht, r) \<leftarrow> r_bool r;
     (tc, r) \<leftarrow> r_i32 r;
     (sm, r) \<leftarrow> r_u32 r;
     (mem, r) \<leftarrow> r_u32 r;
     (hu, r) \<leftarrow> r_bool r;
     (bp, r) \<leftarrow> r_u16 r;
     (he, r) \<leftarrow> r_bool r;
     (mj, r) \<leftarrow> r_i64 r;
     (th, r) \<leftarrow> r_bool r;
     (pv, r) \<leftarrow> r_u8 r;
     (src, r) \<leftarrow> r_str r;
     Some (\<lparr>po_worker = StrongId a, po_boot = StrongId b, po_epoch = Generation ce, po_accel = StrongId c,
       po_device_gen = Generation d, po_obs_gen = Generation e, po_timestamp_ns = ts, po_power_mw = mw,
       po_has_power = hp, po_has_temp = ht, po_temp_centi = tc, po_sm_mhz = sm, po_mem_mhz = mem,
       po_utilization_bp = bp, po_has_util = hu, po_energy_mj = mj, po_has_energy = he, po_throttled = th,
       po_provenance = pv, po_source = src\<rparr>, r)
   }"

definition decode_power_obs :: "frame \<Rightarrow> power_obs_msg option" where
  "decode_power_obs f = finish (read_power_obs (payload f))"

subsection \<open>Thermal observation\<close>

definition encode_thermal_obs :: "thermal_obs_msg \<Rightarrow> bytes" where
  "encode_thermal_obs m =
    (let w = w_u64 (raw (to_worker m)) [];
         w = w_u64 (raw (to_boot m)) w;
         w = w_u64 (gen_raw (to_epoch m)) w;
         w = w_u64 (raw (to_accel m)) w;
         w = w_u64 (gen_raw (to_therm_gen m)) w;
         w = w_u64 (gen_raw (to_obs_gen m)) w;
         w = w_i64 (to_timestamp_ns m) w;
         w = w_bool (to_has_temp m) w;
         w = w_i32 (to_temp_centi m) w
     in w_u8 (to_state m) w)"

definition read_thermal_obs :: "reader \<Rightarrow> (thermal_obs_msg \<times> reader) option" where
  "read_thermal_obs r = do {
     (a, r) \<leftarrow> r_u64 r;
     (b, r) \<leftarrow> r_u64 r;
     (ce, r) \<leftarrow> r_u64 r;
     (c, r) \<leftarrow> r_u64 r;
     (d, r) \<leftarrow> r_u64 r;
     (e, r) \<leftarrow> r_u64 r;
     (ts, r) \<leftarrow> r_i64 r;
     (ht, r) \<leftarrow> r_bool r;
     (tc, r) \<leftarrow> r_i32 r;
     (st, r) \<leftarrow> r_u8 r;
     if st > 6 then None
     else Some (\<lparr>to_worker = StrongId a, to_boot = StrongId b, to_epoch = Generation ce,
       to_accel = StrongId c, to_therm_gen = Generation d, to_obs_gen = Generation e,
       to_timestamp_ns = ts, to_has_temp = ht, to_temp_centi = tc, to_state = st\<rparr>, r)
   }"

definition decode_thermal_obs :: "frame \<Rightarrow> thermal_obs_msg option" where
  "decode_thermal_obs f = finish (read_thermal_obs (payload f))"

subsection \<open>Budget\<close>

definition encode_budget :: "budget_msg \<Rightarrow> bytes res" where
  "encode_budget m =
    (let w = w_u64 (raw (bg_budget m)) [];
         w = w_u64 (gen_raw (bg_generation m)) w;
         w = w_u64 (raw (bg_domain m)) w;
         w = w_u64 (raw (bg_parent m)) w
     in rbind (w_str (bg_name m) w) (\<lambda>w.
     let w = w_i64 (bg_hard_max_mw m) w;
         w = w_i64 (bg_soft_mw m) w;
         w = w_i64 (bg_min_reserve_mw m) w;
         w = w_i64 (bg_burst_mw m) w;
         w = w_i64 (bg_burst_window_ns m) w;
         w = w_i64 (bg_recovery_ns m) w;
         w = w_i32 (bg_priority m) w;
         w = w_bool (bg_authoritative m) w
     in Inr (w_u64 (bg_policy_gen m) w)))"

definition read_budget :: "reader \<Rightarrow> (budget_msg \<times> reader) option" where
  "read_budget r = do {
     (a, r) \<leftarrow> r_u64 r;
     (b, r) \<leftarrow> r_u64 r;
     (c, r) \<leftarrow> r_u64 r;
     (d, r) \<leftarrow> r_u64 r;
     (name, r) \<leftarrow> r_str r;
     (hard, r) \<leftarrow> r_i64 r;
     (soft, r) \<leftarrow> r_i64 r;
     (minr, r) \<leftarrow> r_i64 r;
     (burst, r) \<leftarrow> r_i64 r;
     (win, r) \<leftarrow> r_i64 r;
     (rec, r) \<leftarrow> r_i64 r;
     (prio, r) \<leftarrow> r_i32 r;
     (auth, r) \<leftarrow> r_bool r;
     (pg, r) \<leftarrow> r_u64 r;
     Some (\<lparr>bg_budget = StrongId a, bg_generation = Generation b, bg_domain = StrongId c,
       bg_parent = StrongId d, bg_name = name, bg_hard_max_mw = hard, bg_soft_mw = soft,
       bg_min_reserve_mw = minr, bg_burst_mw = burst, bg_burst_window_ns = win, bg_recovery_ns = rec,
       bg_priority = prio, bg_authoritative = auth, bg_policy_gen = pg\<rparr>, r)
   }"

definition decode_budget :: "frame \<Rightarrow> budget_msg option" where
  "decode_budget f = finish (read_budget (payload f))"

subsection \<open>Reserve\<close>

definition encode_reserve :: "reserve_msg \<Rightarrow> bytes" where
  "encode_reserve m =
    (let w = w_u64 (raw (rs_reservation m)) [];
         w = w_u64 (raw (rs_budget m)) w;
         w = w_i64 (rs_requested_mw m) w;
         w = w_i64 (rs_requested_mj m) w;
         w = w_u64 (gen_raw (rs_budget_gen m)) w;
         w = w_u64 (gen_raw (rs_reservation_gen m)) w;
         w = w_u64 (gen_raw (rs_policy_gen m)) w;
         w = w_u64 (gen_raw (rs_device_gen m)) w;
         w = w_u64 (raw (rs_workload m)) w;
         w = w_u8 (rs_cls m) w;
         w = w_u64 (raw (rs_scope m)) w;
         w = w_u64 (gen_raw (rs_epoch m)) w;
         w = w_u64 (raw (rs_boot m)) w;
         w = w_i64 (rs_timestamp_ns m) w
     in w_i64 (rs_validity_ns m) w)"

definition read_reserve :: "reader \<Rightarrow> (reserve_msg \<times> reader) option" where
  "read_reserve r = do {
     (res, r) \<leftarrow> r_u64 r;
     (budget, r) \<leftarrow> r_u64 r;
     (reqmw, r) \<leftarrow> r_i64 r;
     (reqmj, r) \<leftarrow> r_i64 r;
     (bgen, r) \<leftarrow> r_u64 r;
     (rgen, r) \<leftarrow> r_u64 r;
     (pgen, r) \<leftarrow> r_u64 r;
     (dgen, r) \<leftarrow> r_u64 r;
     (wl, r) \<leftarrow> r_u64 r;
     (cls, r) \<leftarrow> r_u8 r;
     (scopeA, r) \<leftarrow> r_u64 r;
     (epochA, r) \<leftarrow> r_u64 r;
     (bootA, r) \<leftarrow> r_u64 r;
     (ts, r) \<leftarrow> r_i64 r;
     (valns, r) \<leftarrow> r_i64 r;
     if cls > 7 then None
     else Some (\<lparr>rs_reservation = StrongId res, rs_budget = StrongId budget, rs_requested_mw = reqmw,
       rs_requested_mj = reqmj, rs_budget_gen = Generation bgen, rs_reservation_gen = Generation rgen,
       rs_policy_gen = Generation pgen, rs_device_gen = Generation dgen, rs_workload = StrongId wl,
       rs_cls = cls, rs_scope = StrongId scopeA, rs_epoch = Generation epochA, rs_boot = StrongId bootA,
       rs_timestamp_ns = ts, rs_validity_ns = valns\<rparr>, r)
   }"

definition decode_reserve :: "frame \<Rightarrow> reserve_msg option" where
  "decode_reserve f = finish (read_reserve (payload f))"

subsection \<open>Budget action and acknowledgement\<close>

definition encode_budget_action :: "budget_action_msg \<Rightarrow> bytes" where
  "encode_budget_action m =
    (let w = w_u64 (raw (ba_reservation m)) [];
         w = w_u64 (raw (ba_budget m)) w;
         w = w_i64 (ba_amount_mw m) w;
         w = w_u64 (gen_raw (ba_budget_gen m)) w;
         w = w_u64 (gen_raw (ba_epoch m)) w
     in w_u64 (raw (ba_boot m)) w)"

definition read_budget_action :: "reader \<Rightarrow> (budget_action_msg \<times> reader) option" where
  "read_budget_action r = do {
     (a, r) \<leftarrow> r_u64 r;
     (b, r) \<leftarrow> r_u64 r;
     (mw, r) \<leftarrow> r_i64 r;
     (d, r) \<leftarrow> r_u64 r;
     (e, r) \<leftarrow> r_u64 r;
     (g, r) \<leftarrow> r_u64 r;
     Some (\<lparr>ba_reservation = StrongId a, ba_budget = StrongId b, ba_amount_mw = mw,
       ba_budget_gen = Generation d, ba_epoch = Generation e, ba_boot = StrongId g\<rparr>, r)
   }"

definition decode_budget_action :: "frame \<Rightarrow> budget_action_msg option" where
  "decode_budget_action f = finish (read_budget_action (payload f))"

definition encode_ack :: "ack_msg \<Rightarrow> bytes res" where
  "encode_ack m =
    (let w = w_u64 (ack_message_id m) [];
         w = w_bool (ack_ok m) w
     in w_str (ack_message m) w)"

definition read_ack :: "reader \<Rightarrow> (ack_msg \<times> reader) option" where
  "read_ack r = do {
     (i, r) \<leftarrow> r_u64 r;
     (b, r) \<leftarrow> r_bool r;
     (s, r) \<leftarrow> r_str r;
     Some (\<lparr>ack_message_id = i, ack_ok = b, ack_message = s\<rparr>, r)
   }"

definition decode_ack :: "frame \<Rightarrow> ack_msg option" where
  "decode_ack f = finish (read_ack (payload f))"

section \<open>Messages are exact\<close>

lemmas read_defs = read_register_def read_power_obs_def read_thermal_obs_def read_budget_def
  read_reserve_def read_budget_action_def read_ack_def
lemmas encode_defs = encode_register_def encode_power_obs_def encode_thermal_obs_def encode_budget_def
  encode_reserve_def encode_budget_action_def encode_ack_def

lemma read_stable [stable]:
  "prefix_stable read_register" "prefix_stable read_power_obs" "prefix_stable read_thermal_obs"
  "prefix_stable read_budget" "prefix_stable read_reserve" "prefix_stable read_budget_action"
  "prefix_stable read_ack"
  unfolding read_defs by (intro stable)+

interpretation register: message "\<lambda>m. written (encode_register m)" read_register "\<lambda>m. str_ok (reg_name m)"
    "\<lambda>p. finish (read_register p)"
  by unfold_locales (simp_all add: encode_defs read_defs fields_app fields_get str.get_enc stable)

interpretation power_obs: message "\<lambda>m. written (encode_power_obs m)" read_power_obs
    "\<lambda>m. str_ok (po_source m)" "\<lambda>p. finish (read_power_obs p)"
  by unfold_locales (simp_all add: encode_defs read_defs fields_app fields_get str.get_enc stable)

interpretation thermal_obs: message encode_thermal_obs read_thermal_obs "\<lambda>m. to_state m \<le> 6"
    "\<lambda>p. finish (read_thermal_obs p)"
  by unfold_locales (simp_all add: encode_defs read_defs fields_app fields_get stable not_less)

interpretation budget_msg: message "\<lambda>m. written (encode_budget m)" read_budget "\<lambda>m. str_ok (bg_name m)"
    "\<lambda>p. finish (read_budget p)"
  by unfold_locales (simp_all add: encode_defs read_defs fields_app fields_get str.get_enc stable)

interpretation reserve_msg: message encode_reserve read_reserve "\<lambda>m. rs_cls m \<le> 7"
    "\<lambda>p. finish (read_reserve p)"
  by unfold_locales (simp_all add: encode_defs read_defs fields_app fields_get stable not_less)

interpretation action_msg: message encode_budget_action read_budget_action "\<lambda>_. True"
    "\<lambda>p. finish (read_budget_action p)"
  by unfold_locales (simp_all add: encode_defs read_defs fields_app fields_get stable)

interpretation ack: message "\<lambda>m. written (encode_ack m)" read_ack "\<lambda>m. str_ok (ack_message m)"
    "\<lambda>p. finish (read_ack p)"
  by unfold_locales (simp_all add: encode_defs read_defs fields_app fields_get str.get_enc stable)

lemma read_thermal_obs_invalid: "\<not> to_state h \<le> 6 \<Longrightarrow> read_thermal_obs (encode_thermal_obs h @ t) = None"
  by (simp add: encode_defs read_defs fields_app fields_get not_le)

lemma read_reserve_invalid: "\<not> rs_cls r \<le> 7 \<Longrightarrow> read_reserve (encode_reserve r @ t) = None"
  by (simp add: encode_defs read_defs fields_app fields_get not_le)

section \<open>Frames are canonical\<close>

lemma msg_of_code_code [simp]: "msg_of_code (msg_code t) = t" "is_valid_msg_type (msg_code t)"
  by (cases t; simp add: msg_of_code_def msg_types_def is_valid_msg_type_def)+

lemma msg_code_nth: "\<forall>n \<in> set [1..<17]. msg_code (msg_types ! (n - 1)) = of_nat n"
  unfolding msg_types_def by (simp add: upt_rec)

lemma msg_code_of_code [simp]: assumes "is_valid_msg_type t" shows "msg_code (msg_of_code t) = t"
proof -
  have "unat t \<in> set [1..<17]" using assms by (auto simp: is_valid_msg_type_def word_le_nat_alt)
  then have "msg_code (msg_types ! (unat t - 1)) = of_nat (unat t)" using msg_code_nth by blast
  then show ?thesis by (simp add: msg_of_code_def)
qed

definition header_bytes :: "u32 \<Rightarrow> u16 \<Rightarrow> u16 \<Rightarrow> u32 \<Rightarrow> bytes" where
  "header_bytes magic major type len =
     le_bytes 0 4 magic @ le_bytes 0 2 major @ le_bytes 0 2 type @ le_bytes 0 4 len"

definition frame_image :: "frame \<Rightarrow> bytes" where
  "frame_image f = header_bytes FRAME_MAGIC PROTOCOL_MAJOR (msg_code (ftype f)) (of_nat (length (payload f)))
     @ payload f"

lemma length_header [simp]: "length (header_bytes a b c d) = 12"
  by (simp add: header_bytes_def)

lemma length_frame_image [simp]: "length (frame_image f) = 12 + length (payload f)"
  by (simp add: frame_image_def)

lemma serialize_frame_image:
  "serialize_frame f = (if length (payload f) \<le> MAX_FRAME then Inr (seal (frame_image f)) else Inl LengthError)"
  by (simp add: serialize_frame_def Let_def fields_app w_u16_le frame_image_def header_bytes_def del: w_u16_app)

lemma r_u16_get: "r_u16 (le_bytes 0 2 v @ t) = Some (v, t)"
  using u16.get_enc [of v t] by (simp add: w_u16_le)

lemma read_header_iff:
  "read_header d = Some ((magic, major, type, len), r) \<longleftrightarrow> d = header_bytes magic major type len @ r"
proof
  assume "read_header d = Some ((magic, major, type, len), r)"
  then obtain r1 r2 r3 where "r_u32 d = Some (magic, r1)" "r_u16 r1 = Some (major, r2)"
      "r_u16 r2 = Some (type, r3)" "r_u32 r3 = Some (len, r)"
    by (auto simp: read_header_def bind_eq_Some_conv)
  then show "d = header_bytes magic major type len @ r"
    by (auto simp: header_bytes_def dest!: r_u32_canonical r_u16_canonical)
qed (simp add: read_header_def header_bytes_def fields_get(2) r_u16_get)

lemma deserialize_iff:
  "deserialize_frame d = Inr (f, n) \<longleftrightarrow>
     (\<exists>bs t. serialize_frame f = Inr bs \<and> d = bs @ t \<and> n = length bs)"
proof
  assume acc: "deserialize_frame d = Inr (f, n)"
  then obtain magic major type len r where h: "read_header d = Some ((magic, major, type, len), r)"
    by (auto simp: deserialize_frame_def split: if_splits option.splits)
  let ?L = "unat len"
  from acc h have c: "magic = FRAME_MAGIC" "major = PROTOCOL_MAJOR" "is_valid_msg_type type" "?L \<le> MAX_FRAME"
      "12 + ?L + 4 \<le> length d" "stored_crc d (12 + ?L) = Some (crc32 (take (12 + ?L) d))"
      and f: "f = \<lparr>ftype = msg_of_code type, payload = take ?L (drop 12 d)\<rparr>" and n: "n = 12 + ?L + 4"
    by (auto simp: deserialize_frame_def HEADER_SIZE_def TRAILER_SIZE_def split: if_splits)
  have d: "d = header_bytes magic major type len @ r" using h by (simp only: read_header_iff)
  have p: "payload f = take ?L r" "length (payload f) = ?L" using c(5) d f by simp_all
  have "take (12 + ?L) d = frame_image f" using c(1-3) p d by (simp add: frame_image_def f)
  moreover obtain t where "d = seal (take (12 + ?L) d) @ t" using c(5,6) seal_iff [of "12 + ?L" d] by auto
  ultimately have "d = seal (frame_image f) @ t" by simp
  then show "\<exists>bs t. serialize_frame f = Inr bs \<and> d = bs @ t \<and> n = length bs"
    using c(4) p(2) n by (auto simp: serialize_frame_image)
next
  assume "\<exists>bs t. serialize_frame f = Inr bs \<and> d = bs @ t \<and> n = length bs"
  then obtain t where m: "length (payload f) \<le> MAX_FRAME" and d: "d = seal (frame_image f) @ t"
      and n: "n = 16 + length (payload f)"
    by (auto simp: serialize_frame_image split: if_splits)
  let ?len = "of_nat (length (payload f)) :: u32"
  have u: "unat ?len = length (payload f)" using m by (simp add: unat_of_nat MAX_FRAME_def)
  have h: "read_header d = Some ((FRAME_MAGIC, PROTOCOL_MAJOR, msg_code (ftype f), ?len),
      payload f @ le_bytes 0 4 (crc32 (frame_image f)) @ t)"
    unfolding read_header_iff by (simp add: d seal_app frame_image_def)
  have tk: "take (12 + length (payload f)) d = frame_image f" by (simp add: d seal_app)
  have "stored_crc d (12 + length (payload f)) = Some (crc32 (take (12 + length (payload f)) d))"
    unfolding stored_crc_iff tk by (simp add: d seal_app)
  then show "deserialize_frame d = Inr (f, n)"
    unfolding deserialize_frame_def h using m n
    by (simp add: u HEADER_SIZE_def TRAILER_SIZE_def) (simp add: d seal_app frame_image_def)
qed

lemma serialize_same_length:
  assumes "serialize_frame f = Inr bs" "serialize_frame g = Inr cs"
    "take 4 (drop 8 bs) = take 4 (drop 8 cs)"
  shows "length (frame_image f) = length (frame_image g)"
proof -
  have len: "take 4 (drop 8 bs) = le_bytes 0 4 (of_nat (length (payload f)) :: u32)"
    if "serialize_frame f = Inr bs" for f bs
    using that by (auto simp: serialize_frame_image seal_app frame_image_def header_bytes_def split: if_splits)
  have "of_nat (length (payload f)) = (of_nat (length (payload g)) :: u32)"
    using len [OF assms(1)] len [OF assms(2)] assms(3) fields_get(2) [of _ "[]"] by (metis option.inject prod.inject)
  moreover have "unat (of_nat (length (payload f)) :: u32) = length (payload f)"
      "unat (of_nat (length (payload g)) :: u32) = length (payload g)"
    using assms(1,2) by (auto simp: serialize_frame_image MAX_FRAME_def unat_of_nat split: if_splits)
  ultimately have "length (payload f) = length (payload g)" by metis
  then show ?thesis by simp
qed

section \<open>Properties\<close>

text \<open>C22: A frame decoder accepts exactly the serialized frames. A buffer decodes to a frame and a number of
  consumed bytes if and only if it starts with the serialization of that frame, of that length; whatever
  follows is left for the next frame. So serialization round-trips, a frame has one encoding, and every
  other buffer is refused.\<close>

theorem frames_canonical:
  "deserialize_frame d = Inr (f, n) \<longleftrightarrow>
     (\<exists>bs t. serialize_frame f = Inr bs \<and> d = bs @ t \<and> n = length bs)"
  by (rule deserialize_iff)

text \<open>C28: Damage to a frame is detected. Every proper prefix of a serialized frame is refused, and so is
  every buffer that differs from it in one byte outside the length field (bytes 8 to 11).\<close>

theorem damaged_frame_refused:
  assumes "serialize_frame f = Inr bs"
  shows "(\<forall>k < length bs. \<exists>e. deserialize_frame (take k bs) = Inl e) \<and>
    (\<forall>i b. i < length bs \<and> i \<notin> {8..<12} \<and> b \<noteq> bs ! i \<longrightarrow> (\<exists>e. deserialize_frame (bs[i := b]) = Inl e))"
proof (intro conjI allI impI)
  fix k assume k: "k < length bs"
  have "deserialize_frame bs = Inr (f, length bs)" using assms by (simp add: deserialize_iff)
  moreover have "deserialize_frame bs = Inr (g, m)" if "deserialize_frame (take k bs) = Inr (g, m)" for g m
    using that unfolding deserialize_iff by (metis append.assoc append_take_drop_id)
  moreover have "m \<le> k" if "deserialize_frame (take k bs) = Inr (g, m)" for g m
    using that unfolding deserialize_iff by (metis length_append length_take le_add1 min.cobounded2 order.trans)
  ultimately show "\<exists>e. deserialize_frame (take k bs) = Inl e"
    using k by (cases "deserialize_frame (take k bs)") fastforce+
next
  fix i b assume i: "i < length bs \<and> i \<notin> {8..<12} \<and> b \<noteq> bs ! i"
  show "\<exists>e. deserialize_frame (bs[i := b]) = Inl e"
  proof (cases "deserialize_frame (bs[i := b])")
    case (Inr a)
    obtain g m where "a = (g, m)" by (cases a)
    then obtain cs t where cs: "serialize_frame g = Inr cs" "bs[i := b] = cs @ t" using Inr deserialize_iff by metis
    have "length cs \<ge> 16" using cs(1) by (auto simp: serialize_frame_image split: if_splits)
    then have "take 4 (drop 8 cs) = take 4 (drop 8 (bs[i := b]))" by (simp add: cs(2))
    also have "\<dots> = take 4 (drop 8 bs)" using i by (auto simp: drop_update_swap)
    finally have l: "length (frame_image g) = length (frame_image f)"
      using serialize_same_length [OF cs(1) assms] by simp
    have s: "cs = seal (frame_image g)" "bs = seal (frame_image f)"
      using cs(1) assms by (auto simp: serialize_frame_image split: if_splits)
    then have "length (bs[i := b]) = length cs" using l by simp
    then have "t = []" using cs(2) by simp
    then have "seal (frame_image g) = (seal (frame_image f))[i := b]" using cs(2) s by simp
    from seal_one_byte [OF l this] i s show ?thesis by simp
  qed simp
qed

theorem damaged_frame_refused_witness:
  "\<exists>bs. serialize_frame (encode_frame MSG_ACK [7]) = Inr bs \<and> length bs = 17 \<and>
     (\<exists>e. deserialize_frame (take 16 bs) = Inl e) \<and> (\<exists>e. deserialize_frame (bs[12 := bs ! 12 + 1]) = Inl e)"
proof -
  let ?f = "encode_frame MSG_ACK [7]" let ?bs = "seal (frame_image ?f)"
  have s: "serialize_frame ?f = Inr ?bs" by (simp add: serialize_frame_image encode_frame_def MAX_FRAME_def)
  have l: "length ?bs = 17" by (simp add: encode_frame_def)
  have "?bs ! 12 + 1 \<noteq> ?bs ! 12" by simp
  then show ?thesis using damaged_frame_refused [OF s] s l by fastforce
qed

text \<open>C29: Observation and registration messages survive the wire exactly. The payload of a registration, a
  power or a thermal observation decodes to the message, under every frame type; a truncated or extended
  payload does not decode at all, and a thermal observation with a state outside the enumeration never
  decodes.\<close>

theorem observation_messages_exact:
  assumes "str_ok (reg_name r)" "str_ok (po_source p)"
  shows "(\<exists>w. encode_register r = Inr w \<and> exact_payload (\<lambda>w. decode_register (encode_frame t w)) w r) \<and>
    (\<exists>w. encode_power_obs p = Inr w \<and> exact_payload (\<lambda>w. decode_power_obs (encode_frame t w)) w p) \<and>
    (if to_state h \<le> 6
     then exact_payload (\<lambda>w. decode_thermal_obs (encode_frame t w)) (encode_thermal_obs h) h
     else decode_thermal_obs (encode_frame t (encode_thermal_obs h)) = None)"
proof (intro conjI)
  show "\<exists>w. encode_register r = Inr w \<and> exact_payload (\<lambda>w. decode_register (encode_frame t w)) w r"
    using register.dec_exact [of r] assms
    by (simp add: decode_register_def encode_frame_def encode_defs fields_app)
  show "\<exists>w. encode_power_obs p = Inr w \<and> exact_payload (\<lambda>w. decode_power_obs (encode_frame t w)) w p"
    using power_obs.dec_exact [of p] assms
    by (simp add: decode_power_obs_def encode_frame_def encode_defs fields_app)
  show "if to_state h \<le> 6
     then exact_payload (\<lambda>w. decode_thermal_obs (encode_frame t w)) (encode_thermal_obs h) h
     else decode_thermal_obs (encode_frame t (encode_thermal_obs h)) = None"
    using thermal_obs.dec_exact [of h] read_thermal_obs_invalid [of h "[]"]
    by (simp add: decode_thermal_obs_def encode_frame_def finish_def)
qed

definition demo_power_obs :: power_obs_msg where
  "demo_power_obs = \<lparr>po_worker = StrongId 1, po_boot = StrongId 2, po_epoch = Generation 1, po_accel = StrongId 1,
     po_device_gen = Generation 1, po_obs_gen = Generation 1, po_timestamp_ns = 1000000, po_power_mw = 92000,
     po_has_power = True, po_has_temp = True, po_temp_centi = 3700, po_sm_mhz = 0, po_mem_mhz = 0,
     po_utilization_bp = 5000, po_has_util = True, po_energy_mj = 0, po_has_energy = False,
     po_throttled = False, po_provenance = 1, po_source = ''fake''\<rparr>"

definition demo_register :: register_msg where
  "demo_register = \<lparr>reg_worker = StrongId 1, reg_boot = StrongId 2, reg_node = StrongId 3, reg_name = ''w''\<rparr>"

definition demo_thermal_obs :: "u8 \<Rightarrow> thermal_obs_msg" where
  "demo_thermal_obs s = \<lparr>to_worker = StrongId 1, to_boot = StrongId 2, to_epoch = Generation 1, to_accel = StrongId 1,
     to_therm_gen = Generation 1, to_obs_gen = Generation 1, to_timestamp_ns = 1, to_has_temp = True,
     to_temp_centi = 3700, to_state = s\<rparr>"

theorem observation_messages_exact_witness:
  "(\<exists>w. encode_power_obs demo_power_obs = Inr w \<and>
      exact_payload (\<lambda>w. decode_power_obs (encode_frame MSG_POWER_OBSERVATION w)) w demo_power_obs) \<and>
    decode_thermal_obs (encode_frame MSG_THERMAL_OBSERVATION (encode_thermal_obs (demo_thermal_obs 7))) = None"
  using observation_messages_exact [of demo_register demo_power_obs MSG_POWER_OBSERVATION "demo_thermal_obs 6"]
    observation_messages_exact [of demo_register demo_power_obs MSG_THERMAL_OBSERVATION "demo_thermal_obs 7"]
  by (simp add: str_ok_def demo_power_obs_def demo_register_def demo_thermal_obs_def)

text \<open>C30: Control messages survive the wire exactly: budgets, reservations, budget actions and
  acknowledgements decode to what was encoded, truncated and extended payloads do not decode, and a
  reservation with a workload class outside the enumeration never decodes.\<close>

theorem control_messages_exact:
  assumes "str_ok (bg_name b)" "str_ok (ack_message k)"
  shows "(\<exists>w. encode_budget b = Inr w \<and> exact_payload (\<lambda>w. decode_budget (encode_frame t w)) w b) \<and>
    (\<exists>w. encode_ack k = Inr w \<and> exact_payload (\<lambda>w. decode_ack (encode_frame t w)) w k) \<and>
    exact_payload (\<lambda>w. decode_budget_action (encode_frame t w)) (encode_budget_action a) a \<and>
    (if rs_cls r \<le> 7
     then exact_payload (\<lambda>w. decode_reserve (encode_frame t w)) (encode_reserve r) r
     else decode_reserve (encode_frame t (encode_reserve r)) = None)"
proof (intro conjI)
  show "\<exists>w. encode_budget b = Inr w \<and> exact_payload (\<lambda>w. decode_budget (encode_frame t w)) w b"
    using budget_msg.dec_exact [of b] assms
    by (simp add: decode_budget_def encode_frame_def encode_defs fields_app)
  show "\<exists>w. encode_ack k = Inr w \<and> exact_payload (\<lambda>w. decode_ack (encode_frame t w)) w k"
    using ack.dec_exact [of k] assms by (simp add: decode_ack_def encode_frame_def encode_defs fields_app)
  show "exact_payload (\<lambda>w. decode_budget_action (encode_frame t w)) (encode_budget_action a) a"
    using action_msg.dec_exact [of a] by (simp add: decode_budget_action_def encode_frame_def)
  show "if rs_cls r \<le> 7
     then exact_payload (\<lambda>w. decode_reserve (encode_frame t w)) (encode_reserve r) r
     else decode_reserve (encode_frame t (encode_reserve r)) = None"
    using reserve_msg.dec_exact [of r] read_reserve_invalid [of r "[]"]
    by (simp add: decode_reserve_def encode_frame_def finish_def)
qed

definition demo_budget_msg :: budget_msg where
  "demo_budget_msg = \<lparr>bg_budget = StrongId 1, bg_generation = Generation 1, bg_domain = StrongId 1,
     bg_parent = StrongId 0, bg_name = ''node'', bg_hard_max_mw = 450000, bg_soft_mw = 400000,
     bg_min_reserve_mw = 0, bg_burst_mw = 0, bg_burst_window_ns = 0, bg_recovery_ns = 0, bg_priority = - 1,
     bg_authoritative = True, bg_policy_gen = 1\<rparr>"

definition demo_ack :: ack_msg where
  "demo_ack = \<lparr>ack_message_id = 1, ack_ok = True, ack_message = ''1''\<rparr>"

theorem control_messages_exact_witness:
  "\<exists>w. encode_budget demo_budget_msg = Inr w \<and>
     exact_payload (\<lambda>w. decode_budget (encode_frame MSG_SET_BUDGET w)) w demo_budget_msg"
  using control_messages_exact [of demo_budget_msg demo_ack MSG_SET_BUDGET]
  by (simp add: str_ok_def demo_budget_msg_def demo_ack_def)

end
