(* ===== verification/Transport.thy ===== *)
theory Transport
  imports Protocol
begin

text \<open>
  Frames over a byte stream (\<^verbatim>\<open>net.hpp\<close>). The socket calls of the operating system are parameters:
  \<open>recv n s\<close> returns the bytes one call of \<^verbatim>\<open>::recv\<close> for at most \<open>n\<close> bytes delivers (none where it
  returns 0 or an error) and \<open>send bs s\<close> how many bytes one call of \<^verbatim>\<open>::send\<close> takes (0 for an error).
  What is documented of them is stated as the locales below.
\<close>

section \<open>Loops over the socket calls\<close>

function sock_recv_exact :: "(nat \<Rightarrow> 's \<Rightarrow> bytes \<times> 's) \<Rightarrow> nat \<Rightarrow> 's \<Rightarrow> bytes option \<times> 's" where
  "sock_recv_exact recv n s = (if n = 0 then (Some [], s)
     else case recv n s of (got, s) \<Rightarrow>
       if got = [] then (None, s)
       else case sock_recv_exact recv (n - length got) s of (rest, s) \<Rightarrow> (map_option (\<lambda>r. got @ r) rest, s))"
  by pat_completeness auto
termination
  by (relation "measure (\<lambda>(recv, n, s). n)") auto

function sock_send_all :: "(bytes \<Rightarrow> 's \<Rightarrow> nat \<times> 's) \<Rightarrow> bytes \<Rightarrow> 's \<Rightarrow> bool \<times> 's" where
  "sock_send_all send bs s = (if bs = [] then (True, s)
     else case send bs s of (sent, s) \<Rightarrow>
       if sent = 0 then (False, s) else sock_send_all send (drop sent bs) s)"
  by pat_completeness auto
termination
  by (relation "measure (\<lambda>(send, bs, s). length bs)") auto

declare sock_recv_exact.simps [simp del] sock_send_all.simps [simp del]

section \<open>Frames\<close>

definition send_frame :: "(bytes \<Rightarrow> 's \<Rightarrow> nat \<times> 's) \<Rightarrow> frame \<Rightarrow> 's \<Rightarrow> bool res \<times> 's" where
  "send_frame send f s = (case serialize_frame f of
     Inl e \<Rightarrow> (Inl e, s)
   | Inr bs \<Rightarrow> (case sock_send_all send bs s of (ok, s) \<Rightarrow> (Inr ok, s)))"

definition header_u32 :: "bytes \<Rightarrow> nat \<Rightarrow> u32" where
  "header_u32 h i = ucast (h ! i) OR push_bit 8 (ucast (h ! (i + 1))) OR push_bit 16 (ucast (h ! (i + 2))) OR
     push_bit 24 (ucast (h ! (i + 3)))"

definition recv_frame :: "(nat \<Rightarrow> 's \<Rightarrow> bytes \<times> 's) \<Rightarrow> 's \<Rightarrow> frame option \<times> 's" where
  "recv_frame recv s = (case sock_recv_exact recv HEADER_SIZE s of
     (None, s) \<Rightarrow> (None, s)
   | (Some header, s) \<Rightarrow>
       if header_u32 header 0 \<noteq> FRAME_MAGIC then (None, s)
       else let len = header_u32 header 8
       in if MAX_FRAME < unat len then (None, s)
       else case sock_recv_exact recv (unat len + TRAILER_SIZE) s of
         (None, s) \<Rightarrow> (None, s)
       | (Some body, s) \<Rightarrow> (case deserialize_frame (header @ body) of
           Inl _ \<Rightarrow> (None, s) | Inr (f, _) \<Rightarrow> (Some f, s)))"

section \<open>What the operating system promises\<close>

text \<open>\<open>pending s\<close> is what the peer has sent and the program has not yet received: a call that asks for
  something returns some of it, from the front, as long as there is any.\<close>

locale stream_source =
  fixes recv :: "nat \<Rightarrow> 's \<Rightarrow> bytes \<times> 's" and pending :: "'s \<Rightarrow> bytes"
  assumes recv_front: "recv n s = (got, s') \<Longrightarrow> pending s = got @ pending s' \<and> length got \<le> n"
    and recv_progress: "recv n s = (got, s') \<Longrightarrow> 0 < n \<Longrightarrow> pending s \<noteq> [] \<Longrightarrow> got \<noteq> []"
begin

lemma recv_exact_front:
  "sock_recv_exact recv n s = (r, s') \<Longrightarrow>
    (case r of Some bs \<Rightarrow> pending s = bs @ pending s' \<and> length bs = n | None \<Rightarrow> length (pending s) < n)"
proof (induction n arbitrary: s r s' rule: less_induct)
  case (less n)
  show ?case
  proof (cases "n = 0")
    case True
    then show ?thesis using less.prems by (auto simp: sock_recv_exact.simps)
  next
    case False
    obtain got s1 where g: "recv n s = (got, s1)" by force
    have f: "pending s = got @ pending s1" "length got \<le> n" using recv_front [OF g] by auto
    show ?thesis
    proof (cases "got = []")
      case True
      then have "pending s = []" using recv_progress [OF g] False by blast
      moreover have "sock_recv_exact recv n s = (None, s1)" using True g False by (subst sock_recv_exact.simps) simp
      ultimately show ?thesis using less.prems False by auto
    next
      case nonempty: False
      obtain r1 s2 where r1: "sock_recv_exact recv (n - length got) s1 = (r1, s2)" by force
      have "sock_recv_exact recv n s = (map_option (\<lambda>r. got @ r) r1, s2)"
        using False g nonempty r1 by (subst sock_recv_exact.simps) simp
      then have e: "r = map_option (\<lambda>r. got @ r) r1" "s' = s2" using less.prems by simp_all
      have "n - length got < n" using nonempty False by (cases got) simp_all
      from less.IH [OF this r1] show ?thesis using e f by (cases r1) auto
    qed
  qed
qed

lemma recv_exact_enough:
  assumes "n \<le> length (pending s)"
  obtains s' where "sock_recv_exact recv n s = (Some (take n (pending s)), s')" "pending s' = drop n (pending s)"
proof -
  obtain r s' where r: "sock_recv_exact recv n s = (r, s')" by force
  from recv_exact_front [OF r] assms obtain bs where "r = Some bs" "pending s = bs @ pending s'" "length bs = n"
    by (cases r) auto
  then have "bs = take n (pending s)" "pending s' = drop n (pending s)" by simp_all
  with r \<open>r = Some bs\<close> show thesis using that [of s'] by simp
qed

end

section \<open>The header\<close>

lemma header_u32_le: "header_u32 (pre @ le_bytes 0 4 v @ t) (length pre) = v"
proof -
  obtain a b c d where l: "le_bytes 0 4 v = [a, b, c, d]" by (simp add: le_bytes_def upt_rec)
  have "Some (v, []) = r_u32 (le_bytes 0 4 v)" using fields_get(2) [of v "[]"] by simp
  also have "\<dots> = Some (((ucast a OR push_bit 8 (ucast b)) OR push_bit 16 (ucast c)) OR push_bit 24 (ucast d), [])"
  proof -
    have "r_loop (Suc (Suc (Suc (Suc 0)))) 0 (0 :: u32) [a, b, c, d] =
        Some (((ucast a OR push_bit 8 (ucast b)) OR push_bit 16 (ucast c)) OR push_bit 24 (ucast d), [])" by simp
    moreover have "(4 :: nat) = Suc (Suc (Suc (Suc 0)))" by simp
    ultimately show ?thesis unfolding l r_u32_def by (simp only:)
  qed
  finally have v: "ucast a OR push_bit 8 (ucast b) OR push_bit 16 (ucast c) OR push_bit 24 (ucast d) = v"
    by (simp add: or.assoc)
  show ?thesis unfolding l by (simp add: header_u32_def nth_append v)
qed

lemma header_fields:
  "header_u32 (header_bytes magic major ty len) 0 = magic" "header_u32 (header_bytes magic major ty len) 8 = len"
proof -
  show "header_u32 (header_bytes magic major ty len) 0 = magic"
    unfolding header_bytes_def using header_u32_le [of "[]" magic] by simp
  show "header_u32 (header_bytes magic major ty len) 8 = len"
    unfolding header_bytes_def
    using header_u32_le [of "le_bytes 0 4 magic @ le_bytes 0 2 major @ le_bytes 0 2 ty" len "[]"] by simp
qed

context stream_source
begin

text \<open>A frame the peer has sent is received as it is, however the stream is cut up, and nothing behind it is
  touched.\<close>

lemma recv_sent_frame:
  assumes "serialize_frame f = Inr bs" "pending s = bs @ rest"
  shows "\<exists>s'. recv_frame recv s = (Some f, s') \<and> pending s' = rest"
proof -
  let ?len = "of_nat (length (payload f)) :: u32"
  let ?h = "header_bytes FRAME_MAGIC PROTOCOL_MAJOR (msg_code (ftype f)) ?len"
  let ?b = "payload f @ le_bytes 0 4 (crc32 (frame_image f))"
  have m: "length (payload f) \<le> MAX_FRAME" and bs: "bs = ?h @ ?b"
    using assms(1) by (auto simp: serialize_frame_image seal_app frame_image_def split: if_splits)
  have u: "unat ?len = length (payload f)" using m by (simp add: unat_of_nat MAX_FRAME_def)
  have lh: "HEADER_SIZE \<le> length (pending s)" by (simp add: assms(2) bs HEADER_SIZE_def)
  obtain s1 where s1: "sock_recv_exact recv HEADER_SIZE s = (Some ?h, s1)" "pending s1 = ?b @ rest"
    by (rule recv_exact_enough [OF lh]) (simp add: assms(2) bs HEADER_SIZE_def)
  have lb: "unat ?len + TRAILER_SIZE \<le> length (pending s1)" by (simp add: s1(2) u TRAILER_SIZE_def)
  obtain s2 where s2: "sock_recv_exact recv (unat ?len + TRAILER_SIZE) s1 = (Some ?b, s2)" "pending s2 = rest"
    by (rule recv_exact_enough [OF lb]) (simp add: s1(2) u TRAILER_SIZE_def)
  have "deserialize_frame (?h @ ?b) = Inr (f, length bs)"
    using assms(1) deserialize_iff [of "?h @ ?b" f "length bs"] bs by auto
  then show ?thesis using m s1 s2
    by (simp add: recv_frame_def header_fields Let_def u)
qed

text \<open>Whatever is received is the front of what the peer sent.\<close>

lemma recv_frame_sound:
  assumes "recv_frame recv s = (Some f, s')"
  shows "\<exists>bs. serialize_frame f = Inr bs \<and> pending s = bs @ pending s'"
proof -
  obtain h s1 b s2 n where h: "sock_recv_exact recv HEADER_SIZE s = (Some h, s1)"
    and b: "sock_recv_exact recv (unat (header_u32 h 8) + TRAILER_SIZE) s1 = (Some b, s')"
    and d: "deserialize_frame (h @ b) = Inr (f, n)"
    using assms by (auto simp: recv_frame_def Let_def split: prod.splits option.splits if_splits sum.splits)
  have p: "pending s = h @ b @ pending s'" "length h = 12" "length b = unat (header_u32 h 8) + 4"
    using recv_exact_front [OF h] recv_exact_front [OF b] by (simp_all add: HEADER_SIZE_def TRAILER_SIZE_def)
  from d obtain bs t where bs: "serialize_frame f = Inr bs" "h @ b = bs @ t" "n = length bs"
    by (auto simp: deserialize_iff)
  have "bs = seal (frame_image f)" "length (payload f) \<le> MAX_FRAME"
    using bs(1) by (auto simp: serialize_frame_image split: if_splits)
  then have l: "length bs = 12 + length (payload f) + 4"
      "h = header_bytes FRAME_MAGIC PROTOCOL_MAJOR (msg_code (ftype f)) (of_nat (length (payload f)))"
    using bs(2) p(2) by (simp_all add: seal_app frame_image_def append_eq_append_conv)
  have "unat (of_nat (length (payload f)) :: u32) = length (payload f)"
    using \<open>length (payload f) \<le> MAX_FRAME\<close> by (simp add: unat_of_nat MAX_FRAME_def)
  then have "length (h @ b) = length bs" using p(2,3) l by (simp add: header_fields)
  then have "t = []" using bs(2) by simp
  then show ?thesis using bs p(1) by simp
qed

end

text \<open>\<open>sent s\<close> is what the program has handed over: a call takes a prefix of what it is offered.\<close>

locale stream_sink =
  fixes send :: "bytes \<Rightarrow> 's \<Rightarrow> nat \<times> 's" and sent :: "'s \<Rightarrow> bytes"
  assumes send_front: "send bs s = (n, s') \<Longrightarrow> n \<le> length bs \<and> sent s' = sent s @ take n bs"
begin

lemma send_all_front:
  "sock_send_all send bs s = (b, s') \<Longrightarrow> \<exists>k. sent s' = sent s @ take k bs \<and> (b \<longrightarrow> k = length bs)"
proof (induction "length bs" arbitrary: bs s rule: less_induct)
  case less
  show ?case
  proof (cases "bs = []")
    case True
    then show ?thesis using less.prems by (auto simp: sock_send_all.simps)
  next
    case False
    obtain n s1 where n: "send bs s = (n, s1)" by force
    have f: "n \<le> length bs" "sent s1 = sent s @ take n bs" using send_front [OF n] by auto
    show ?thesis
    proof (cases "n = 0")
      case True
      then have "sock_send_all send bs s = (False, s1)" using n False by (subst sock_send_all.simps) simp
      then show ?thesis using less.prems f True by (auto intro!: exI [of _ 0])
    next
      case pos: False
      then have "sock_send_all send bs s = sock_send_all send (drop n bs) s1"
        using n False by (subst sock_send_all.simps) simp
      then have "sock_send_all send (drop n bs) s1 = (b, s')" using less.prems by simp
      from less.hyps [OF _ this] pos False obtain k where
        k: "sent s' = sent s1 @ take k (drop n bs)" "b \<longrightarrow> k = length (drop n bs)" by auto
      then have "sent s' = sent s @ take (n + k) bs" by (simp add: f take_add)
      then show ?thesis using k(2) f(1) by (intro exI [of _ "n + k"]) auto
    qed
  qed
qed

lemma send_frame_sent:
  assumes "send_frame send f s = (Inr True, s')"
  shows "\<exists>bs. serialize_frame f = Inr bs \<and> sent s' = sent s @ bs"
  using assms send_all_front
  by (auto simp: send_frame_def split: sum.splits prod.splits) (metis take_all order_refl)

end

section \<open>A stream in pieces\<close>

text \<open>A concrete socket: the pieces in which the bytes arrive, however they were sent.\<close>

fun piece_recv :: "nat \<Rightarrow> bytes list \<Rightarrow> bytes \<times> bytes list" where
  "piece_recv n [] = ([], [])"
| "piece_recv n (c # cs) = (if c = [] then piece_recv n cs
     else if length c \<le> n then (c, cs) else (take n c, drop n c # cs))"

interpretation pieces: stream_source piece_recv concat
proof
  fix n s got s' assume r: "piece_recv n s = (got, s')"
  show "concat s = got @ concat s' \<and> length got \<le> n"
    using r by (induction n s rule: piece_recv.induct) (auto split: if_splits)
  show "got \<noteq> []" if "0 < n" "concat s \<noteq> []"
    using r that by (induction n s rule: piece_recv.induct) (auto split: if_splits)
qed

text \<open>A concrete sink: the bytes taken so far, and how many bytes the next calls take at most.\<close>

fun piece_send :: "bytes \<Rightarrow> bytes \<times> nat list \<Rightarrow> nat \<times> (bytes \<times> nat list)" where
  "piece_send bs (out, []) = (0, (out, []))"
| "piece_send bs (out, n # ns) = (min n (length bs), (out @ take n bs, ns))"

interpretation piece_sink: stream_sink piece_send fst
proof
  show "n \<le> length bs \<and> fst s' = fst s @ take n bs" if "piece_send bs s = (n, s')" for bs s n s'
    using that by (cases "(bs, s)" rule: piece_send.cases) (auto simp: min_def)
qed

section \<open>Properties\<close>

text \<open>C11: Frames survive the stream. Over any socket that delivers the bytes of the peer in order, in pieces of
  whatever size, \<^verbatim>\<open>recv_frame\<close> returns a frame exactly if the stream goes on with the bytes of that frame:
  a frame that was sent is received as it is, and a frame that is received was sent; what follows it stays
  in the stream.\<close>

theorem frames_survive_fragmentation:
  assumes "stream_source recv pending"
  shows "(\<exists>s'. recv_frame recv s = (Some f, s') \<and> pending s' = rest) \<longleftrightarrow>
    (\<exists>bs. serialize_frame f = Inr bs \<and> pending s = bs @ rest)"
  using stream_source.recv_sent_frame [OF assms] stream_source.recv_frame_sound [OF assms] by blast

theorem frames_survive_fragmentation_witness:
  "\<exists>s' bs. serialize_frame \<lparr>ftype = MSG_HELLO, payload = [7]\<rparr> = Inr bs \<and>
     recv_frame piece_recv [take 3 bs, drop 3 bs @ [9]] = (Some \<lparr>ftype = MSG_HELLO, payload = [7]\<rparr>, s') \<and> concat s' = [9]"
proof -
  let ?f = "\<lparr>ftype = MSG_HELLO, payload = [7]\<rparr>"
  obtain bs where bs: "serialize_frame ?f = Inr bs" by (simp add: serialize_frame_image MAX_FRAME_def)
  have "concat [take 3 bs, drop 3 bs @ [9]] = bs @ [9]" by simp
  then show ?thesis
    using bs frames_survive_fragmentation [OF pieces.stream_source_axioms, of "[take 3 bs, drop 3 bs @ [9]]" ?f "[9]"] by blast
qed
end
