(* ===== verification/Coordinator.thy ===== *)
theory Coordinator
  imports Snapshot Transport
begin

text \<open>
  The coordinator of \<^verbatim>\<open>tools/distributed.cpp\<close>. Its shared state is guarded by a mutex, the governor by its
  own lock, and a worker's connection is served by a thread of its own. A message is therefore handled in
  phases, one per locked region, between which other threads run: the fence under the mutex, then the
  call or the calls of the governor. An exception that leaves a thread ends the process.
\<close>

section \<open>Shared state\<close>

record coord =
  co_gov :: governor
  co_epoch :: coordinator_epoch
  co_workers :: "(worker_id \<times> worker_boot_id) list"
  co_obs_hwm :: "(worker_id \<times> observation_generation) list"

text \<open>The coordinator's own configuration and its first state.\<close>

definition coordinator_config :: "governor_id \<Rightarrow> governor_config" where
  "coordinator_config gid = \<lparr>cfg_id = gid, cfg_node = StrongId 1, cfg_boot = StrongId 1, cfg_epoch = Generation 1\<rparr>"

definition new_coord :: "governor_id \<Rightarrow> id_counters \<Rightarrow> coord" where
  "new_coord gid ids = \<lparr>co_gov = new_governor (coordinator_config gid) ids, co_epoch = Generation 1,
     co_workers = [], co_obs_hwm = []\<rparr>"

section \<open>Replies\<close>

text \<open>\<^verbatim>\<open>send_ack\<close> and \<^verbatim>\<open>send_error\<close>: the message with its frame type.\<close>

type_synonym reply = "msg_type \<times> ack_msg"

definition send_ack :: "u64 \<Rightarrow> bool \<Rightarrow> string \<Rightarrow> reply" where
  "send_ack i b msg = (MSG_ACK, \<lparr>ack_message_id = i, ack_ok = b, ack_message = msg\<rparr>)"

definition send_error :: "u64 \<Rightarrow> string \<Rightarrow> reply" where
  "send_error i msg = (MSG_ERROR, \<lparr>ack_message_id = i, ack_ok = False, ack_message = ''ERROR:'' @ msg\<rparr>)"

section \<open>Fencing\<close>

text \<open>The reason of a refusal, or \<open>None\<close> where the message passes.\<close>

definition fence_obs ::
  "coord \<Rightarrow> coordinator_epoch \<Rightarrow> worker_boot_id \<Rightarrow> observation_generation \<Rightarrow> worker_id \<Rightarrow> string option" where
  "fence_obs cs epoch boot og w =
     (if epoch \<noteq> co_epoch cs then Some ''STALE_EPOCH''
      else if map_of (co_workers cs) w \<noteq> Some boot then Some ''STALE_BOOT''
      else case map_of (co_obs_hwm cs) w of
        Some hi \<Rightarrow> if og < hi then Some ''STALE_OBSERVATION'' else None
      | None \<Rightarrow> None)"

definition fence_epoch_boot :: "coord \<Rightarrow> coordinator_epoch \<Rightarrow> worker_boot_id \<Rightarrow> string option" where
  "fence_epoch_boot cs epoch boot =
     (if epoch \<noteq> co_epoch cs then Some ''STALE_EPOCH''
      else if list_ex (\<lambda>(w, b). b = boot) (co_workers cs) then None
      else Some ''STALE_BOOT'')"

section \<open>What a thread goes on with\<close>

datatype pending =
    DoWelcome register_msg
  | DoObserve power_obs_msg
  | DoReserve reserve_msg
  | DoCommit reserve_msg reservation_id
  | DoActivate budget_action_msg
  | DoRelease budget_action_msg
  | DoDecide reserve_msg

datatype outcome =
    Answer reply
  | Pending pending
  | Close reply
  | Crash exn

text \<open>The first frame of a connection.\<close>

definition greet :: "frame \<Rightarrow> coord \<Rightarrow> outcome \<times> coord" where
  "greet f cs =
     (if ftype f \<noteq> MSG_REGISTER then (Close (send_error 0 ''expected REGISTER''), cs)
      else case decode_register f of
        None \<Rightarrow> (Close (send_error 0 ''malformed register''), cs)
      | Some reg \<Rightarrow> (Pending (DoWelcome reg),
          cs\<lparr>co_workers := AList.update (reg_worker reg) (reg_boot reg) (co_workers cs),
             co_obs_hwm := AList.update (reg_worker reg) gen_null (co_obs_hwm cs)\<rparr>))"

text \<open>A later frame, up to the end of its region under the mutex.\<close>

definition admit_obs ::
  "coordinator_epoch \<Rightarrow> worker_boot_id \<Rightarrow> observation_generation \<Rightarrow> worker_id \<Rightarrow> outcome \<Rightarrow> coord \<Rightarrow> outcome \<times> coord" where
  "admit_obs epoch boot og w next cs = (case fence_obs cs epoch boot og w of
     Some txt \<Rightarrow> (Answer (send_error (gen_raw og) txt), cs)
   | None \<Rightarrow> (next, cs\<lparr>co_obs_hwm := AList.update w og (co_obs_hwm cs)\<rparr>))"

definition admit_call :: "coordinator_epoch \<Rightarrow> worker_boot_id \<Rightarrow> pending \<Rightarrow> coord \<Rightarrow> outcome \<times> coord" where
  "admit_call epoch boot next cs = (case fence_epoch_boot cs epoch boot of
     Some txt \<Rightarrow> (Answer (send_error 0 txt), cs) | None \<Rightarrow> (Pending next, cs))"

definition receive :: "frame \<Rightarrow> coord \<Rightarrow> outcome \<times> coord" where
  "receive f cs = (case ftype f of
     MSG_POWER_OBSERVATION \<Rightarrow> (case decode_power_obs f of
       None \<Rightarrow> (Answer (send_error 0 ''malformed observation''), cs)
     | Some po \<Rightarrow> admit_obs (po_epoch po) (po_boot po) (po_obs_gen po) (po_worker po) (Pending (DoObserve po)) cs)
   | MSG_THERMAL_OBSERVATION \<Rightarrow> (case decode_thermal_obs f of
       None \<Rightarrow> (Answer (send_error 0 ''malformed thermal''), cs)
     | Some th \<Rightarrow> admit_obs (to_epoch th) (to_boot th) (to_obs_gen th) (to_worker th)
         (Answer (send_ack (gen_raw (to_obs_gen th)) True ''accepted'')) cs)
   | MSG_RESERVE \<Rightarrow> (case decode_reserve f of
       None \<Rightarrow> (Answer (send_error 0 ''malformed reserve''), cs)
     | Some rr \<Rightarrow> admit_call (rs_epoch rr) (rs_boot rr) (DoReserve rr) cs)
   | MSG_ACTIVATE \<Rightarrow> (case decode_budget_action f of
       None \<Rightarrow> (Answer (send_error 0 ''malformed action''), cs)
     | Some ba \<Rightarrow> admit_call (ba_epoch ba) (ba_boot ba) (DoActivate ba) cs)
   | MSG_RELEASE \<Rightarrow> (case decode_budget_action f of
       None \<Rightarrow> (Answer (send_error 0 ''malformed action''), cs)
     | Some ba \<Rightarrow> admit_call (ba_epoch ba) (ba_boot ba) (DoRelease ba) cs)
   | MSG_DECISION_REQUEST \<Rightarrow> (case decode_reserve f of
       None \<Rightarrow> (Answer (send_error 0 ''malformed decision''), cs)
     | Some dr \<Rightarrow> admit_call (rs_epoch dr) (rs_boot dr) (DoDecide dr) cs)
   | MSG_SNAPSHOT_REQUEST \<Rightarrow> (case state_digest (co_gov cs) of
       Inl e \<Rightarrow> (Crash e, cs) | Inr d \<Rightarrow> (Answer (send_ack 0 True d), cs))
   | _ \<Rightarrow> (Answer (send_error 0 ''unknown message''), cs))"

section \<open>The calls of the governor\<close>

definition milli :: "i64 \<Rightarrow> double" where "milli v = double_of_int (sint v) / lit 1000"

definition optional :: "bool \<Rightarrow> 'a res \<Rightarrow> 'a option res" where
  "optional b v = (if b then rbind v (\<lambda>v. Inr (Some v)) else Inr None)"

definition observation_sample :: "power_obs_msg \<Rightarrow> backend_sample res" where
  "observation_sample po =
     rbind (optional (po_has_power po) (Watts (milli (po_power_mw po)))) (\<lambda>p.
     rbind (optional (po_has_temp po) (Celsius (double_of_int (sint (po_temp_centi po)) / lit 100))) (\<lambda>t.
     rbind (optional (po_has_util po) (Utilization (double_of_int (uint (po_utilization_bp po)) / lit 10000))) (\<lambda>u.
     Inr (empty_sample\<lparr>bs_power := p, bs_temperature := t, bs_utilization := u,
       bs_throttled := po_throttled po, bs_provenance := REPORTED, bs_source := ''worker''\<rparr>))))"

definition answer_call :: "u64 \<Rightarrow> (res_result \<times> governor) res \<Rightarrow> governor \<Rightarrow> outcome \<times> governor" where
  "answer_call i call g = (case call of
     Inl e \<Rightarrow> (Crash e, g) | Inr (r, g) \<Rightarrow> (Answer (send_ack i (ok r) (reason r)), g))"

fun perform :: "pending \<Rightarrow> coord \<Rightarrow> outcome \<times> coord" where
  "perform (DoWelcome reg) cs =
     (Answer (send_ack (raw (reg_worker reg)) True (gen_string (co_epoch cs))), cs)"
| "perform (DoObserve po) cs = (case observation_sample po of
     Inl e \<Rightarrow> (Crash e, cs)
   | Inr s \<Rightarrow> (case ingest (fb_capabilities new_fake) s (sint (po_timestamp_ns po)) (co_gov cs) of
       (Inl e, g) \<Rightarrow> (Crash e, cs\<lparr>co_gov := g\<rparr>)
     | (Inr _, g) \<Rightarrow> (Answer (send_ack (gen_raw (po_obs_gen po)) True ''accepted''), cs\<lparr>co_gov := g\<rparr>)))"
| "perform (DoReserve rr) cs = (case
     rbind (Watts (milli (rs_requested_mw rr))) (\<lambda>p.
     rbind (Joules (milli (rs_requested_mj rr))) (\<lambda>j.
     rbind (nanoseconds (sint (rs_validity_ns rr))) (\<lambda>v. Inr (p, j, v)))) of
       Inl e \<Rightarrow> (Crash e, cs)
     | Inr (p, j, v) \<Rightarrow> (case plan_reservation (rs_workload rr) THROUGHPUT (rs_scope rr) (rs_budget rr) p j
         gen_first gen_first (sint (rs_timestamp_ns rr)) v (co_gov cs) of (plan, g) \<Rightarrow>
           (if ok plan then Pending (DoCommit rr (rr_id plan)) else Answer (send_error 0 (''plan:'' @ reason plan)),
            cs\<lparr>co_gov := g\<rparr>)))"
| "perform (DoCommit rr rid) cs = (case
     reserve_reservation rid (rs_budget_gen rr) (sint (rs_timestamp_ns rr)) (co_gov cs) of
       Inl e \<Rightarrow> (Crash e, cs)
     | Inr (r, g) \<Rightarrow>
         (if ok r then Answer (send_ack (raw (rs_workload rr)) True (id_string rid))
          else Answer (send_error 0 (''reserve:'' @ reason r)), cs\<lparr>co_gov := g\<rparr>))"
| "perform (DoActivate ba) cs = (case answer_call (raw (ba_reservation ba))
     (activate_reservation (ba_reservation ba) (ba_budget_gen ba) 0 (co_gov cs)) (co_gov cs) of
       (out, g) \<Rightarrow> (out, cs\<lparr>co_gov := g\<rparr>))"
| "perform (DoRelease ba) cs = (case answer_call (raw (ba_reservation ba))
     (release_reservation (ba_reservation ba) (ba_budget_gen ba) 0 (co_gov cs)) (co_gov cs) of
       (out, g) \<Rightarrow> (out, cs\<lparr>co_gov := g\<rparr>))"
| "perform (DoDecide dr) cs = (case
     rbind (Watts (milli (rs_requested_mw dr))) (\<lambda>p. rbind (Joules (lit 0)) (\<lambda>j.
       decide_for (rs_budget dr) (rs_workload dr) THROUGHPUT p j (lit 1) 0 (co_gov cs))) of
       Inl e \<Rightarrow> (Crash e, cs)
     | Inr (d, g) \<Rightarrow> (Answer (send_ack (raw (rs_workload dr)) True
           (decision_to_string (dec_verdict d) @ '' '' @ dec_digest d)), cs\<lparr>co_gov := g\<rparr>))"

section \<open>Control commands\<close>

text \<open>The commands of the control loop, with their arguments as \<^verbatim>\<open>sscanf\<close> reads them.\<close>

datatype control =
    InstallBudget u64 u64 double double
  | SetPolicy double
  | RollEpoch
  | ControlSnapshot

definition control_budget :: "u64 \<Rightarrow> u64 \<Rightarrow> double \<Rightarrow> double \<Rightarrow> power_budget res" where
  "control_budget i par hmax soft = rbind (Watts hmax) (\<lambda>h. rbind (Watts soft) (\<lambda>s.
     Inr \<lparr>bud_id = StrongId i, bud_generation = gen_first, bud_domain = StrongId 1,
       bud_policy_generation = gen_null, bud_parent = (if par \<noteq> 0 then Some (StrongId par) else None),
       bud_name = ''budget'', hard_max = h, soft_target = s, min_reserve = Fin 0, burst_allowance = Fin 0,
       burst_window = 0, recovery = 500000000, bud_priority = 50, authoritative = True\<rparr>))"

definition control_policy :: "double \<Rightarrow> id_counters \<Rightarrow> power_policy res \<times> id_counters" where
  "control_policy cap ids = (case allocate (next_policy ids) of (pid, ctr) \<Rightarrow>
     (rbind (Watts cap) (\<lambda>c. Inr ((policy_defaults pid ''default'')\<lparr>device_hard_cap := Some c, pol_generation := gen_first\<rparr>)),
      ids\<lparr>next_policy := ctr\<rparr>))"

fun control_step :: "timestamp \<Rightarrow> control \<Rightarrow> coord \<Rightarrow> string res \<times> coord" where
  "control_step clk (InstallBudget i par hmax soft) cs = (case control_budget i par hmax soft of
     Inl e \<Rightarrow> (Inl e, cs)
   | Inr b \<Rightarrow> (case install_budget clk b (co_gov cs) of (done, g) \<Rightarrow>
       (Inr (if done then ''BUDGET installed'' else ''BUDGET rejected''), cs\<lparr>co_gov := g\<rparr>)))"
| "control_step clk (SetPolicy cap) cs = (case control_policy cap (gov_ids (co_gov cs)) of (p, ids) \<Rightarrow>
     let g = (co_gov cs)\<lparr>gov_ids := ids\<rparr>
     in case p of
       Inl e \<Rightarrow> (Inl e, cs\<lparr>co_gov := g\<rparr>)
     | Inr p \<Rightarrow> (case install_policy clk p g of (done, g) \<Rightarrow>
         (Inr (if done then ''POLICY installed'' else ''POLICY rejected''), cs\<lparr>co_gov := g\<rparr>)))"
| "control_step clk RollEpoch cs = (let e = gen_next (co_epoch cs)
     in (Inr (''EPOCH '' @ gen_string e), cs\<lparr>co_epoch := e\<rparr>))"
| "control_step clk ControlSnapshot cs = (case state_digest (co_gov cs) of
     Inl e \<Rightarrow> (Inl e, cs) | Inr d \<Rightarrow> (Inr (''SNAPSHOT '' @ d), cs))"

definition control_save ::
  "write_outcome \<Rightarrow> timestamp \<Rightarrow> string \<Rightarrow> file_system \<times> coord \<Rightarrow> string res \<times> file_system \<times> coord" where
  "control_save io clk path s = (case s of (fs, cs) \<Rightarrow>
     case g_save io clk path (fs, co_gov cs) of
       (Inl e, fs, g) \<Rightarrow> (Inl e, fs, cs\<lparr>co_gov := g\<rparr>)
     | (Inr b, fs, g) \<Rightarrow> (Inr (if b then ''SAVED'' else ''SAVE_FAIL''), fs, cs\<lparr>co_gov := g\<rparr>))"

section \<open>The process\<close>

datatype connection = Unregistered | Waiting | Busy pending | Closed

record process =
  pr_coord :: coord
  pr_conns :: "nat \<Rightarrow> connection option"
  pr_dead :: bool

definition settle :: "nat \<Rightarrow> outcome \<times> coord \<Rightarrow> process \<Rightarrow> process" where
  "settle n oc p = (case oc of (out, cs) \<Rightarrow> (case out of
     Answer _ \<Rightarrow> p\<lparr>pr_coord := cs, pr_conns := (pr_conns p)(n \<mapsto> Waiting)\<rparr>
   | Pending q \<Rightarrow> p\<lparr>pr_coord := cs, pr_conns := (pr_conns p)(n \<mapsto> Busy q)\<rparr>
   | Close _ \<Rightarrow> p\<lparr>pr_coord := cs, pr_conns := (pr_conns p)(n \<mapsto> Closed)\<rparr>
   | Crash _ \<Rightarrow> p\<lparr>pr_coord := cs, pr_dead := True\<rparr>))"

text \<open>
  One step of the process: a connection is accepted, a thread runs one of its phases, a peer hangs up, a
  command of the control loop runs (\<^verbatim>\<open>save\<close> on whatever the file system holds), or the process ends:
  after \<^verbatim>\<open>quit\<close> or the end of the input \<^verbatim>\<open>coordinator_loop\<close> returns and the detached threads end with it.
\<close>

inductive proc_step :: "process \<Rightarrow> process \<Rightarrow> bool" where
  proc_accept: "\<not> pr_dead p \<Longrightarrow> pr_conns p n = None \<Longrightarrow>
    proc_step p (p\<lparr>pr_conns := (pr_conns p)(n \<mapsto> Unregistered)\<rparr>)"
| proc_greet: "\<not> pr_dead p \<Longrightarrow> pr_conns p n = Some Unregistered \<Longrightarrow>
    proc_step p (settle n (greet f (pr_coord p)) p)"
| proc_receive: "\<not> pr_dead p \<Longrightarrow> pr_conns p n = Some Waiting \<Longrightarrow>
    proc_step p (settle n (receive f (pr_coord p)) p)"
| proc_perform: "\<not> pr_dead p \<Longrightarrow> pr_conns p n = Some (Busy q) \<Longrightarrow>
    proc_step p (settle n (perform q (pr_coord p)) p)"
| proc_hangup: "\<not> pr_dead p \<Longrightarrow> pr_conns p n \<in> {Some Unregistered, Some Waiting} \<Longrightarrow>
    proc_step p (p\<lparr>pr_conns := (pr_conns p)(n \<mapsto> Closed)\<rparr>)"
| proc_control: "\<not> pr_dead p \<Longrightarrow> control_step clk c (pr_coord p) = (r, cs) \<Longrightarrow>
    proc_step p (p\<lparr>pr_coord := cs, pr_dead := (\<exists>e. r = Inl e)\<rparr>)"
| proc_save: "\<not> pr_dead p \<Longrightarrow> control_save io clk path (fs, pr_coord p) = (r, fs', cs) \<Longrightarrow>
    proc_step p (p\<lparr>pr_coord := cs, pr_dead := (\<exists>e. r = Inl e)\<rparr>)"
| proc_quit: "\<not> pr_dead p \<Longrightarrow> proc_step p (p\<lparr>pr_dead := True\<rparr>)"

end
