(* ===== verification/Scan.thy ===== *)
theory Scan
  imports Util
begin

text \<open>
  Reading text: the parts of the C and C++ libraries the command lines go through. \<^verbatim>\<open>std::stoull\<close> and
  \<^verbatim>\<open>std::stoi\<close> throw; \<^verbatim>\<open>sscanf\<close> stops at the first conversion that fails, and a number its target cannot hold
  is undefined behaviour; \<^verbatim>\<open>atof\<close> takes the longest prefix that is a number. The sockets of the repository are
  those of Windows, where \<^verbatim>\<open>long\<close> has 32 bits.
\<close>

section \<open>Characters and integers\<close>

definition is_digit :: "char \<Rightarrow> bool" where
  "is_digit c \<longleftrightarrow> 48 \<le> (of_char c :: nat) \<and> (of_char c :: nat) \<le> 57"

definition digits_value :: "string \<Rightarrow> nat" where
  "digits_value s = foldl (\<lambda>v c. v * 10 + (of_char c - 48)) 0 s"

definition is_space :: "char \<Rightarrow> bool" where
  "is_space c \<longleftrightarrow> of_char c \<in> {9 :: nat, 10, 11, 12, 13, 32}"

definition split_sign :: "string \<Rightarrow> bool \<times> string" where
  "split_sign s = (case s of
     c # t \<Rightarrow> if c = CHR ''-'' then (True, t) else if c = CHR ''+'' then (False, t) else (False, s)
   | [] \<Rightarrow> (False, []))"

text \<open>An optionally signed decimal number after white space, and what follows it.\<close>

definition scan_int :: "string \<Rightarrow> (int \<times> string) option" where
  "scan_int s = (case split_sign (dropWhile is_space s) of (neg, t) \<Rightarrow>
     let ds = takeWhile is_digit t; v = int (digits_value ds)
     in if ds = [] then None else Some (if neg then - v else v, dropWhile is_digit t))"

definition stoull :: "string \<Rightarrow> u64 res" where
  "stoull s = (case scan_int s of
     None \<Rightarrow> Inl InvalidArgument
   | Some (v, _) \<Rightarrow> if 2 ^ 64 \<le> \<bar>v\<bar> then Inl OutOfRange else Inr (word_of_int v))"

definition stoi :: "string \<Rightarrow> int res" where
  "stoi s = (case scan_int s of
     None \<Rightarrow> Inl InvalidArgument
   | Some (v, _) \<Rightarrow> if v < - (2 ^ 31) \<or> 2 ^ 31 \<le> v then Inl OutOfRange else Inr v)"

section \<open>Floating-point numbers\<close>

definition hex_value :: "char \<Rightarrow> nat option" where
  "hex_value c = (let n = of_char c :: nat in
     if 48 \<le> n \<and> n \<le> 57 then Some (n - 48)
     else if 97 \<le> n \<and> n \<le> 102 then Some (n - 87)
     else if 65 \<le> n \<and> n \<le> 70 then Some (n - 55)
     else None)"

definition is_hex :: "char \<Rightarrow> bool" where "is_hex c \<longleftrightarrow> hex_value c \<noteq> None"

definition base_value :: "nat \<Rightarrow> string \<Rightarrow> nat" where
  "base_value b s = foldl (\<lambda>v c. v * b + the (hex_value c)) 0 s"

definition lower :: "char \<Rightarrow> char" where
  "lower c = (let n = of_char c :: nat in if 65 \<le> n \<and> n \<le> 90 then char_of (n + 32) else c)"

text \<open>The length of the longest common prefix, ignoring case.\<close>

fun common :: "string \<Rightarrow> string \<Rightarrow> nat" where
  "common (a # as) (b # bs) = (if lower a = b then Suc (common as bs) else 0)"
| "common _ _ = 0"

text \<open>A scanner either takes a value and leaves the rest, or fails. In a strict scan (\<^verbatim>\<open>scanf\<close>) a started number
  that is not completed fails; otherwise (\<^verbatim>\<open>strtod\<close>) the longest number counts.\<close>

definition scan_exponent :: "bool \<Rightarrow> char \<Rightarrow> string \<Rightarrow> (int \<times> string) option" where
  "scan_exponent strict e s = (case s of
     c # t \<Rightarrow> if lower c \<noteq> e then Some (0, s)
       else (case split_sign t of (neg, u) \<Rightarrow>
         let ds = takeWhile is_digit u
         in if ds \<noteq> [] then Some (if neg then - int (digits_value ds) else int (digits_value ds), dropWhile is_digit u)
            else if strict then None else Some (0, s))
   | [] \<Rightarrow> Some (0, []))"

definition scan_mantissa :: "(char \<Rightarrow> bool) \<Rightarrow> string \<Rightarrow> string \<times> string \<times> string" where
  "scan_mantissa dg s = (let ds = takeWhile dg s; t = dropWhile dg s
     in case t of
          c # u \<Rightarrow> if c = CHR ''.'' then (ds, takeWhile dg u, dropWhile dg u) else (ds, [], t)
        | [] \<Rightarrow> (ds, [], []))"

definition rpow :: "rat \<Rightarrow> int \<Rightarrow> rat" where
  "rpow b e = (if 0 \<le> e then b ^ nat e else 1 / b ^ nat (- e))"

definition scan_decimal :: "bool \<Rightarrow> string \<Rightarrow> (rat \<times> string) option" where
  "scan_decimal strict s = (case scan_mantissa is_digit s of (ds, fs, t) \<Rightarrow>
     if ds = [] \<and> fs = [] then None
     else case scan_exponent strict (CHR ''e'') t of
       None \<Rightarrow> None
     | Some (e, t) \<Rightarrow> Some (of_nat (base_value 10 (ds @ fs)) * rpow 10 (e - int (length fs)), t))"

definition scan_hex :: "bool \<Rightarrow> string \<Rightarrow> (rat \<times> string) option" where
  "scan_hex strict s = (case scan_mantissa is_hex s of (ds, fs, t) \<Rightarrow>
     if ds = [] \<and> fs = [] then None
     else case scan_exponent strict (CHR ''p'') t of
       None \<Rightarrow> None
     | Some (e, t) \<Rightarrow> Some (of_nat (base_value 16 (ds @ fs)) * rpow 2 (e - 4 * int (length fs)), t))"

definition word_char :: "char \<Rightarrow> bool" where
  "word_char c \<longleftrightarrow> is_digit c \<or> (let n = of_char c :: nat in 65 \<le> n \<and> n \<le> 90 \<or> 97 \<le> n \<and> n \<le> 122 \<or> n = 95)"

definition scan_nan :: "bool \<Rightarrow> string \<Rightarrow> string option" where
  "scan_nan strict s = (case s of
     c # t \<Rightarrow> if c \<noteq> CHR ''('' then Some s
       else (case dropWhile word_char t of
           d # u \<Rightarrow> if d = CHR '')'' then Some u else if strict then None else Some s
         | [] \<Rightarrow> if strict then None else Some s)
   | [] \<Rightarrow> Some [])"

definition scan_double :: "bool \<Rightarrow> string \<Rightarrow> (double \<times> string) option" where
  "scan_double strict s = (case split_sign (dropWhile is_space s) of (neg, t) \<Rightarrow>
     let k = common t ''infinity''; signed = (\<lambda>q. rnd64 (if neg then - q else q))
     in if k = 8 then Some (if neg then NInf else PInf, drop 8 t)
        else if 3 \<le> k then (if strict \<and> k \<noteq> 3 then None else Some (if neg then NInf else PInf, drop 3 t))
        else if common t ''nan'' = 3 then map_option (\<lambda>u. (NaN, u)) (scan_nan strict (drop 3 t))
        else if common t ''0x'' = 2 then
          (case scan_hex strict (drop 2 t) of
             Some (q, u) \<Rightarrow> Some (signed q, u)
           | None \<Rightarrow> if strict then None else Some (Fin 0, drop 1 t))
        else map_option (\<lambda>(q, u). (signed q, u)) (scan_decimal strict t))"

text \<open>\<^verbatim>\<open>std::atof\<close>: the longest prefix that is a number, 0 where there is none.\<close>

definition atof :: "string \<Rightarrow> double" where
  "atof s = (case scan_double False s of None \<Rightarrow> Fin 0 | Some (x, _) \<Rightarrow> x)"

section \<open>sscanf\<close>

datatype conversion = LLU | LD | LF
datatype scanned = SU u64 | SD int | SF double

fun scan_one :: "conversion \<Rightarrow> string \<Rightarrow> (scanned \<times> string) option res" where
  "scan_one LLU s = (case scan_int s of
     None \<Rightarrow> Inr None
   | Some (v, t) \<Rightarrow> if 2 ^ 64 \<le> \<bar>v\<bar> then Inl Undefined else Inr (Some (SU (word_of_int v), t)))"
| "scan_one LD s = (case scan_int s of
     None \<Rightarrow> Inr None
   | Some (v, t) \<Rightarrow> if v < - (2 ^ 31) \<or> 2 ^ 31 \<le> v then Inl Undefined else Inr (Some (SD v, t)))"
| "scan_one LF s = Inr (map_option (\<lambda>(x, t). (SF x, t)) (scan_double True s))"

fun scan_args :: "conversion list \<Rightarrow> string \<Rightarrow> scanned list res" where
  "scan_args [] s = Inr []"
| "scan_args (c # cs) s = rbind (scan_one c s) (\<lambda>r. case r of
     None \<Rightarrow> Inr []
   | Some (v, t) \<Rightarrow> rbind (scan_args cs t) (\<lambda>vs. Inr (v # vs)))"

definition c_str :: "string \<Rightarrow> string" where "c_str s = takeWhile (\<lambda>c. c \<noteq> CHR 0x00) s"

definition starts_with :: "string \<Rightarrow> string \<Rightarrow> bool" where
  "starts_with w s \<longleftrightarrow> take (length w) s = w"

text \<open>A format of one literal word and conversions separated by blanks; every conversion skips white space itself.\<close>

definition sscanf :: "string \<Rightarrow> conversion list \<Rightarrow> string \<Rightarrow> scanned list res" where
  "sscanf w cs s = (if starts_with w (c_str s) then scan_args cs (drop (length w) (c_str s)) else Inr [])"

section \<open>Lines\<close>

text \<open>\<^verbatim>\<open>read_line\<close> on what is left of the standard input: whether there is a line, the line and the rest.\<close>

fun read_line_loop :: "string \<Rightarrow> string \<Rightarrow> bool \<times> string \<times> string" where
  "read_line_loop line [] = (line \<noteq> [], line, [])"
| "read_line_loop line (c # cs) = (if c = CHR 0x0A then (True, line, cs) else read_line_loop (line @ [c]) cs)"

definition read_line :: "string \<Rightarrow> bool \<times> string \<times> string" where
  "read_line s = read_line_loop [] s"

lemma read_line_loop_shorter: "read_line_loop line s = (True, l, s') \<Longrightarrow> s \<noteq> [] \<Longrightarrow> length s' < length s"
  by (induction line s rule: read_line_loop.induct) (auto split: if_splits, metis length_greater_0_conv less_Suc_eq list.size(3) read_line_loop.simps(1) prod.inject)

lemma read_line_shorter: "read_line s = (True, l, s') \<Longrightarrow> length s' < length s"
  using read_line_loop_shorter [of "[]" s l s'] by (cases "s = []") (auto simp: read_line_def)

text \<open>The lines a loop \<^verbatim>\<open>while (read_line(...))\<close> sees.\<close>

function input_lines :: "string \<Rightarrow> string list" where
  "input_lines s = (case read_line s of (got, l, s') \<Rightarrow> if got then l # input_lines s' else [])"
  by pat_completeness auto
termination
  by (relation "measure length") (auto simp: read_line_shorter dest: sym)

declare input_lines.simps [simp del]

section \<open>Printed numbers are read back\<close>

lemma hex_digit_value: "i < 10 \<Longrightarrow> of_char (hex_digit i) = 48 + i"
proof -
  have "\<forall>i \<in> set [0..<10]. (of_char (hex_digit i) :: nat) = 48 + i" by (simp add: upt_rec hex_digit_def)
  then show "i < 10 \<Longrightarrow> of_char (hex_digit i) = 48 + i" by simp
qed

lemma digits_value_dec: "digits_value (dec_digits n) = n \<and> (\<forall>c \<in> set (dec_digits n). is_digit c)"
proof (induction n rule: dec_digits.induct)
  case (1 n)
  show ?case
  proof (cases "n < 10")
    case True
    then show ?thesis using hex_digit_value [of n] by (simp add: dec_digits_small digits_value_def is_digit_def)
  next
    case False
    have "n mod 10 < 10" by simp
    from hex_digit_value [OF this] 1 [OF False] False show ?thesis
      by (simp add: dec_digits_large digits_value_def is_digit_def)
  qed
qed

definition show_int :: "int \<Rightarrow> string" where
  "show_int v = (if v < 0 then CHR ''-'' # dec_digits (nat (- v)) else dec_digits (nat v))"

definition ends_number :: "string \<Rightarrow> bool" where
  "ends_number t \<longleftrightarrow> t = [] \<or> \<not> is_digit (hd t)"

lemma digit_facts: "is_digit c \<Longrightarrow> \<not> is_space c \<and> c \<noteq> CHR ''-'' \<and> c \<noteq> CHR ''+''"
  by (auto simp: is_digit_def is_space_def)

lemma scan_digits:
  assumes "ends_number t"
  shows "takeWhile is_digit (dec_digits n @ t) = dec_digits n" "dropWhile is_digit (dec_digits n @ t) = t"
proof -
  have d: "\<forall>c \<in> set (dec_digits n). is_digit c" using digits_value_dec by blast
  have "takeWhile is_digit t = []" "dropWhile is_digit t = t" using assms by (cases t; simp add: ends_number_def)+
  with d show "takeWhile is_digit (dec_digits n @ t) = dec_digits n" "dropWhile is_digit (dec_digits n @ t) = t"
    by (simp_all add: takeWhile_append2 dropWhile_append2)
qed

lemma dec_digits_hd: obtains c cs where "dec_digits n = c # cs" "is_digit c"
  using dec_digits_nonempty [of n] digits_value_dec [of n] by (cases "dec_digits n") auto

lemma scan_int_show:
  assumes "ends_number t" "\<forall>c \<in> set ws. is_space c" shows "scan_int (ws @ show_int v @ t) = Some (v, t)"
proof -
  have neg: "\<not> is_space (CHR ''-'')" by (simp add: is_space_def)
  have dec: "split_sign (dropWhile is_space (dec_digits n @ t)) = (False, dec_digits n @ t)" for n
    by (rule dec_digits_hd [of n]) (simp add: digit_facts split_sign_def)
  show ?thesis
    using assms digits_value_dec scan_digits [OF assms(1)] dec_digits_nonempty
    by (cases "v < 0") (simp_all add: scan_int_def show_int_def neg dec split_sign_def [of "_ # _"] dropWhile_append2)
qed

lemma stoull_dec: "n < 2 ^ 64 \<Longrightarrow> stoull (dec_digits n) = Inr (of_nat n)"
  using scan_int_show [of "[]" "[]" "int n"] by (simp add: stoull_def show_int_def ends_number_def)

lemma input_lines_split:
  assumes "CHR 0x0A \<notin> set l" shows "input_lines (l @ CHR 0x0A # s) = l # input_lines s"
proof -
  have "read_line_loop p (l @ CHR 0x0A # s) = (True, p @ l, s)" for p
    using assms by (induction l arbitrary: p) auto
  then show ?thesis by (subst input_lines.simps) (simp add: read_line_def)
qed

lemma input_lines_Nil [simp]: "input_lines [] = []"
  by (subst input_lines.simps) (simp add: read_line_def)

text \<open>A whole number of watts, written in decimal and followed by a blank or the end, is read as the double next to it.\<close>

definition ends_field :: "string \<Rightarrow> bool" where
  "ends_field t \<longleftrightarrow> t = [] \<or> hd t = CHR '' ''"

lemma lower_digit: "is_digit c \<Longrightarrow> lower c = c"
  by (auto simp: lower_def is_digit_def Let_def)

lemma base_value_digits: "\<forall>c \<in> set s. is_digit c \<Longrightarrow> base_value 10 s = digits_value s"
proof -
  have "\<forall>c \<in> set s. is_digit c \<Longrightarrow>
      foldl (\<lambda>v c. v * 10 + the (hex_value c)) a s = foldl (\<lambda>v c. v * 10 + (of_char c - 48)) a s" for a
    by (induction s arbitrary: a) (simp_all add: hex_value_def is_digit_def)
  then show "\<forall>c \<in> set s. is_digit c \<Longrightarrow> base_value 10 s = digits_value s" by (simp add: base_value_def digits_value_def)
qed

lemma no_prefix_in_digits:
  assumes "ends_field t"
  shows "common (dec_digits n @ t) ''infinity'' = 0" "common (dec_digits n @ t) ''nan'' = 0" "common (dec_digits n @ t) ''0x'' \<noteq> 2"
proof -
  obtain c cs where c: "dec_digits n = c # cs" "is_digit c" by (rule dec_digits_hd)
  have cs: "\<forall>d \<in> set cs. is_digit d" using digits_value_dec [of n] c(1) by simp
  have nx: "lower d \<noteq> CHR ''x''" if "is_digit d" for d using that lower_digit [OF that] by (auto simp: is_digit_def)
  show "common (dec_digits n @ t) ''infinity'' = 0" "common (dec_digits n @ t) ''nan'' = 0"
    using c lower_digit [OF c(2)] by (auto simp: is_digit_def)
  have "lower (CHR '' '') \<noteq> CHR ''x''" by (simp add: lower_def)
  then show "common (dec_digits n @ t) ''0x'' \<noteq> 2"
    using assms c cs nx by (cases cs; cases t) (auto simp: ends_field_def)
qed

lemma scan_decimal_dec:
  assumes "ends_field t" shows "scan_decimal strict (dec_digits n @ t) = Some (of_nat n, t)"
proof -
  have e: "ends_number t" using assms by (cases t) (auto simp: ends_field_def ends_number_def is_digit_def)
  have "scan_mantissa is_digit (dec_digits n @ t) = (dec_digits n, [], t)"
    unfolding scan_mantissa_def scan_digits [OF e] using assms by (cases t) (auto simp: ends_field_def)
  moreover have "lower (CHR '' '') \<noteq> CHR ''e''" by (simp add: lower_def)
  then have "scan_exponent strict (CHR ''e'') t = Some (0, t)"
    using assms by (cases t) (auto simp: scan_exponent_def ends_field_def)
  ultimately show ?thesis
    using digits_value_dec [of n] dec_digits_nonempty [of n] by (simp add: scan_decimal_def base_value_digits rpow_def)
qed

lemma scan_double_dec:
  assumes "ends_field t" shows "scan_double strict (CHR '' '' # dec_digits n @ t) = Some (rnd64 (of_nat n), t)"
proof -
  have "split_sign (dropWhile is_space (CHR '' '' # dec_digits n @ t)) = (False, dec_digits n @ t)"
    by (rule dec_digits_hd [of n]) (simp add: digit_facts split_sign_def is_space_def [of "CHR '' ''"])
  then show ?thesis using no_prefix_in_digits [OF assms] scan_decimal_dec [OF assms] by (simp add: scan_double_def)
qed

end
