(* ===== verification/Worker.thy ===== *)
theory Worker
  imports Coordinator Scan
begin

text \<open>
  The worker side of \<^verbatim>\<open>tools/distributed.cpp\<close>: registration and the message each command sends. A command
  carries its arguments as \<^verbatim>\<open>sscanf\<close> reads them; the socket calls are those of Transport.
\<close>

section \<open>State\<close>

record worker_ctx =
  wk_worker :: worker_id
  wk_boot :: worker_boot_id
  wk_node :: node_id
  wk_accel :: accelerator_id
  wk_obs_gen :: observation_generation
  wk_epoch :: coordinator_epoch

definition new_worker :: "worker_id \<Rightarrow> worker_boot_id \<Rightarrow> node_id \<Rightarrow> worker_ctx" where
  "new_worker w b n = \<lparr>wk_worker = w, wk_boot = b, wk_node = n, wk_accel = StrongId 1,
     wk_obs_gen = gen_first, wk_epoch = gen_null\<rparr>"

section \<open>Registration\<close>

definition register_frame :: "worker_ctx \<Rightarrow> frame res" where
  "register_frame w = rbind (encode_register \<lparr>reg_worker = wk_worker w, reg_boot = wk_boot w, reg_node = wk_node w,
     reg_name = ''w''\<rparr>) (\<lambda>p. Inr (encode_frame MSG_REGISTER p))"

text \<open>The answer to the registration carries the epoch; a text that is no number means the first epoch.\<close>

definition adopt_epoch :: "ack_msg \<Rightarrow> worker_ctx \<Rightarrow> worker_ctx option" where
  "adopt_epoch a w = (if \<not> ack_ok a then None
     else Some (w\<lparr>wk_epoch := (case stoull (ack_message a) of Inr n \<Rightarrow> Generation n | Inl _ \<Rightarrow> gen_first)\<rparr>))"

section \<open>Commands\<close>

datatype worker_cmd =
    Observe int int
  | Reserve u64 int
  | Activate u64 u64 int
  | Release u64 u64 int
  | Decide u64 int
  | StaleObserve u64 u64 int
  | StaleReserve u64 u64 u64 int
  | StaleRelease u64 u64 u64 u64 int

definition observation_msg ::
  "worker_ctx \<Rightarrow> coordinator_epoch \<Rightarrow> worker_boot_id \<Rightarrow> int \<Rightarrow> int \<Rightarrow> bool \<Rightarrow> power_obs_msg" where
  "observation_msg w epoch boot mw centi util = \<lparr>po_worker = wk_worker w, po_boot = boot, po_epoch = epoch,
     po_accel = wk_accel w, po_device_gen = gen_first, po_obs_gen = wk_obs_gen w, po_timestamp_ns = 1000000,
     po_power_mw = word_of_int mw, po_has_power = True, po_has_temp = True, po_temp_centi = word_of_int centi,
     po_sm_mhz = 0, po_mem_mhz = 0, po_utilization_bp = (if util then 5000 else 0), po_has_util = util,
     po_energy_mj = 0, po_has_energy = False, po_throttled = False, po_provenance = 1, po_source = ''fake''\<rparr>"

definition reservation_msg ::
  "worker_ctx \<Rightarrow> coordinator_epoch \<Rightarrow> worker_boot_id \<Rightarrow> u64 \<Rightarrow> int \<Rightarrow> reserve_msg" where
  "reservation_msg w epoch boot b mw = \<lparr>rs_reservation = id_invalid, rs_budget = StrongId b,
     rs_requested_mw = word_of_int mw, rs_requested_mj = 0, rs_budget_gen = gen_first,
     rs_reservation_gen = gen_first, rs_policy_gen = gen_first, rs_device_gen = gen_first,
     rs_workload = StrongId (raw (wk_worker w)), rs_cls = 1, rs_scope = StrongId 1, rs_epoch = epoch, rs_boot = boot,
     rs_timestamp_ns = 1000000, rs_validity_ns = 5000000000\<rparr>"

definition action_msg_of :: "coordinator_epoch \<Rightarrow> worker_boot_id \<Rightarrow> u64 \<Rightarrow> u64 \<Rightarrow> int \<Rightarrow> budget_action_msg" where
  "action_msg_of epoch boot rid b mw = \<lparr>ba_reservation = StrongId rid, ba_budget = StrongId b,
     ba_amount_mw = word_of_int mw, ba_budget_gen = gen_first, ba_epoch = epoch, ba_boot = boot\<rparr>"

definition decision_msg :: "worker_ctx \<Rightarrow> u64 \<Rightarrow> int \<Rightarrow> reserve_msg" where
  "decision_msg w b mw = \<lparr>rs_reservation = id_invalid, rs_budget = StrongId b,
     rs_requested_mw = word_of_int mw, rs_requested_mj = 0, rs_budget_gen = gen_null,
     rs_reservation_gen = gen_null, rs_policy_gen = gen_null, rs_device_gen = gen_null,
     rs_workload = StrongId (raw (wk_worker w)), rs_cls = 1, rs_scope = id_invalid, rs_epoch = wk_epoch w,
     rs_boot = wk_boot w, rs_timestamp_ns = 0, rs_validity_ns = 0\<rparr>"

text \<open>Every observation takes the next generation, also the deliberately stale one.\<close>

definition next_obs :: "worker_ctx \<Rightarrow> worker_ctx" where
  "next_obs w = w\<lparr>wk_obs_gen := gen_next (wk_obs_gen w)\<rparr>"

definition framed :: "msg_type \<Rightarrow> bytes res \<Rightarrow> frame res" where
  "framed t p = rbind p (\<lambda>p. Inr (encode_frame t p))"

fun worker_dispatch :: "worker_cmd \<Rightarrow> worker_ctx \<Rightarrow> frame res \<times> worker_ctx" where
  "worker_dispatch (Observe mw centi) w =
     (framed MSG_POWER_OBSERVATION (encode_power_obs (observation_msg w (wk_epoch w) (wk_boot w) mw centi True)), next_obs w)"
| "worker_dispatch (Reserve b mw) w =
     (Inr (encode_frame MSG_RESERVE (encode_reserve (reservation_msg w (wk_epoch w) (wk_boot w) b mw))), w)"
| "worker_dispatch (Activate rid b mw) w =
     (Inr (encode_frame MSG_ACTIVATE (encode_budget_action (action_msg_of (wk_epoch w) (wk_boot w) rid b mw))), w)"
| "worker_dispatch (Release rid b mw) w =
     (Inr (encode_frame MSG_RELEASE (encode_budget_action (action_msg_of (wk_epoch w) (wk_boot w) rid b mw))), w)"
| "worker_dispatch (Decide b mw) w =
     (Inr (encode_frame MSG_DECISION_REQUEST (encode_reserve (decision_msg w b mw))), w)"
| "worker_dispatch (StaleObserve e bt mw) w =
     (framed MSG_POWER_OBSERVATION (encode_power_obs (observation_msg w (Generation e) (StrongId bt) mw 3700 False)), next_obs w)"
| "worker_dispatch (StaleReserve e bt b mw) w =
     (Inr (encode_frame MSG_RESERVE (encode_reserve (reservation_msg w (Generation e) (StrongId bt) b mw))), w)"
| "worker_dispatch (StaleRelease e bt rid b mw) w =
     (Inr (encode_frame MSG_RELEASE (encode_budget_action (action_msg_of (Generation e) (StrongId bt) rid b mw))), w)"

text \<open>What a command reports of the answer: the number of a new reservation and the text of a decision are shown.\<close>

definition ack_text :: "bool \<Rightarrow> ack_msg option \<Rightarrow> string" where
  "ack_text shown a = (case a of None \<Rightarrow> ''bad ack''
     | Some a \<Rightarrow> if ack_ok a then (if shown then ''ACCEPT:'' @ ack_message a else ''ACCEPT'') else ack_message a)"

fun worker_report :: "worker_cmd \<Rightarrow> frame \<Rightarrow> string" where
  "worker_report (Observe mw centi) r = ''observe -> '' @ ack_text False (decode_ack r)"
| "worker_report (Reserve b mw) r = ''reserve -> '' @ ack_text True (decode_ack r)"
| "worker_report (Activate rid b mw) r = ''activate -> '' @ ack_text False (decode_ack r)"
| "worker_report (Release rid b mw) r = ''release -> '' @ ack_text False (decode_ack r)"
| "worker_report (Decide b mw) r = ''decision -> '' @ ack_text True (decode_ack r)"
| "worker_report (StaleObserve e bt mw) r = ''stale_observe -> '' @ ack_text False (decode_ack r)"
| "worker_report (StaleReserve e bt b mw) r = ''stale_reserve -> '' @ ack_text True (decode_ack r)"
| "worker_report (StaleRelease e bt rid b mw) r = ''stale_release -> '' @ ack_text False (decode_ack r)"

end
