(* ===== verification/Coordinator_Proofs.thy ===== *)
theory Coordinator_Proofs
  imports Governor_Effects Recovery Worker
begin

text \<open>
  The coordinator and its workers: what the fence lets through, in every interleaving of the threads, what
  a registered worker can rely on, and what ends the process.
\<close>

section \<open>The authority a frame claims\<close>

lemma ftype_encode [simp]: "ftype (encode_frame t w) = t"
  by (simp add: encode_frame_def)

text \<open>The epoch and boot of a frame that asks for something, and, for an observation, who observed what.\<close>

definition claimed :: "frame \<Rightarrow> (coordinator_epoch \<times> worker_boot_id \<times> (worker_id \<times> observation_generation) option) option" where
  "claimed f = (case ftype f of
     MSG_POWER_OBSERVATION \<Rightarrow> map_option (\<lambda>m. (po_epoch m, po_boot m, Some (po_worker m, po_obs_gen m))) (decode_power_obs f)
   | MSG_THERMAL_OBSERVATION \<Rightarrow> map_option (\<lambda>m. (to_epoch m, to_boot m, Some (to_worker m, to_obs_gen m))) (decode_thermal_obs f)
   | MSG_RESERVE \<Rightarrow> map_option (\<lambda>m. (rs_epoch m, rs_boot m, None)) (decode_reserve f)
   | MSG_ACTIVATE \<Rightarrow> map_option (\<lambda>m. (ba_epoch m, ba_boot m, None)) (decode_budget_action f)
   | MSG_RELEASE \<Rightarrow> map_option (\<lambda>m. (ba_epoch m, ba_boot m, None)) (decode_budget_action f)
   | MSG_DECISION_REQUEST \<Rightarrow> map_option (\<lambda>m. (rs_epoch m, rs_boot m, None)) (decode_reserve f)
   | _ \<Rightarrow> None)"

definition in_authority ::
  "coord \<Rightarrow> coordinator_epoch \<times> worker_boot_id \<times> (worker_id \<times> observation_generation) option \<Rightarrow> bool" where
  "in_authority cs a = (case a of (e, boot, who) \<Rightarrow> e = co_epoch cs \<and>
     (case who of
        Some (w, og) \<Rightarrow> map_of (co_workers cs) w = Some boot \<and> (\<forall>hi. map_of (co_obs_hwm cs) w = Some hi \<longrightarrow> hi \<le> og)
      | None \<Rightarrow> boot \<in> snd ` set (co_workers cs)))"

lemma fence_obs_iff: "fence_obs cs e boot og w = None \<longleftrightarrow> in_authority cs (e, boot, Some (w, og))"
  by (cases "map_of (co_obs_hwm cs) w") (auto simp: fence_obs_def in_authority_def)

lemma fence_epoch_boot_iff: "fence_epoch_boot cs e boot = None \<longleftrightarrow> in_authority cs (e, boot, None)"
  by (force simp: fence_epoch_boot_def in_authority_def list_ex_iff)

lemmas fence_refuses = fence_obs_iff fence_epoch_boot_iff

lemma admit_cases:
  "in_authority cs (e, boot, Some (w, og)) \<Longrightarrow>
     admit_obs e boot og w out cs = (out, cs\<lparr>co_obs_hwm := AList.update w og (co_obs_hwm cs)\<rparr>)"
  "\<not> in_authority cs (e, boot, Some (w, og)) \<Longrightarrow>
     \<exists>m. admit_obs e boot og w out cs = (Answer (MSG_ERROR, m), cs) \<and> \<not> ack_ok m"
  "in_authority cs (e, boot, None) \<Longrightarrow> admit_call e boot q cs = (Pending q, cs)"
  "\<not> in_authority cs (e, boot, None) \<Longrightarrow>
     \<exists>m. admit_call e boot q cs = (Answer (MSG_ERROR, m), cs) \<and> \<not> ack_ok m"
  by (auto simp: admit_obs_def admit_call_def send_error_def simp flip: fence_refuses split: option.split)

text \<open>The authority a phase was admitted with.\<close>

fun authority_of :: "pending \<Rightarrow> coordinator_epoch option" where
  "authority_of (DoWelcome reg) = None"
| "authority_of (DoObserve m) = Some (po_epoch m)"
| "authority_of (DoReserve m) = Some (rs_epoch m)"
| "authority_of (DoCommit m rid) = Some (rs_epoch m)"
| "authority_of (DoActivate m) = Some (ba_epoch m)"
| "authority_of (DoRelease m) = Some (ba_epoch m)"
| "authority_of (DoDecide m) = Some (rs_epoch m)"

lemma receive_cases:
  assumes "receive f cs = (out, cs')"
  shows "co_gov cs' = co_gov cs \<and> co_epoch cs' = co_epoch cs \<and> co_workers cs' = co_workers cs \<and>
    (\<forall>q. out = Pending q \<longrightarrow> authority_of q = Some (co_epoch cs))"
  using assms admit_cases
  by (auto simp: receive_def admit_obs_def admit_call_def fence_obs_def fence_epoch_boot_def
      split: msg_type.splits option.splits if_splits sum.splits)

lemma receive_refused:
  assumes "claimed f = Some a" "\<not> in_authority cs a"
  shows "\<exists>m. receive f cs = (Answer (MSG_ERROR, m), cs) \<and> \<not> ack_ok m"
  using assms by (auto simp: receive_def claimed_def split: msg_type.splits option.splits intro: admit_cases(2,4))

text \<open>The high-water marks after a frame that passes: an observation leaves its generation.\<close>

definition marked ::
  "coordinator_epoch \<times> worker_boot_id \<times> (worker_id \<times> observation_generation) option \<Rightarrow> coord \<Rightarrow> coord" where
  "marked a cs = (case a of
     (_, _, Some (w, og)) \<Rightarrow> cs\<lparr>co_obs_hwm := AList.update w og (co_obs_hwm cs)\<rparr>
   | (_, _, None) \<Rightarrow> cs)"

lemma receive_admitted:
  assumes "claimed f = Some a" "in_authority cs a"
  shows "\<exists>out. receive f cs = (out, marked a cs) \<and>
    ((\<exists>q. out = Pending q \<and> authority_of q = Some (fst a)) \<or> (\<exists>m. out = Answer (MSG_ACK, m) \<and> ack_ok m))"
  using assms
  by (auto simp: receive_def claimed_def admit_cases send_ack_def marked_def split: msg_type.splits option.splits)

lemma marked_fences: "og < g \<Longrightarrow> \<not> in_authority (marked (e, boot, Some (w, g)) cs) (e', boot', Some (w, og))"
  by (auto simp: marked_def in_authority_def update_conv')

lemma greet_registers:
  assumes "ftype f = MSG_REGISTER" "decode_register f = Some reg"
  shows "greet f cs = (Pending (DoWelcome reg), snd (greet f cs)) \<and>
    in_authority (snd (greet f cs)) (co_epoch cs, reg_boot reg, Some (reg_worker reg, og))"
  using assms by (auto simp: greet_def in_authority_def update_conv' gen_null_def less_eq_generation_def)

section \<open>Runs of the process\<close>

text \<open>A run during which the epoch is not rolled.\<close>

inductive same_epoch_run :: "process \<Rightarrow> process \<Rightarrow> bool" where
  epoch_refl: "same_epoch_run p p"
| epoch_step: "same_epoch_run p q \<Longrightarrow> proc_step q r \<Longrightarrow> co_epoch (pr_coord r) = co_epoch (pr_coord q) \<Longrightarrow> same_epoch_run p r"

text \<open>Connection \<open>n\<close> is in the middle of a message that was admitted under another epoch.\<close>

definition overtaken :: "process \<Rightarrow> nat \<Rightarrow> bool" where
  "overtaken p n \<longleftrightarrow> (\<exists>q e. pr_conns p n = Some (Busy q) \<and> authority_of q = Some e \<and> e \<noteq> co_epoch (pr_coord p))"

lemma perform_phase:
  assumes "perform q cs = (out, cs')"
  shows "co_epoch cs' = co_epoch cs \<and> (\<forall>q'. out = Pending q' \<longrightarrow> authority_of q' = authority_of q)"
  using assms by (cases q) (auto simp: answer_call_def split: sum.splits prod.splits if_splits)

lemma settle_simps:
  "pr_coord (settle n (out, cs) p) = cs"
  "m \<noteq> n \<Longrightarrow> pr_conns (settle n (out, cs) p) m = pr_conns p m"
  "pr_conns (settle n (out, cs) p) n = Some (Busy q) \<Longrightarrow> out = Pending q \<or> (\<exists>e. out = Crash e) \<and> pr_conns p n = Some (Busy q)"
  by (auto simp: settle_def split: outcome.splits)

lemma greet_phase:
  assumes "greet f cs = (out, cs')"
  shows "co_epoch cs' = co_epoch cs \<and> co_gov cs' = co_gov cs \<and> (\<forall>q. out = Pending q \<longrightarrow> authority_of q = None)"
  using assms by (auto simp: greet_def split: if_splits option.splits)

lemma overtaken_settle:
  assumes "overtaken (settle n (out, cs) p) m" "co_epoch cs = co_epoch (pr_coord p)"
    "\<And>q e. out = Pending q \<Longrightarrow> authority_of q = Some e \<Longrightarrow> e \<noteq> co_epoch (pr_coord p) \<Longrightarrow> overtaken p n"
  shows "overtaken p m"
proof (cases "m = n")
  case True
  then show ?thesis using assms settle_simps(3) [of n out cs p]
    by (auto simp: overtaken_def settle_simps(1))
next
  case False
  then show ?thesis using assms by (auto simp: overtaken_def settle_simps)
qed

lemma overtaken_step:
  assumes "proc_step p r" "co_epoch (pr_coord r) = co_epoch (pr_coord p)" "overtaken r n"
  shows "overtaken p n"
  using assms
proof (induction rule: proc_step.induct)
  case (proc_greet p k f)
  obtain out cs where g: "greet f (pr_coord p) = (out, cs)" by force
  show ?case using proc_greet.prems greet_phase [OF g] unfolding g
    by (intro overtaken_settle [of k out cs p n]) auto
next
  case (proc_receive p k f)
  obtain out cs where g: "receive f (pr_coord p) = (out, cs)" by force
  show ?case using proc_receive.prems receive_cases [OF g] unfolding g
    by (intro overtaken_settle [of k out cs p n]) auto
next
  case (proc_perform p k q)
  obtain out cs where g: "perform q (pr_coord p) = (out, cs)" by force
  have "overtaken p k" if "out = Pending q'" "authority_of q' = Some e" "e \<noteq> co_epoch (pr_coord p)" for q' e
    using perform_phase [OF g] that proc_perform.hyps(2) unfolding overtaken_def by metis
  moreover have "co_epoch cs = co_epoch (pr_coord p)" using perform_phase [OF g] by blast
  moreover have "overtaken (settle k (out, cs) p) n" using proc_perform.prems(2) by (simp add: g)
  ultimately show ?case using overtaken_settle [of k out cs p n] by blast
qed (auto simp: overtaken_def split: if_splits)

lemma overtaken_run: "same_epoch_run p r \<Longrightarrow> overtaken r n \<Longrightarrow> overtaken p n"
  by (induction rule: same_epoch_run.induct) (blast dest: overtaken_step)+

section \<open>Workers\<close>

text \<open>A worker is in touch with the coordinator: it is registered under its boot, knows the epoch, and its next
  observation is not older than the last one taken.\<close>

definition in_touch :: "worker_ctx \<Rightarrow> coord \<Rightarrow> bool" where
  "in_touch w cs \<longleftrightarrow> wk_epoch w = co_epoch cs \<and> map_of (co_workers cs) (wk_worker w) = Some (wk_boot w) \<and>
     (\<forall>hi. map_of (co_obs_hwm cs) (wk_worker w) = Some hi \<longrightarrow> hi \<le> wk_obs_gen w)"

section \<open>Properties\<close>

text \<open>C7: The fence is exact. A frame that claims authority passes exactly if it names the current epoch and,
  for an observation, the boot its worker is registered with and a generation not below the worker's
  high-water mark, or, for a call, the boot of some registered worker. A frame that does not pass is
  answered with an error frame and changes nothing. One that passes goes on to the governor or is
  acknowledged; an observation raises the mark of its worker to its generation, after which every
  observation of that worker with a lower generation is refused, and nothing else of the shared state
  changes. A registration binds the worker to its boot and resets its mark: under that boot and the
  current epoch an observation of any generation passes then.\<close>

theorem fence_exact:
  assumes "claimed f = Some a"
  shows "(in_authority cs a \<longrightarrow>
      (\<exists>out. receive f cs = (out, marked a cs) \<and>
        ((\<exists>q. out = Pending q \<and> authority_of q = Some (fst a)) \<or> (\<exists>m. out = Answer (MSG_ACK, m) \<and> ack_ok m))) \<and>
      (\<forall>e boot w g e' boot' og. a = (e, boot, Some (w, g)) \<longrightarrow> og < g \<longrightarrow>
        \<not> in_authority (snd (receive f cs)) (e', boot', Some (w, og)))) \<and>
    (\<not> in_authority cs a \<longrightarrow> (\<exists>m. receive f cs = (Answer (MSG_ERROR, m), cs) \<and> \<not> ack_ok m)) \<and>
    (\<forall>f' reg og. ftype f' = MSG_REGISTER \<and> decode_register f' = Some reg \<longrightarrow>
      in_authority (snd (greet f' cs)) (co_epoch cs, reg_boot reg, Some (reg_worker reg, og)))"
proof (intro conjI impI)
  show "\<exists>m. receive f cs = (Answer (MSG_ERROR, m), cs) \<and> \<not> ack_ok m" if "\<not> in_authority cs a"
    by (rule receive_refused [OF assms that])
  assume a: "in_authority cs a"
  show ad: "\<exists>out. receive f cs = (out, marked a cs) \<and>
      ((\<exists>q. out = Pending q \<and> authority_of q = Some (fst a)) \<or> (\<exists>m. out = Answer (MSG_ACK, m) \<and> ack_ok m))"
    by (rule receive_admitted [OF assms a])
  show "\<forall>e boot w g e' boot' og. a = (e, boot, Some (w, g)) \<longrightarrow> og < g \<longrightarrow>
      \<not> in_authority (snd (receive f cs)) (e', boot', Some (w, og))"
    using ad marked_fences by fastforce
qed (use greet_registers in blast)

definition demo_coord :: coord where
  "demo_coord = (new_coord (StrongId 1) demo_ids)\<lparr>co_workers := [(StrongId 1, StrongId 7)], co_obs_hwm := [(StrongId 1, gen_null)]\<rparr>"

definition demo_action :: "u64 \<Rightarrow> frame" where
  "demo_action e = encode_frame MSG_ACTIVATE (encode_budget_action (action_msg_of (Generation e) (StrongId 7) 99 2 0))"

lemma decode_action: "decode_budget_action (encode_frame t (encode_budget_action m)) = Some m"
  using action_msg.dec_enc [of m] by (simp add: decode_budget_action_def encode_frame_def)

lemma demo_claimed: "claimed (demo_action e) = Some (Generation e, StrongId 7, None)"
proof -
  have "ftype (demo_action e) = MSG_ACTIVATE" by (simp add: demo_action_def encode_frame_def)
  moreover have "decode_budget_action (demo_action e) = Some (action_msg_of (Generation e) (StrongId 7) 99 2 0)"
    unfolding demo_action_def by (rule decode_action)
  ultimately show ?thesis by (simp add: claimed_def action_msg_of_def)
qed

theorem fence_exact_witness: "\<exists>m. receive (demo_action 2) demo_coord = (Answer (MSG_ERROR, m), demo_coord) \<and> \<not> ack_ok m"
proof -
  have "\<not> in_authority demo_coord (Generation 2, StrongId 7, None)"
    by (simp add: in_authority_def demo_coord_def new_coord_def)
  then show ?thesis using fence_exact [OF demo_claimed, of demo_coord 2] by blast
qed

text \<open>C8: Rolling the epoch fences the past, in every interleaving. While the epoch stays the same, however the
  threads, the control loop and new connections are interleaved, the only messages in progress that were
  admitted under another epoch are those of connections that were in the middle of such a message when the
  run began: no message of an old epoch enters any more.\<close>

theorem epoch_roll_fences:
  assumes "same_epoch_run p r"
    "pr_conns r n = Some (Busy q)" "authority_of q = Some e" "e \<noteq> co_epoch (pr_coord r)"
  shows "\<exists>q' e'. pr_conns p n = Some (Busy q') \<and> authority_of q' = Some e' \<and> e' \<noteq> co_epoch (pr_coord p)"
  using overtaken_run [OF assms(1), of n] assms(2-4) by (auto simp: overtaken_def)

definition demo_process :: "pending \<Rightarrow> process" where
  "demo_process q = \<lparr>pr_coord = demo_coord\<lparr>co_epoch := Generation 2\<rparr>, pr_conns = [5 \<mapsto> Busy q], pr_dead = False\<rparr>"

theorem epoch_roll_fences_witness:
  "\<exists>q' e'. pr_conns (demo_process (DoActivate (action_msg_of (Generation 1) (StrongId 7) 99 2 0))) 5 = Some (Busy q') \<and>
     authority_of q' = Some e' \<and>
     e' \<noteq> co_epoch (pr_coord (demo_process (DoActivate (action_msg_of (Generation 1) (StrongId 7) 99 2 0))))"
  by (rule epoch_roll_fences [OF epoch_refl, of _ 5 "DoActivate (action_msg_of (Generation 1) (StrongId 7) 99 2 0)" "Generation 1"])
    (simp_all add: demo_process_def action_msg_of_def)

lemma milli_negative: assumes "sint v < 0" shows "\<not> Fin 0 \<le> milli v"
proof -
  have g: "grid64 (- 1)" using grid64_int [of "- 1"] by simp
  have "rat_of_int (sint v) \<le> - 1" using assms by linarith
  then have "double_of_int (sint v) \<le> Fin (- 1)" unfolding double_of_int_def using g by (intro b64.rnd_le)
  then consider "double_of_int (sint v) = NInf" | a where "double_of_int (sint v) = Fin a" "a \<le> - 1"
    by (cases "double_of_int (sint v)") auto
  then show ?thesis
  proof cases
    case 1
    then show ?thesis by (simp add: milli_def divide_double_def less_eq_double_def)
  next
    case (2 a)
    have "grid64 (- 1 / 1024)" using grid64_dyadic [of "- 1" 10] by simp
    moreover have "a / 1000 \<le> - 1 / 1024" using 2(2) by simp
    ultimately have "rnd64 (a / 1000) \<le> Fin (- 1 / 1024)" by (intro b64.rnd_le)
    then show ?thesis using 2(1) by (cases "rnd64 (a / 1000)") (auto simp: milli_def)
  qed
qed

text \<open>C40: A single message of a registered worker ends the coordinator. An activation or a release of a
  reservation that does not exist passes the fence under the boot of any registered worker, and so does an
  observation of a negative power of a worker in touch; the call each leads to raises an exception that
  nobody catches.\<close>

theorem message_ends_coordinator:
  assumes "in_authority cs (ba_epoch m, ba_boot m, None)" "map_of (gov_reservations (co_gov cs)) (ba_reservation m) = None"
    "in_authority cs (po_epoch po, po_boot po, Some (po_worker po, po_obs_gen po))" "str_ok (po_source po)"
    "po_has_power po" "sint (po_power_mw po) < 0"
  shows "fst (perform (DoActivate m) cs) = Crash OutOfRange \<and>
    receive (encode_frame MSG_ACTIVATE (encode_budget_action m)) cs = (Pending (DoActivate m), cs) \<and>
    fst (perform (DoRelease m) cs) = Crash OutOfRange \<and>
    receive (encode_frame MSG_RELEASE (encode_budget_action m)) cs = (Pending (DoRelease m), cs) \<and>
    (\<exists>w cs'. encode_power_obs po = Inr w \<and>
      receive (encode_frame MSG_POWER_OBSERVATION w) cs = (Pending (DoObserve po), cs') \<and>
      fst (perform (DoObserve po) cs') = Crash InvalidArgument)"
proof -
  have "activate_reservation (ba_reservation m) (ba_budget_gen m) 0 (co_gov cs) = Inl OutOfRange"
      "release_reservation (ba_reservation m) (ba_budget_gen m) 0 (co_gov cs) = Inl OutOfRange"
    using assms(2) by (simp_all add: activate_reservation_def release_reservation_def rm_activate_def rm_release_def rm_get_def)
  then have "fst (perform (DoActivate m) cs) = Crash OutOfRange" "fst (perform (DoRelease m) cs) = Crash OutOfRange"
    by (simp_all add: answer_call_def)
  moreover have "receive (encode_frame MSG_ACTIVATE (encode_budget_action m)) cs = (Pending (DoActivate m), cs)"
      "receive (encode_frame MSG_RELEASE (encode_budget_action m)) cs = (Pending (DoRelease m), cs)"
    using admit_cases(3) [OF assms(1)] by (simp_all add: receive_def decode_action)
  moreover have "Watts (milli (po_power_mw po)) = Inl InvalidArgument"
    using milli_negative [OF assms(6)] by (simp add: Quantity_power_eq)
  then have "observation_sample po = Inl InvalidArgument" using assms(5) by (simp add: observation_sample_def optional_def)
  moreover obtain w where "encode_power_obs po = Inr w" "decode_power_obs (encode_frame MSG_POWER_OBSERVATION w) = Some po"
    using power_obs.dec_enc [of po] assms(4)
    by (auto simp: decode_power_obs_def encode_frame_def encode_power_obs_def fields_app)
  ultimately show ?thesis using admit_cases(1) [OF assms(3)] by (simp add: receive_def)
qed

theorem message_ends_coordinator_witness:
  "fst (perform (DoRelease (action_msg_of (Generation 1) (StrongId 7) 99 2 0)) demo_coord) = Crash OutOfRange"
proof -
  let ?po = "observation_msg (new_worker (StrongId 1) (StrongId 7) (StrongId 1)) (Generation 1) (StrongId 7) (- 5) 3700 True"
  have g: "gov_reservations (co_gov demo_coord) = []" "co_epoch demo_coord = Generation 1" "co_workers demo_coord = [(StrongId 1, StrongId 7)]"
      "co_obs_hwm demo_coord = [(StrongId 1, gen_null)]"
    by (simp_all add: demo_coord_def new_coord_def new_governor_def allocate_def Let_def)
  have "sint (word_of_int (- 5) :: i64) = - 5" by (rule sint_word_of_int) simp_all
  then show ?thesis
    using message_ends_coordinator [of demo_coord "action_msg_of (Generation 1) (StrongId 7) 99 2 0" ?po]
    by (simp add: g in_authority_def action_msg_of_def observation_msg_def new_worker_def str_ok_def gen_null_def gen_first_def
        less_eq_generation_def)
qed

text \<open>C24: A worker that registers is heard. Whatever the state of the coordinator, the registration is accepted
  and its answer puts the worker in touch; and every observation of a worker in touch, sent as its bytes,
  passes the fence and leaves the worker in touch, until the generations are used up.\<close>

theorem worker_is_heard:
  assumes "in_touch w cs" "gen_raw (wk_obs_gen w) \<noteq> - 1"
  shows "(\<exists>f reg cs1 a w1. register_frame v = Inr f \<and> greet f cs0 = (Pending (DoWelcome reg), cs1) \<and>
      perform (DoWelcome reg) cs1 = (Answer (MSG_ACK, a), cs1) \<and> adopt_epoch a v = Some w1 \<and> in_touch w1 cs1) \<and>
    (\<exists>f w' m cs'. worker_dispatch (Observe mw centi) w = (Inr f, w') \<and> receive f cs = (Pending (DoObserve m), cs') \<and>
      sint (po_power_mw m) = sint (word_of_int mw :: i64) \<and> in_touch w' cs')"
proof (intro conjI)
  let ?reg = "\<lparr>reg_worker = wk_worker v, reg_boot = wk_boot v, reg_node = wk_node v, reg_name = ''w''\<rparr>"
  obtain p where p: "encode_register ?reg = Inr p" "decode_register (encode_frame MSG_REGISTER p) = Some ?reg"
    using register.dec_enc [of ?reg] by (auto simp: decode_register_def encode_frame_def encode_register_def fields_app str_ok_def)
  have "stoull (gen_string (co_epoch cs0)) = Inr (gen_raw (co_epoch cs0))"
    unfolding gen_string_def using stoull_dec [of "unat (gen_raw (co_epoch cs0))"] unsigned_less [of "gen_raw (co_epoch cs0)"] by simp
  then show "\<exists>f reg cs1 a w1. register_frame v = Inr f \<and> greet f cs0 = (Pending (DoWelcome reg), cs1) \<and>
      perform (DoWelcome reg) cs1 = (Answer (MSG_ACK, a), cs1) \<and> adopt_epoch a v = Some w1 \<and> in_touch w1 cs1"
    using p by (simp add: register_frame_def greet_def send_ack_def adopt_epoch_def in_touch_def update_conv' gen_null_def less_eq_generation_def)
next
  let ?m = "observation_msg w (wk_epoch w) (wk_boot w) mw centi True"
  have ok: "str_ok (po_source ?m)" by (simp add: observation_msg_def str_ok_def)
  obtain p where p: "encode_power_obs ?m = Inr p" "decode_power_obs (encode_frame MSG_POWER_OBSERVATION p) = Some ?m"
    using power_obs.dec_enc [of ?m] ok by (auto simp: decode_power_obs_def encode_frame_def encode_power_obs_def fields_app)
  have "in_authority cs (po_epoch ?m, po_boot ?m, Some (po_worker ?m, po_obs_gen ?m))"
    using assms(1) by (simp add: in_authority_def in_touch_def observation_msg_def)
  then have "receive (encode_frame MSG_POWER_OBSERVATION p) cs =
      (Pending (DoObserve ?m), cs\<lparr>co_obs_hwm := AList.update (wk_worker w) (wk_obs_gen w) (co_obs_hwm cs)\<rparr>)"
    using p(2) by (simp add: receive_def admit_cases) (simp add: observation_msg_def)
  moreover have "wk_obs_gen w \<le> gen_next (wk_obs_gen w)"
  proof -
    have "1 + gen_raw (wk_obs_gen w) \<noteq> 0" using assms(2) by (metis add.commute eq_neg_iff_add_eq_0)
    from unatSuc [OF this] show ?thesis by (simp add: gen_next_def less_eq_generation_def word_le_nat_alt add.commute)
  qed
  then have "in_touch (next_obs w) (cs\<lparr>co_obs_hwm := AList.update (wk_worker w) (wk_obs_gen w) (co_obs_hwm cs)\<rparr>)"
    using assms(1) by (simp add: in_touch_def next_obs_def update_conv')
  moreover have "worker_dispatch (Observe mw centi) w = (Inr (encode_frame MSG_POWER_OBSERVATION p), next_obs w)"
    using p(1) by (simp add: framed_def)
  moreover have "sint (po_power_mw ?m) = sint (word_of_int mw :: i64)" by (simp add: observation_msg_def)
  ultimately show "\<exists>f w' m cs'. worker_dispatch (Observe mw centi) w = (Inr f, w') \<and> receive f cs = (Pending (DoObserve m), cs') \<and>
      sint (po_power_mw m) = sint (word_of_int mw :: i64) \<and> in_touch w' cs'" by blast
qed

definition demo_worker :: worker_ctx where
  "demo_worker = (new_worker (StrongId 1) (StrongId 7) (StrongId 1))\<lparr>wk_epoch := Generation 1\<rparr>"

theorem worker_is_heard_witness:
  "\<exists>f w' m cs'. worker_dispatch (Observe 92000 3700) demo_worker = (Inr f, w') \<and>
     receive f demo_coord = (Pending (DoObserve m), cs') \<and> in_touch w' cs'"
proof -
  have "in_touch demo_worker demo_coord" "gen_raw (wk_obs_gen demo_worker) \<noteq> - 1"
    by (simp_all add: in_touch_def demo_worker_def new_worker_def demo_coord_def new_coord_def gen_null_def gen_first_def less_eq_generation_def)
  from worker_is_heard [OF this, of demo_worker demo_coord 92000 3700] show ?thesis by blast
qed

lemma never_expired: "0 \<le> created x \<Longrightarrow> 0 \<le> validity x \<Longrightarrow> res_expired x 0 = Inr False"
  by (simp add: res_expired_def ts_is_zero_def elapsed_since_def Duration_def kMaxNs_def)

lemma activate_at_zero:
  assumes "map_of (gov_reservations g) rid = Some x" "0 \<le> created x" "0 \<le> validity x" "state x \<noteq> EXPIRED"
  shows "\<exists>r g' y. activate_reservation rid bg 0 g = Inr (r, g') \<and> map_of (gov_reservations g') rid = Some y \<and> state y \<noteq> EXPIRED"
proof -
  have a: "\<exists>r bm rm y. rm_activate rid bg 0 (gov_budgets g) (gov_reservations g) = Inr (r, bm, rm) \<and> map_of rm rid = Some y \<and> state y \<noteq> EXPIRED"
    using assms by (auto simp: rm_activate_def rm_get_def never_expired update_conv' split: prod.split)
  then obtain r bm rm y where r: "rm_activate rid bg 0 (gov_budgets g) (gov_reservations g) = Inr (r, bm, rm)" "map_of rm rid = Some y"
    "state y \<noteq> EXPIRED" by blast
  then show ?thesis
    by (cases "ok r") (auto simp: activate_reservation_def index_if_ok_def update_index_state_def rm_get_def)
qed

lemma freshness_at_zero: "0 < dev_last_observed d \<Longrightarrow> 0 < observation_freshness p \<Longrightarrow> freshness_of p (Some d) 0 = Inr CURRENT"
  by (simp add: freshness_of_def ts_is_zero_def classify_def age_of_def elapsed_since_def Duration_def kMaxNs_def age_from_duration_def)

text \<open>For the coordinator telemetry never ages and reservations never expire. A decision it serves judges any
  telemetry that was ever received as current, however long ago that was, and an activation it serves never
  finds the validity of a reservation exceeded, since both calls pass the zero time.\<close>

lemma coordinator_ignores_time:
  assumes "perform (DoDecide dr) cs = (Answer r, cs')" "device_ptr (co_gov cs) = Some d" "0 < dev_last_observed d"
    "0 < observation_freshness (gov_policy (co_gov cs))"
  shows "(\<exists>p inp ds dec e ctr. decision_input_for (co_gov cs) (rs_budget dr) THROUGHPUT p (Fin 0) (Fin 1) 0 = Inr (inp, ds) \<and>
      di_power_freshness inp = CURRENT \<and>
      evaluate inp 0 (gov_engine (co_gov cs)) (next_decision (gov_ids (co_gov cs))) = Inr (dec, e, ctr) \<and>
      r = send_ack (raw (rs_workload dr)) True (decision_to_string (dec_verdict dec) @ '' '' @ dec_digest dec)) \<and>
    (\<forall>ba x. map_of (gov_reservations (co_gov cs)) (ba_reservation ba) = Some x \<and> 0 \<le> created x \<and> 0 \<le> validity x \<and>
      state x \<noteq> EXPIRED \<longrightarrow>
      (\<exists>t m cs2 y. perform (DoActivate ba) cs = (Answer (t, m), cs2) \<and>
        map_of (gov_reservations (co_gov cs2)) (ba_reservation ba) = Some y \<and> state y \<noteq> EXPIRED))"
proof (intro conjI allI impI)
  obtain p dec g where d: "decide_for (rs_budget dr) (rs_workload dr) THROUGHPUT p (Fin 0) (Fin 1) 0 (co_gov cs) = Inr (dec, g)"
    and r: "r = send_ack (raw (rs_workload dr)) True (decision_to_string (dec_verdict dec) @ '' '' @ dec_digest dec)"
    using assms(1) by (auto simp: rbind_def split: sum.splits prod.splits if_splits)
  obtain inp ds e ctr where i: "decision_input_for (co_gov cs) (rs_budget dr) THROUGHPUT p (Fin 0) (Fin 1) 0 = Inr (inp, ds)"
    and e: "evaluate inp 0 (gov_engine (co_gov cs)) (next_decision (gov_ids (co_gov cs))) = Inr (dec, e, ctr)"
    using decide_forE [OF d] by metis
  obtain inp0 inp1 d' where "device_input (gov_policy (co_gov cs)) d p (Fin 1) 0 inp0 = Inr (inp1, d')"
      and c: "inp = complete_input (co_gov cs) (rs_budget dr) True inp1"
    using i assms(2) by (auto simp: decision_input_for_def Let_def)
  then have "di_power_freshness inp1 = CURRENT"
    using freshness_at_zero [OF assms(3,4)] by (auto simp: device_input_def Let_def)
  then have "di_power_freshness inp = CURRENT" unfolding c by (simp add: complete_input_def budget_input_def Let_def)
  with i e r show "\<exists>p inp ds dec e ctr. decision_input_for (co_gov cs) (rs_budget dr) THROUGHPUT p (Fin 0) (Fin 1) 0 = Inr (inp, ds) \<and>
      di_power_freshness inp = CURRENT \<and>
      evaluate inp 0 (gov_engine (co_gov cs)) (next_decision (gov_ids (co_gov cs))) = Inr (dec, e, ctr) \<and>
      r = send_ack (raw (rs_workload dr)) True (decision_to_string (dec_verdict dec) @ '' '' @ dec_digest dec)" by blast
next
  fix ba :: budget_action_msg and x
  assume "map_of (gov_reservations (co_gov cs)) (ba_reservation ba) = Some x \<and> 0 \<le> created x \<and> 0 \<le> validity x \<and> state x \<noteq> EXPIRED"
  then show "\<exists>t m cs2 y. perform (DoActivate ba) cs = (Answer (t, m), cs2) \<and>
      map_of (gov_reservations (co_gov cs2)) (ba_reservation ba) = Some y \<and> state y \<noteq> EXPIRED"
    using activate_at_zero [of "co_gov cs" "ba_reservation ba" x "ba_budget_gen ba"] by (auto simp: answer_call_def send_ack_def)
qed

lemma coordinator_ignores_time_witness:
  "\<exists>cs dr r cs'. perform (DoDecide dr) cs = (Answer r, cs') \<and>
     (\<exists>p inp ds. decision_input_for (co_gov cs) (rs_budget dr) THROUGHPUT p (Fin 0) (Fin 1) 0 = Inr (inp, ds) \<and>
        di_power_freshness inp = CURRENT)"
proof -
  let ?g = "demo_governor demo_ids"
  let ?cs = "demo_coord\<lparr>co_gov := ?g\<rparr>"
  let ?dr = "(decision_msg demo_worker 0 100000)"
  have m: "milli 100000 = Fin 100" using rnd64_int [of 100000] by (simp add: milli_def double_of_int_def)
  obtain dec g' where "decide_for id_invalid (StrongId 1) THROUGHPUT (Fin 100) (Fin 0) (Fin 1) 0 ?g = Inr (dec, g')"
    using demo_decision [of 0 "Fin 1"] by blast
  then obtain r cs' where p: "perform (DoDecide ?dr) ?cs = (Answer r, cs')"
    using m by (auto simp: decision_msg_def id_invalid_def demo_worker_def new_worker_def)
  have d: "device_ptr (co_gov ?cs) = Some (new_device\<lparr>dev_latest := Some (empty_sample\<lparr>bs_power := Some (Fin 92)\<rparr>), dev_last_observed := 5\<rparr>)"
      "0 < observation_freshness (gov_policy (co_gov ?cs))"
    by (simp_all add: demo_gov_defs Let_def)
  have "0 < dev_last_observed (new_device\<lparr>dev_latest := Some (empty_sample\<lparr>bs_power := Some (Fin 92)\<rparr>), dev_last_observed := 5\<rparr>)" by simp
  from coordinator_ignores_time [OF p d(1) this d(2)] p show ?thesis by (elim conjE exE) (intro exI conjI; assumption)
qed

end
