(* ===== verification/Cuda_Backend.thy ===== *)
theory Cuda_Backend
  imports Governor
begin

text \<open>
  The NVIDIA backend: \<^verbatim>\<open>backend_cuda.hpp\<close>, \<^verbatim>\<open>nvidia_cuda_backend.cpp\<close> and the probe of
  \<^verbatim>\<open>pg_cuda_backend.cu\<close>. The driver library is not part of the repository: its entry points are
  functions on a driver state \<open>'d\<close>, each of which may be missing from the library; what the CUDA
  runtime returns is a record too. A pointer is a 64-bit word (0 is the null pointer), a return code the
  32 bits of an \<^verbatim>\<open>int\<close>; a call through a null function pointer is undefined behaviour.
\<close>

section \<open>The driver binding\<close>

type_synonym 'd call = "'d \<Rightarrow> u32 \<times> 'd"
type_synonym ('d, 'a) query = "'d \<Rightarrow> u32 \<times> 'a \<times> 'd"

text \<open>The exports of \<^verbatim>\<open>nvml.dll\<close> the binding asks for, under their symbol names.\<close>

record 'd nvml_library =
  nvmlInit_v2 :: "'d call option"
  nvmlShutdown :: "'d call option"
  nvmlDeviceGetHandleByIndex_v2 :: "(u32 \<Rightarrow> ('d, u64) query) option"
  nvmlDeviceGetName :: "(u64 \<Rightarrow> u32 \<Rightarrow> ('d, string) query) option"
  nvmlDeviceGetPowerUsage :: "(u64 \<Rightarrow> ('d, u32) query) option"
  nvmlDeviceGetTemperature :: "(u64 \<Rightarrow> u32 \<Rightarrow> ('d, u32) query) option"
  nvmlDeviceGetClockInfo :: "(u64 \<Rightarrow> u32 \<Rightarrow> ('d, u32) query) option"
  nvmlDeviceGetUtilizationRates :: "(u64 \<Rightarrow> ('d, u32 \<times> u32) query) option"
  nvmlDeviceGetMemoryInfo :: "(u64 \<Rightarrow> ('d, bytes) query) option"
  nvmlDeviceSetPowerManagementLimit :: "(u64 \<Rightarrow> u32 \<Rightarrow> 'd call) option"
  nvmlDeviceGetPowerManagementLimit :: "(u64 \<Rightarrow> ('d, u32) query) option"

record 'd nvml_binding =
  nb_loaded :: bool
  nb_init :: "'d call option"
  nb_shutdown :: "'d call option"
  nb_get_handle :: "(u32 \<Rightarrow> ('d, u64) query) option"
  nb_get_name :: "(u64 \<Rightarrow> u32 \<Rightarrow> ('d, string) query) option"
  nb_get_power :: "(u64 \<Rightarrow> ('d, u32) query) option"
  nb_get_temp :: "(u64 \<Rightarrow> u32 \<Rightarrow> ('d, u32) query) option"
  nb_get_clock :: "(u64 \<Rightarrow> u32 \<Rightarrow> ('d, u32) query) option"
  nb_get_util :: "(u64 \<Rightarrow> ('d, u32 \<times> u32) query) option"
  nb_get_mem :: "(u64 \<Rightarrow> ('d, bytes) query) option"
  nb_set_limit :: "(u64 \<Rightarrow> u32 \<Rightarrow> 'd call) option"
  nb_get_limit :: "(u64 \<Rightarrow> ('d, u32) query) option"

definition no_binding :: "'d nvml_binding" where
  "no_binding = \<lparr>nb_loaded = False, nb_init = None, nb_shutdown = None, nb_get_handle = None, nb_get_name = None,
     nb_get_power = None, nb_get_temp = None, nb_get_clock = None, nb_get_util = None, nb_get_mem = None,
     nb_set_limit = None, nb_get_limit = None\<rparr>"

definition nvml_load :: "'d nvml_library option \<Rightarrow> 'd nvml_binding \<Rightarrow> bool \<times> 'd nvml_binding" where
  "nvml_load lib b = (case lib of
     None \<Rightarrow> (False, b)
   | Some l \<Rightarrow> (True, \<lparr>nb_loaded = True, nb_init = nvmlInit_v2 l, nb_shutdown = nvmlShutdown l,
       nb_get_handle = nvmlDeviceGetHandleByIndex_v2 l, nb_get_name = nvmlDeviceGetName l,
       nb_get_power = nvmlDeviceGetPowerUsage l, nb_get_temp = nvmlDeviceGetTemperature l,
       nb_get_clock = nvmlDeviceGetClockInfo l, nb_get_util = nvmlDeviceGetUtilizationRates l,
       nb_get_mem = nvmlDeviceGetMemoryInfo l, nb_set_limit = nvmlDeviceSetPowerManagementLimit l,
       nb_get_limit = nvmlDeviceGetPowerManagementLimit l\<rparr>))"

text \<open>The machine a backend runs on: the installed library, the two statics of \<^verbatim>\<open>binding()\<close> and the driver.\<close>

record 'd nvml_world =
  nw_library :: "'d nvml_library option"
  nw_tried :: bool
  nw_binding :: "'d nvml_binding"
  nw_driver :: 'd

definition binding :: "'d nvml_world \<Rightarrow> 'd nvml_world" where
  "binding w = (if nw_tried w then w
     else w\<lparr>nw_tried := True, nw_binding := snd (nvml_load (nw_library w) (nw_binding w))\<rparr>)"

definition new_world :: "'d nvml_library option \<Rightarrow> 'd \<Rightarrow> 'd nvml_world" where
  "new_world lib d = \<lparr>nw_library = lib, nw_tried = False, nw_binding = no_binding, nw_driver = d\<rparr>"

section \<open>The probe\<close>

text \<open>\<^verbatim>\<open>float\<close> arithmetic: the exact result rounded to 24 significant bits, ties to even, with gradual underflow.\<close>

definition fl32_pos :: "rat \<Rightarrow> rat" where
  "fl32_pos x = (let y = x * 2 ^ 149; k = floorlog 2 (nat \<lfloor>y\<rfloor>) - 24
     in of_int (rhe (y / 2 ^ k)) * 2 ^ k / 2 ^ 149)"

definition rnd32 :: "rat \<Rightarrow> double" where
  "rnd32 x = (let v = (if x < 0 then - fl32_pos (- x) else fl32_pos x); m = of_int (2 ^ 24 - 1) * 2 ^ 104
     in if m < v then PInf else if v < - m then NInf else Fin v)"

text \<open>A \<^verbatim>\<open>float\<close> operation is the \<^verbatim>\<open>double\<close> one, rounded again: for sums, differences and products this is the
  correctly rounded \<^verbatim>\<open>float\<close> result, because a \<^verbatim>\<open>double\<close> has more than twice the digits.\<close>

definition to_float :: "double \<Rightarrow> double" where
  "to_float x = (case x of Fin a \<Rightarrow> rnd32 a | _ \<Rightarrow> x)"

record cuda_prop =
  prop_major :: int
  prop_minor :: int
  prop_name :: string
  prop_uuid :: bytes

text \<open>What the CUDA runtime answers: the results the probe looks at, and, where it ignores a return code,
  whether the call had its effect. \<open>rt_mad\<close> is the multiply-add of the device.\<close>

record cuda_runtime =
  rt_device_count :: "int option"
  rt_properties :: "cuda_prop option"
  rt_mem_info :: "(u64 \<times> u64) option"
  rt_malloc_x :: "nat \<Rightarrow> double list option"
  rt_malloc_y :: "nat \<Rightarrow> double list option"
  rt_copies_x :: bool
  rt_copies_y :: bool
  rt_launches :: bool
  rt_mad :: "double \<Rightarrow> double \<Rightarrow> double \<Rightarrow> double"
  rt_elapsed_ms :: "double option"
  rt_copies_back :: bool

record probe_result =
  pr_ok :: bool
  pr_device_count :: int
  pr_compute_major :: int
  pr_compute_minor :: int
  pr_free_bytes :: u64
  pr_total_bytes :: u64
  pr_elapsed_seconds :: double
  pr_verified :: bool
  pr_uuid_low :: u64
  pr_uuid_high :: u64
  pr_name :: string

definition no_probe :: probe_result where
  "no_probe = \<lparr>pr_ok = False, pr_device_count = 0, pr_compute_major = 0, pr_compute_minor = 0, pr_free_bytes = 0,
     pr_total_bytes = 0, pr_elapsed_seconds = Fin 0, pr_verified = False, pr_uuid_low = 0, pr_uuid_high = 0, pr_name = []\<rparr>"

text \<open>The kernel: thread \<open>i\<close> of the grid updates element \<open>i\<close>, the threads past the end do nothing.\<close>

definition pg_saxpy :: "(double \<Rightarrow> double \<Rightarrow> double \<Rightarrow> double) \<Rightarrow> double \<Rightarrow> double list \<Rightarrow> nat \<Rightarrow> nat \<Rightarrow> double list \<Rightarrow> double list" where
  "pg_saxpy mad a x n i y = (if i < n then y[i := mad a (x ! i) (y ! i)] else y)"

definition launch_saxpy :: "(double \<Rightarrow> double \<Rightarrow> double \<Rightarrow> double) \<Rightarrow> double \<Rightarrow> double list \<Rightarrow> nat \<Rightarrow> double list \<Rightarrow> double list" where
  "launch_saxpy mad a x n y = fold (pg_saxpy mad a x n) [0..<((n + 255) div 256) * 256] y"

definition fold_uuid :: "bytes \<Rightarrow> u64" where
  "fold_uuid bs = foldl (\<lambda>v b. push_bit 8 v OR ucast b) 0 bs"

definition probe_x :: "nat \<Rightarrow> double list" where
  "probe_x n = map (\<lambda>i. to_float (to_float (lit (1 / 10000)) * double_of_int (int (i mod 97)))) [0..<n]"

definition host_mad :: "double \<Rightarrow> double \<Rightarrow> double \<Rightarrow> double" where
  "host_mad a x y = to_float (to_float (a * x) + y)"

definition abs64 :: "double \<Rightarrow> double" where
  "abs64 x = (case x of Fin q \<Rightarrow> Fin \<bar>q\<bar> | NInf \<Rightarrow> PInf | _ \<Rightarrow> x)"

definition probe_verified :: "double list \<Rightarrow> double list \<Rightarrow> bool" where
  "probe_verified yh yref = list_all2 (\<lambda>h r. \<not> to_float (lit (1 / 10000)) < abs64 (to_float (h - r))) yh yref"

definition run_saxpy :: "cuda_runtime \<Rightarrow> nat \<Rightarrow> double list \<Rightarrow> double list \<Rightarrow> bool" where
  "run_saxpy rt n x_d y_d =
     (let a = Fin (3 / 2); x = probe_x n; y = replicate n (Fin (1 / 4));
          yref = map2 (host_mad a) x y;
          x_d = (if rt_copies_x rt then x else x_d);
          y_d = (if rt_copies_y rt then y else y_d);
          y_d = (if rt_launches rt then launch_saxpy (rt_mad rt) a x_d n y_d else y_d);
          yh = (if rt_copies_back rt then y_d else replicate n (Fin 0))
      in probe_verified yh yref)"

definition pg_rtx_probe :: "cuda_runtime \<Rightarrow> int \<Rightarrow> probe_result \<Rightarrow> (bool \<times> probe_result) res" where
  "pg_rtx_probe rt n_elems out =
     (if n_elems \<le> 0 then Inr (False, out)
      else case rt_device_count rt of
        None \<Rightarrow> Inr (False, no_probe)
      | Some devices \<Rightarrow> if devices \<le> 0 then Inr (False, no_probe)
        else case rt_properties rt of
          None \<Rightarrow> Inr (False, no_probe\<lparr>pr_device_count := devices\<rparr>)
        | Some prop \<Rightarrow>
            let out = no_probe\<lparr>pr_device_count := devices, pr_compute_major := prop_major prop,
                  pr_compute_minor := prop_minor prop, pr_name := take 255 (prop_name prop),
                  pr_free_bytes := (case rt_mem_info rt of None \<Rightarrow> 0 | Some (fr, tot) \<Rightarrow> fr),
                  pr_total_bytes := (case rt_mem_info rt of None \<Rightarrow> 0 | Some (fr, tot) \<Rightarrow> tot),
                  pr_uuid_low := fold_uuid (take 8 (prop_uuid prop)),
                  pr_uuid_high := fold_uuid (take 8 (drop 8 (prop_uuid prop)))\<rparr>;
                n = nat n_elems
            in case (rt_malloc_x rt (n * 4), rt_malloc_y rt (n * 4)) of
                 (Some x_d, Some y_d) \<Rightarrow>
                   if 2 ^ 31 \<le> n_elems + 255 then Inl Undefined
                   else Inr (True, out\<lparr>
                     pr_elapsed_seconds := (case rt_elapsed_ms rt of None \<Rightarrow> Fin 0 | Some ms \<Rightarrow> ms) / lit 1000,
                     pr_verified := run_saxpy rt n x_d y_d, pr_ok := True\<rparr>)
               | _ \<Rightarrow> Inr (False, out))"

section \<open>The backend\<close>

record nvidia_backend =
  cb_caps :: backend_capabilities
  cb_name :: string
  cb_compute_major :: int
  cb_compute_minor :: int
  cb_applied :: "watts option"

type_synonym 'd nvidia = "nvidia_backend \<times> 'd nvml_world"

text \<open>The capabilities the constructor reports where \<^verbatim>\<open>nvmlInit\<close> succeeds.\<close>

definition nvml_capabilities :: "'d nvml_binding \<Rightarrow> backend_capabilities \<Rightarrow> backend_capabilities" where
  "nvml_capabilities b c =
     (let sup = (\<lambda>present old. if present then CAP_SUPPORTED else old)
      in c\<lparr>cap_power_observe := sup (nb_get_power b \<noteq> None) (cap_power_observe c),
           cap_temperature := sup (nb_get_temp b \<noteq> None) (cap_temperature c),
           cap_clocks := sup (nb_get_clock b \<noteq> None) (cap_clocks c),
           cap_utilization := sup (nb_get_util b \<noteq> None) (cap_utilization c),
           cap_power_control := sup (nb_set_limit b \<noteq> None \<and> nb_get_limit b \<noteq> None) (cap_power_control c)\<rparr>)"

definition new_nvidia :: "cuda_runtime \<Rightarrow> 'd nvml_world \<Rightarrow> 'd nvidia res" where
  "new_nvidia rt w = rbind (pg_rtx_probe rt 1 no_probe) (\<lambda>(found, r).
     let c = (if found
              then \<lparr>cb_caps = default_capabilities, cb_name = pr_name r, cb_compute_major = pr_compute_major r,
                    cb_compute_minor = pr_compute_minor r, cb_applied = None\<rparr>
              else \<lparr>cb_caps = default_capabilities, cb_name = [], cb_compute_major = 0, cb_compute_minor = 0,
                    cb_applied = None\<rparr>);
         w = binding w; b = nw_binding w
     in if \<not> nb_loaded b then Inr (c, w)
        else case nb_init b of
          None \<Rightarrow> Inr (c, w)
        | Some init \<Rightarrow> (case init (nw_driver w) of (rc, d) \<Rightarrow>
            Inr (if rc = 0 then c\<lparr>cb_caps := nvml_capabilities b (cb_caps c)\<rparr> else c, w\<lparr>nw_driver := d\<rparr>)))"

definition close_nvidia :: "'d nvidia \<Rightarrow> 'd nvml_world" where
  "close_nvidia s = (let w = binding (snd s); b = nw_binding w
     in case nb_shutdown b of
          Some sd \<Rightarrow> if nb_loaded b then w\<lparr>nw_driver := snd (sd (nw_driver w))\<rparr> else w
        | None \<Rightarrow> w)"

definition cuda_capabilities :: "'d nvidia \<Rightarrow> backend_capabilities" where "cuda_capabilities s = cb_caps (fst s)"
definition is_rtx5090 :: "'d nvidia \<Rightarrow> bool" where
  "is_rtx5090 s \<longleftrightarrow> cb_compute_major (fst s) = 12 \<and> cb_compute_minor (fst s) = 0"
definition cuda_applied_limit :: "'d nvidia \<Rightarrow> watts option" where "cuda_applied_limit s = cb_applied (fst s)"

definition run_probe :: "cuda_runtime \<Rightarrow> int \<Rightarrow> probe_result res" where
  "run_probe rt n = rbind (pg_rtx_probe rt n no_probe) (\<lambda>(_, r). Inr r)"

subsection \<open>Samples\<close>

text \<open>One optional reading: the entry point has to be there and to return 0; the value is validated by its unit.\<close>

definition read_quantity ::
  "unit_tag \<Rightarrow> ('a \<Rightarrow> double) \<Rightarrow> ('d, 'a) query option \<Rightarrow> 'd \<Rightarrow> (double option \<times> 'd) res" where
  "read_quantity tag conv f d = (case f of
     None \<Rightarrow> Inr (None, d)
   | Some f \<Rightarrow> (case f d of (rc, v, d) \<Rightarrow>
       if rc = 0 then rbind (Quantity tag (conv v)) (\<lambda>q. Inr (Some q, d)) else Inr (None, d)))"

definition u32_double :: "u32 \<Rightarrow> double" where "u32_double v = double_of_int (uint v)"
definition milli_double :: "u32 \<Rightarrow> double" where "milli_double v = u32_double v / lit 1000"
definition gpu_fraction :: "u32 \<times> u32 \<Rightarrow> double" where "gpu_fraction u = std_min (lit 1) (u32_double (fst u) / lit 100)"

definition read_device :: "'d nvml_binding \<Rightarrow> u64 \<Rightarrow> 'd \<Rightarrow> (backend_sample \<times> 'd) res" where
  "read_device b dev d =
     rbind (read_quantity WattsTag milli_double (map_option (\<lambda>f. f dev) (nb_get_power b)) d) (\<lambda>(pw, d).
     rbind (read_quantity CelsiusTag u32_double (map_option (\<lambda>f. f dev 0) (nb_get_temp b)) d) (\<lambda>(temp, d).
     rbind (read_quantity FrequencyMhzTag u32_double (map_option (\<lambda>f. f dev 0) (nb_get_clock b)) d) (\<lambda>(sm, d).
     rbind (read_quantity FrequencyMhzTag u32_double (map_option (\<lambda>f. f dev 1) (nb_get_clock b)) d) (\<lambda>(mem, d).
     rbind (read_quantity UtilizationTag gpu_fraction (map_option (\<lambda>f. f dev) (nb_get_util b)) d) (\<lambda>(util, d).
     rbind (read_quantity WattsTag milli_double (map_option (\<lambda>f. f dev) (nb_get_limit b)) d) (\<lambda>(lim, d).
     Inr (empty_sample\<lparr>bs_source := ''nvml'', bs_power := pw,
       bs_provenance := (if pw = None then bs_provenance empty_sample else MEASURED),
       bs_temperature := temp, bs_sm_clock := sm, bs_mem_clock := mem, bs_utilization := util,
       bs_power_limit := lim\<rparr>, d)))))))"

definition cuda_sample :: "'d nvidia \<Rightarrow> (backend_sample \<times> 'd nvidia) res" where
  "cuda_sample s = (let c = fst s; w = binding (snd s); b = nw_binding w; none = empty_sample\<lparr>bs_source := ''nvml''\<rparr>
     in if \<not> nb_loaded b then Inr (none, c, w)
        else case nb_init b of
          None \<Rightarrow> Inr (none, c, w)
        | Some init \<Rightarrow> (case init (nw_driver w) of (rc, d) \<Rightarrow>
            if rc \<noteq> 0 then Inr (none, c, w\<lparr>nw_driver := d\<rparr>)
            else case nb_get_handle b of
              None \<Rightarrow> Inr (none, c, w\<lparr>nw_driver := d\<rparr>)
            | Some get_handle \<Rightarrow> (case get_handle 0 d of (rc, dev, d) \<Rightarrow>
                if rc \<noteq> 0 \<or> dev = 0 then Inr (none, c, w\<lparr>nw_driver := d\<rparr>)
                else rbind (read_device b dev d) (\<lambda>(smp, d). Inr (smp, c, w\<lparr>nw_driver := d\<rparr>)))))"

subsection \<open>Control\<close>

text \<open>The opening steps of both control calls: \<^verbatim>\<open>init()\<close> without a test for a null pointer, then the handle.\<close>

definition open_device :: "'d nvml_binding \<Rightarrow> 'd \<Rightarrow> ((control_result + u64) \<times> 'd) res" where
  "open_device b d = (case nb_init b of
     None \<Rightarrow> Inl Undefined
   | Some init \<Rightarrow> (case init d of (rc, d) \<Rightarrow>
       if rc \<noteq> 0 then Inr (Inl FAILED, d)
       else case nb_get_handle b of
         None \<Rightarrow> Inr (Inl PERMISSION_DENIED, d)
       | Some get_handle \<Rightarrow> (case get_handle 0 d of (rc, dev, d) \<Rightarrow>
           if rc \<noteq> 0 then Inr (Inl PERMISSION_DENIED, d) else Inr (Inr dev, d))))"

text \<open>\<^verbatim>\<open>static_cast<unsigned int>\<close> of a double.\<close>

definition uint32_of_double :: "double \<Rightarrow> u32 res" where
  "uint32_of_double x = (case x of
     Fin a \<Rightarrow> if - 1 < a \<and> a < 2 ^ 32 then Inr (of_int (trunc_rat a)) else Inl Undefined
   | _ \<Rightarrow> Inl Undefined)"

definition limit_rc :: "u32 \<Rightarrow> control_result" where
  "limit_rc rc = (if rc = 0 then APPLIED else if rc AND 0x10 \<noteq> 0 then PERMISSION_DENIED else FAILED)"

definition cuda_set_power_limit :: "watts option \<Rightarrow> 'd nvidia \<Rightarrow> (control_result \<times> 'd nvidia) res" where
  "cuda_set_power_limit limit s = (let c = fst s; w = binding (snd s); b = nw_binding w
     in case nb_set_limit b of
          None \<Rightarrow> Inr (UNSUPPORTED, c, w)
        | Some set_limit \<Rightarrow> rbind (open_device b (nw_driver w)) (\<lambda>(h, d).
            case h of
              Inl r \<Rightarrow> Inr (r, c, w\<lparr>nw_driver := d\<rparr>)
            | Inr dev \<Rightarrow> (case limit of
                None \<Rightarrow> Inr (APPLIED, c\<lparr>cb_applied := None\<rparr>, w\<lparr>nw_driver := d\<rparr>)
              | Some l \<Rightarrow>
                  if \<not> isfinite l \<or> l \<le> Fin 0 \<or> lit 999 < l \<or> l < lit 1
                  then Inr (FAILED, c, w\<lparr>nw_driver := d\<rparr>)
                  else rbind (uint32_of_double (l * lit 1000)) (\<lambda>mw.
                    case set_limit dev mw d of (rc, d) \<Rightarrow>
                      Inr (limit_rc rc, if rc = 0 then c\<lparr>cb_applied := limit\<rparr> else c, w\<lparr>nw_driver := d\<rparr>)))))"

definition cuda_restore_power_limit :: "'d nvidia \<Rightarrow> (control_result \<times> 'd nvidia) res" where
  "cuda_restore_power_limit s = (let c = fst s; w = binding (snd s); b = nw_binding w
     in if nb_set_limit b = None \<or> nb_get_limit b = None then Inr (UNSUPPORTED, c, w)
        else rbind (open_device b (nw_driver w)) (\<lambda>(h, d).
          case h of
            Inl r \<Rightarrow> Inr (r, c, w\<lparr>nw_driver := d\<rparr>)
          | Inr dev \<Rightarrow> Inr (APPLIED, c\<lparr>cb_applied := None\<rparr>, w\<lparr>nw_driver := d\<rparr>)))"

end
