(* ===== verification/Cuda_Proofs.thy ===== *)
theory Cuda_Proofs
  imports Cuda_Backend
begin

text \<open>
  What the NVIDIA backend promises: the contract of a limit control, samples that only carry what the
  driver reported, and the range of the limits the driver is asked for.
\<close>

section \<open>The contract\<close>

lemmas cuda_control_defs = cuda_set_power_limit_def cuda_restore_power_limit_def open_device_def cuda_applied_limit_def

lemma open_device_not_applied: "open_device b d = Inr (Inl r, d') \<Longrightarrow> r \<noteq> APPLIED"
  by (auto simp: open_device_def split: option.splits prod.splits if_splits)

lemma limit_rc_applied [simp]: "limit_rc rc = APPLIED \<longleftrightarrow> rc = 0"
  by (simp add: limit_rc_def)

lemma set_limit_tracked:
  assumes "cuda_set_power_limit l s = Inr (r, s')"
  shows "cuda_applied_limit s' = (if r = APPLIED then l else cuda_applied_limit s)"
  using assms open_device_not_applied
  by (fastforce simp: cuda_set_power_limit_def cuda_applied_limit_def Let_def split: option.splits sum.splits prod.splits if_splits)

lemma restore_tracked:
  assumes "cuda_restore_power_limit s = Inr (r, s')"
  shows "cuda_applied_limit s' = (if r = APPLIED then None else cuda_applied_limit s)"
  using assms open_device_not_applied
  by (fastforce simp: cuda_restore_power_limit_def cuda_applied_limit_def Let_def split: sum.splits prod.splits if_splits)

interpretation cuda: limit_control cuda_set_power_limit cuda_restore_power_limit cuda_applied_limit
  by unfold_locales (auto dest: set_limit_tracked restore_tracked)

section \<open>Readings\<close>

lemma u32_double_bounds: obtains a where "u32_double v = Fin a" "0 \<le> a" "a \<le> 2 ^ 32"
proof
  have v: "0 \<le> uint v" "uint v \<le> 2 ^ 32" using uint_bounded [of v] by auto
  have "\<bar>uint v\<bar> \<le> 2 ^ 53" using v by simp
  then show "u32_double v = Fin (of_int (uint v))" by (simp only: u32_double_def double_of_int_def rnd64_int)
  show "0 \<le> (of_int (uint v) :: rat)" using v(1) by (simp only: of_int_0_le_iff)
  have "(of_int (uint v) :: rat) \<le> of_int (2 ^ 32)" using v(2) by (simp only: of_int_le_iff)
  then show "(of_int (uint v) :: rat) \<le> 2 ^ 32" by (simp only: of_int_power of_int_numeral)
qed

lemma quotient_bounds:
  assumes "0 \<le> a" "a \<le> 2 ^ 32" "1 \<le> k" obtains q where "Fin a / Fin k = Fin q" "0 \<le> q"
proof -
  have "a / k \<le> a" using assms(1, 3) by (simp add: divide_le_eq mult_le_cancel_left1)
  then have "a / k \<le> of_int (2 ^ 32)" using assms(2) by simp
  moreover have "0 \<le> a / k" using assms by simp
  moreover have "grid64 (of_int (2 ^ 32))" by (rule grid64_int) simp
  ultimately have "Fin 0 \<le> rnd64 (a / k)" "rnd64 (a / k) \<le> Fin (of_int (2 ^ 32))"
    by (blast intro: b64.rnd_nonneg b64.rnd_le)+
  then have "\<exists>q. rnd64 (a / k) = Fin q \<and> 0 \<le> q" by (cases "rnd64 (a / k)") auto
  then show ?thesis using assms(3) that by auto
qed

lemma readings_valid:
  "Quantity WattsTag (milli_double v) = Inr (milli_double v)"
  "Quantity CelsiusTag (u32_double v) = Inr (u32_double v)"
  "Quantity FrequencyMhzTag (u32_double v) = Inr (u32_double v)"
  "Quantity UtilizationTag (gpu_fraction u) = Inr (gpu_fraction u)"
proof -
  obtain a where a: "u32_double v = Fin a" "0 \<le> a" "a \<le> 2 ^ 32" by (rule u32_double_bounds)
  obtain q where "Fin a / Fin 1000 = Fin q" "0 \<le> q" by (rule quotient_bounds [OF a(2, 3), of 1000]) simp_all
  then show "Quantity WattsTag (milli_double v) = Inr (milli_double v)" by (simp add: milli_double_def a(1))
  have "rnd64 (- 27315 / 100) \<le> Fin 0" by (rule b64.rnd_nonpos) simp
  then have "\<not> Fin a < rnd64 (- 27315 / 100)" using a(2) by (cases "rnd64 (- 27315 / 100)") auto
  then show "Quantity CelsiusTag (u32_double v) = Inr (u32_double v)"
    by (simp add: a(1) Quantity_def validate_unit_def reject_non_finite_def)
  show "Quantity FrequencyMhzTag (u32_double v) = Inr (u32_double v)"
    by (simp add: a(1) Quantity_def validate_unit_def reject_non_finite_def)
  obtain c where c: "u32_double (fst u) = Fin c" "0 \<le> c" "c \<le> 2 ^ 32" by (rule u32_double_bounds)
  obtain r where "Fin c / Fin 100 = Fin r" "0 \<le> r" by (rule quotient_bounds [OF c(2, 3), of 100]) simp_all
  then show "Quantity UtilizationTag (gpu_fraction u) = Inr (gpu_fraction u)"
    by (simp add: gpu_fraction_def std_min_def c(1) Quantity_def validate_unit_def reject_non_finite_def)
qed

text \<open>A reading is what an entry point answered in the state \<open>d\<close> of the driver, with code 0; it is missing where the
  entry point is, or where it answered with another code. \<open>d'\<close> is the state the call leaves.\<close>

definition said :: "('d, 'a) query option \<Rightarrow> ('a \<Rightarrow> double) \<Rightarrow> 'd \<Rightarrow> double option \<Rightarrow> 'd \<Rightarrow> bool" where
  "said q conv d v d' \<longleftrightarrow> (case v of
     Some x \<Rightarrow> \<exists>f a. q = Some f \<and> f d = (0, a, d') \<and> x = conv a
   | None \<Rightarrow> q = None \<and> d' = d \<or> (\<exists>f rc a. q = Some f \<and> f d = (rc, a, d') \<and> rc \<noteq> 0))"

lemma read_quantity_said:
  assumes "\<And>a. Quantity tag (conv a) = Inr (conv a)"
  obtains v d' where "read_quantity tag conv q d = Inr (v, d')" "said q conv d v d'"
proof -
  have "\<exists>v d'. read_quantity tag conv q d = Inr (v, d') \<and> said q conv d v d'"
  proof (cases q)
    case (Some f)
    obtain rc a d' where f: "f d = (rc, a, d')" by (cases "f d")
    then show ?thesis using Some assms by (cases "rc = 0") (auto simp: read_quantity_def said_def)
  qed (simp add: read_quantity_def said_def)
  then show thesis using that by blast
qed

lemmas said_by =
  read_quantity_said [of WattsTag milli_double, OF readings_valid(1)]
  read_quantity_said [of CelsiusTag u32_double, OF readings_valid(2)]
  read_quantity_said [of FrequencyMhzTag u32_double, OF readings_valid(3)]
  read_quantity_said [of UtilizationTag gpu_fraction, OF readings_valid(4)]

text \<open>Every field of a sample is what its entry point answered, one call after the other.\<close>

definition device_said :: "'d nvml_binding \<Rightarrow> u64 \<Rightarrow> 'd \<Rightarrow> backend_sample \<Rightarrow> 'd \<Rightarrow> bool" where
  "device_said b dev d smp d' \<longleftrightarrow> (\<exists>d1 d2 d3 d4 d5.
     said (map_option (\<lambda>f. f dev) (nb_get_power b)) milli_double d (bs_power smp) d1 \<and>
     said (map_option (\<lambda>f. f dev 0) (nb_get_temp b)) u32_double d1 (bs_temperature smp) d2 \<and>
     said (map_option (\<lambda>f. f dev 0) (nb_get_clock b)) u32_double d2 (bs_sm_clock smp) d3 \<and>
     said (map_option (\<lambda>f. f dev 1) (nb_get_clock b)) u32_double d3 (bs_mem_clock smp) d4 \<and>
     said (map_option (\<lambda>f. f dev) (nb_get_util b)) gpu_fraction d4 (bs_utilization smp) d5 \<and>
     said (map_option (\<lambda>f. f dev) (nb_get_limit b)) milli_double d5 (bs_power_limit smp) d') \<and>
     bs_energy_total smp = None \<and> \<not> bs_throttled smp \<and> bs_source smp = ''nvml'' \<and>
     (bs_provenance smp = MEASURED \<longleftrightarrow> bs_power smp \<noteq> None)"

lemma said_SomeD: "said q conv d (Some x) d' \<Longrightarrow> \<exists>a. x = conv a"
  by (auto simp: said_def)

lemma device_said_limit: "device_said b dev d smp d' \<Longrightarrow> bs_power_limit smp = Some v \<Longrightarrow> \<exists>a. v = milli_double a"
  unfolding device_said_def by (elim exE conjE) (simp add: said_SomeD)

lemma read_device_said: "\<exists>smp d'. read_device b dev d = Inr (smp, d') \<and> device_said b dev d smp d'"
proof -
  obtain v1 d1 where 1: "read_quantity WattsTag milli_double (map_option (\<lambda>f. f dev) (nb_get_power b)) d = Inr (v1, d1)"
      "said (map_option (\<lambda>f. f dev) (nb_get_power b)) milli_double d v1 d1" by (rule said_by(1))
  obtain v2 d2 where 2: "read_quantity CelsiusTag u32_double (map_option (\<lambda>f. f dev 0) (nb_get_temp b)) d1 = Inr (v2, d2)"
      "said (map_option (\<lambda>f. f dev 0) (nb_get_temp b)) u32_double d1 v2 d2" by (rule said_by(2))
  obtain v3 d3 where 3: "read_quantity FrequencyMhzTag u32_double (map_option (\<lambda>f. f dev 0) (nb_get_clock b)) d2 = Inr (v3, d3)"
      "said (map_option (\<lambda>f. f dev 0) (nb_get_clock b)) u32_double d2 v3 d3" by (rule said_by(3))
  obtain v4 d4 where 4: "read_quantity FrequencyMhzTag u32_double (map_option (\<lambda>f. f dev 1) (nb_get_clock b)) d3 = Inr (v4, d4)"
      "said (map_option (\<lambda>f. f dev 1) (nb_get_clock b)) u32_double d3 v4 d4" by (rule said_by(3))
  obtain v5 d5 where 5: "read_quantity UtilizationTag gpu_fraction (map_option (\<lambda>f. f dev) (nb_get_util b)) d4 = Inr (v5, d5)"
      "said (map_option (\<lambda>f. f dev) (nb_get_util b)) gpu_fraction d4 v5 d5" by (rule said_by(4))
  obtain v6 d6 where 6: "read_quantity WattsTag milli_double (map_option (\<lambda>f. f dev) (nb_get_limit b)) d5 = Inr (v6, d6)"
      "said (map_option (\<lambda>f. f dev) (nb_get_limit b)) milli_double d5 v6 d6" by (rule said_by(1))
  let ?smp = "empty_sample\<lparr>bs_source := ''nvml'', bs_power := v1,
       bs_provenance := (if v1 = None then bs_provenance empty_sample else MEASURED),
       bs_temperature := v2, bs_sm_clock := v3, bs_mem_clock := v4, bs_utilization := v5, bs_power_limit := v6\<rparr>"
  have "read_device b dev d = Inr (?smp, d6)"
    using 1(1) 2(1) 3(1) 4(1) 5(1) 6(1) by (simp add: read_device_def)
  moreover have "device_said b dev d ?smp d6"
    unfolding device_said_def
    by (intro conjI exI [of _ d1] exI [of _ d2] exI [of _ d3] exI [of _ d4] exI [of _ d5])
      (simp_all add: empty_sample_def 1(2) 2(2) 3(2) 4(2) 5(2) 6(2))
  ultimately show ?thesis by blast
qed

text \<open>Device 0 can be reached: the library is loaded, \<^verbatim>\<open>nvmlInit\<close> is there and returns 0, and so does the lookup
  of the handle, with a handle that is not null. \<open>d\<close> is the state of the driver after both calls.\<close>

definition reached :: "'d nvml_world \<Rightarrow> u64 \<Rightarrow> 'd \<Rightarrow> bool" where
  "reached w dev d \<longleftrightarrow> nb_loaded (nw_binding w) \<and>
     (\<exists>init get_handle d0. nb_init (nw_binding w) = Some init \<and> init (nw_driver w) = (0, d0) \<and>
        nb_get_handle (nw_binding w) = Some get_handle \<and> get_handle 0 d0 = (0, dev, d) \<and> dev \<noteq> 0)"

text \<open>A sample is read from device 0 where that can be reached, and empty otherwise.\<close>

lemma cuda_sampleE:
  obtains (quiet) w' where "\<nexists>dev d. reached (binding w) dev d"
      "cuda_sample (c, w) = Inr (empty_sample\<lparr>bs_source := ''nvml''\<rparr>, c, w')"
  | (device) dev d smp d' where "reached (binding w) dev d" "device_said (nw_binding (binding w)) dev d smp d'"
      "cuda_sample (c, w) = Inr (smp, c, (binding w)\<lparr>nw_driver := d'\<rparr>)"
proof (cases "\<exists>dev d. reached (binding w) dev d")
  case True
  then obtain dev d where r: "reached (binding w) dev d" by blast
  obtain smp d' where "read_device (nw_binding (binding w)) dev d = Inr (smp, d')"
      "device_said (nw_binding (binding w)) dev d smp d'"
    using read_device_said [of "nw_binding (binding w)" dev d] by (elim exE conjE) (rule that)
  moreover from this(1) r have "cuda_sample (c, w) = Inr (smp, c, (binding w)\<lparr>nw_driver := d'\<rparr>)"
    by (auto simp: cuda_sample_def reached_def Let_def)
  ultimately show thesis using device r by blast
next
  case False
  then have "\<exists>w'. cuda_sample (c, w) = Inr (empty_sample\<lparr>bs_source := ''nvml''\<rparr>, c, w')"
    by (auto simp: cuda_sample_def reached_def Let_def split: option.split prod.split)
  then show thesis using quiet False by blast
qed

section \<open>Limits\<close>

lemma milliwatts_in_range:
  assumes "Fin 1 \<le> l" "l \<le> Fin 999"
  obtains mw where "uint32_of_double (l * lit 1000) = Inr mw" "1000 \<le> mw" "mw \<le> 999000"
    "\<bar>of_int (uint mw) - 1000 * dval l\<bar> < 2"
proof -
  obtain x where l: "l = Fin x" "1 \<le> x" "x \<le> 999" using assms by (cases l) auto
  have g: "grid64 1000" "grid64 999000" using grid64_int [of 1000] grid64_int [of 999000] by simp_all
  have "Fin 1000 \<le> rnd64 (x * 1000)" using g(1) l(2) by (intro b64.rnd_ge) simp_all
  moreover have "rnd64 (x * 1000) \<le> Fin 999000" using g(2) l(3) by (intro b64.rnd_le) simp_all
  ultimately obtain r where r: "rnd64 (x * 1000) = Fin r" "1000 \<le> r" "r \<le> 999000" by (cases "rnd64 (x * 1000)") auto
  define n where "n = \<lfloor>r\<rfloor>"
  have n: "1000 \<le> n" "n \<le> 999000" "of_int n \<le> r" "r < of_int n + 1"
    using r(2, 3) unfolding n_def by (simp_all add: le_floor_iff floor_le_iff, linarith)
  have close: "\<bar>r - x * 1000\<bar> \<le> max (1 / (2 * fl_scale)) (\<bar>x * 1000\<bar> / 2 ^ 53)"
    using r(1) fl_error [of "x * 1000"] by (simp add: rnd64_Fin)
  have "1 / (2 * fl_scale) \<le> 1 / 2" unfolding fl_scale_def by simp
  moreover have "\<bar>x * 1000\<bar> / 2 ^ 53 \<le> 1 / 2" using l(2, 3) by simp
  ultimately have "max (1 / (2 * fl_scale)) (\<bar>x * 1000\<bar> / 2 ^ 53) \<le> 1 / 2" by (rule max.boundedI)
  with close have "\<bar>r - x * 1000\<bar> \<le> 1 / 2" by (rule order_trans)
  then have near: "\<bar>of_int n - 1000 * x\<bar> < 2" using n(3, 4) by linarith
  have u: "uint (word_of_int n :: u32) = n" using n(1, 2) by (simp add: uint_word_of_int)
  show thesis
  proof (rule that [of "word_of_int n"])
    show "uint32_of_double (l * lit 1000) = Inr (word_of_int n)"
      using r n by (simp add: l(1) uint32_of_double_def trunc_rat_def n_def)
    show "1000 \<le> (word_of_int n :: u32)" "(word_of_int n :: u32) \<le> 999000"
      using n(1, 2) u by (simp_all only: word_le_def) simp_all
    show "\<bar>of_int (uint (word_of_int n :: u32)) - 1000 * dval l\<bar> < 2" using near by (simp only: u l(1) dval_Fin)
  qed
qed

text \<open>A machine whose library is loaded, with a given function for the limit.\<close>

definition with_setter :: "(u64 \<Rightarrow> u32 \<Rightarrow> 'd call) \<Rightarrow> 'd nvml_world \<Rightarrow> 'd nvml_world" where
  "with_setter f w = w\<lparr>nw_tried := True, nw_binding := (nw_binding w)\<lparr>nb_set_limit := Some f\<rparr>\<rparr>"

lemma open_device_setter [simp]: "open_device (b\<lparr>nb_set_limit := f\<rparr>) = open_device b"
  by (rule ext) (simp add: open_device_def split: option.split prod.split)

lemma with_setter_simps [simp]:
  "binding (with_setter f w) = with_setter f w"
  "nb_set_limit (nw_binding (with_setter f w)) = Some f"
  "open_device (nw_binding (with_setter f w)) = open_device (nw_binding w)"
  "nw_driver (with_setter f w) = nw_driver w"
  "(with_setter f w)\<lparr>nw_driver := d\<rparr> = with_setter f (w\<lparr>nw_driver := d\<rparr>)"
  "with_setter f (with_setter g w) = with_setter f w"
  by (simp_all add: with_setter_def binding_def)

text \<open>The call with a valid limit, in closed form: the driver is asked once, for a limit between 1 W and 999 W.\<close>

lemma set_limit_eq:
  "cuda_set_power_limit (Some l) (c, with_setter f w) = rbind (open_device (nw_binding w) (nw_driver w)) (\<lambda>(h, d).
     case h of
       Inl r \<Rightarrow> Inr (r, c, with_setter f (w\<lparr>nw_driver := d\<rparr>))
     | Inr dev \<Rightarrow>
         if Fin 1 \<le> l \<and> l \<le> Fin 999
         then rbind (uint32_of_double (l * lit 1000)) (\<lambda>mw. case f dev mw d of (rc, d) \<Rightarrow>
           Inr (limit_rc rc, if rc = 0 then c\<lparr>cb_applied := Some l\<rparr> else c, with_setter f (w\<lparr>nw_driver := d\<rparr>)))
         else Inr (FAILED, c, with_setter f (w\<lparr>nw_driver := d\<rparr>)))"
proof -
  have valid: "(\<not> isfinite l \<or> l \<le> Fin 0 \<or> lit 999 < l \<or> l < lit 1) \<longleftrightarrow> \<not> (Fin 1 \<le> l \<and> l \<le> Fin 999)"
    by (cases l) auto
  show ?thesis
  proof (cases "open_device (nw_binding w) (nw_driver w)")
    case (Inr hd)
    obtain h d where hd: "hd = (h, d)" by (cases hd)
    show ?thesis
    proof (cases h)
      case (Inr dev)
      with valid show ?thesis
        by (cases "Fin 1 \<le> l \<and> l \<le> Fin 999") (simp_all add: cuda_set_power_limit_def \<open>open_device _ _ = _\<close> hd, fast)
    qed (simp add: cuda_set_power_limit_def \<open>open_device _ _ = _\<close> hd)
  qed (simp add: cuda_set_power_limit_def)
qed

text \<open>The call once the device is open.\<close>

lemma set_limit_cases:
  obtains e where "\<And>f. cuda_set_power_limit (Some l) (c, with_setter f w) = Inl e"
  | r w' where "\<And>f. cuda_set_power_limit (Some l) (c, with_setter f w) = Inr (r, c, with_setter f w')" "r \<noteq> APPLIED"
  | dev mw d where
      "\<And>f. cuda_set_power_limit (Some l) (c, with_setter f w) = (case f dev mw d of (rc, d) \<Rightarrow>
        Inr (limit_rc rc, if rc = 0 then c\<lparr>cb_applied := Some l\<rparr> else c, with_setter f (w\<lparr>nw_driver := d\<rparr>)))"
      "1000 \<le> mw" "mw \<le> 999000" "\<bar>of_int (uint mw) - 1000 * dval l\<bar> < 2"
proof (cases "open_device (nw_binding w) (nw_driver w)")
  case (Inr hd)
  obtain h d where hd: "hd = (h, d)" by (cases hd)
  show thesis
  proof (cases h)
    case (Inl r)
    with \<open>open_device _ _ = _\<close> hd show thesis
      using that(2) [of r "w\<lparr>nw_driver := d\<rparr>"] open_device_not_applied [of "nw_binding w" "nw_driver w" r d]
      by (simp add: set_limit_eq)
  next
    case (Inr dev)
    note opened = \<open>open_device _ _ = _\<close> hd Inr
    show thesis
    proof (cases "Fin 1 \<le> l \<and> l \<le> Fin 999")
      case True
      then obtain mw where mw: "uint32_of_double (l * lit 1000) = Inr mw" "1000 \<le> mw" "mw \<le> 999000"
          "\<bar>of_int (uint mw) - 1000 * dval l\<bar> < 2" by (blast elim: milliwatts_in_range)
      have "cuda_set_power_limit (Some l) (c, with_setter f w) = (case f dev mw d of (rc, d) \<Rightarrow>
        Inr (limit_rc rc, if rc = 0 then c\<lparr>cb_applied := Some l\<rparr> else c, with_setter f (w\<lparr>nw_driver := d\<rparr>)))" for f
        using True mw(1) opened by (simp add: set_limit_eq)
      then show thesis using mw(2-) by (rule that(3))
    next
      case False
      then have "cuda_set_power_limit (Some l) (c, with_setter f w) = Inr (FAILED, c, with_setter f (w\<lparr>nw_driver := d\<rparr>))" for f
        using opened by (auto simp: set_limit_eq)
      then show thesis by (rule that(2)) simp
    qed
  qed
qed (use that(1) in \<open>simp add: set_limit_eq\<close>)

lemma set_none_eq:
  "cuda_set_power_limit None (c, with_setter f w) = map_sum id (\<lambda>(h, d). case h of
     Inl r \<Rightarrow> (r, c, with_setter f (w\<lparr>nw_driver := d\<rparr>))
   | Inr dev \<Rightarrow> (APPLIED, c\<lparr>cb_applied := None\<rparr>, with_setter f (w\<lparr>nw_driver := d\<rparr>)))
     (open_device (nw_binding w) (nw_driver w))"
  by (cases "open_device (nw_binding w) (nw_driver w)") (auto simp: cuda_set_power_limit_def Let_def split: sum.splits)

lemma same_outside_range:
  assumes agree: "\<forall>dev mw d. 1000 \<le> mw \<and> mw \<le> 999000 \<longrightarrow> f dev mw d = g dev mw d"
  shows "map_sum id (\<lambda>(r, c', w'). (r, c', with_setter g w')) (cuda_set_power_limit l (c, with_setter f w)) =
    cuda_set_power_limit l (c, with_setter g w)"
proof (cases l)
  case None
  then show ?thesis
    by (cases "open_device (nw_binding w) (nw_driver w)") (auto simp: set_none_eq split: sum.splits)
next
  case (Some q)
  show ?thesis
  proof (cases rule: set_limit_cases [of q c w])
    case (3 dev mw d)
    then have "f dev mw d = g dev mw d" using agree by blast
    then show ?thesis using 3(1) Some by (cases "g dev mw d") simp
  qed (simp_all add: Some)
qed

lemma applied_was_confirmed:
  assumes "cuda_set_power_limit (Some q) (c, with_setter f w) = Inr (APPLIED, c', w')"
  shows "\<exists>dev mw d. f dev mw d = (0, nw_driver w') \<and> 1000 \<le> mw \<and> mw \<le> 999000 \<and> \<bar>of_int (uint mw) - 1000 * dval q\<bar> < 2"
proof (cases rule: set_limit_cases [of q c w])
  case (3 dev mw d)
  obtain rc d' where "f dev mw d = (rc, d')" by (cases "f dev mw d")
  then have "f dev mw d = (0, nw_driver w')" using assms 3(1) by auto
  with 3 show ?thesis by blast
qed (use assms in auto)

section \<open>The probe\<close>

text \<open>The grid covers every element once: the launch computes the multiply-add element by element.\<close>

lemma saxpy_prefix:
  assumes "length x = n" "length y = n" "k \<le> n"
  shows "fold (pg_saxpy mad a x n) [0..<k] y = map2 (mad a) (take k x) (take k y) @ drop k y"
  using assms(3)
proof (induction k)
  case (Suc k)
  then have k: "k < n" by simp
  have "drop k y = y ! k # drop (Suc k) y" using k assms(2) by (simp add: Cons_nth_drop_Suc)
  moreover have "take (Suc k) x = take k x @ [x ! k]" "take (Suc k) y = take k y @ [y ! k]"
    using k assms(1, 2) by (simp_all add: take_Suc_conv_app_nth)
  ultimately show ?case using Suc k assms(1, 2) by (simp add: pg_saxpy_def nth_append list_update_append)
qed simp

lemma saxpy_past_end: "\<forall>i \<in> set is. n \<le> i \<Longrightarrow> fold (pg_saxpy mad a x n) is y = y"
  by (induction "is" arbitrary: y) (simp_all add: pg_saxpy_def)

lemma launch_saxpy_eq:
  assumes "length x = n" "length y = n" shows "launch_saxpy mad a x n y = map2 (mad a) x y"
proof -
  let ?m = "((n + 255) div 256) * 256"
  have "n \<le> ?m" using div_mult_mod_eq [of "n + 255" 256] mod_less_divisor [of 256 "n + 255"] by linarith
  then have "[0..<?m] = [0..<n] @ [n..<?m]" using upt_add_eq_append [of 0 n "?m - n"] by simp
  then show ?thesis using assms saxpy_prefix [OF assms, of n] by (simp add: launch_saxpy_def saxpy_past_end)
qed

lemma rhe_nonneg: "0 \<le> q \<Longrightarrow> 0 \<le> rhe q"
  using rhe_ge [of 0 q] by simp

lemma fl32_pos_nonneg: "0 \<le> q \<Longrightarrow> 0 \<le> fl32_pos q"
  unfolding fl32_pos_def Let_def by (intro divide_nonneg_pos mult_nonneg_nonneg) (simp_all add: rhe_nonneg)

lemma tolerance_nonneg: "\<not> to_float (rnd64 (1 / 10000)) < Fin 0"
proof -
  have "Fin 0 \<le> rnd64 (1 / 10000)" by (rule b64.rnd_nonneg) simp
  then show ?thesis
    by (cases "rnd64 (1 / 10000)") (auto simp: to_float_def rnd32_def Let_def not_less intro: order_trans [OF _ fl32_pos_nonneg])
qed

lemma not_less_NaN [simp]: "\<not> t < NaN"
  by (cases t) (simp_all add: less_double_def)

lemma to_float_zero [simp]: "to_float (Fin 0) = Fin 0"
  using rhe_of_int [of 0] by (simp add: to_float_def rnd32_def fl32_pos_def)

lemma same_within_tolerance: "\<not> to_float (rnd64 (1 / 10000)) < abs64 (to_float (h - h))"
  using tolerance_nonneg by (cases h) (simp_all add: minus_double_def to_float_def [of NaN] abs64_def)

text \<open>A device that rounds like the host passes the probe. So does a device that returns NaN everywhere: the
  comparison with the tolerance is false for NaN.\<close>

lemma exact_device_verifies:
  assumes "rt_copies_x rt" "rt_copies_y rt" "rt_launches rt" "rt_copies_back rt" "rt_mad rt = host_mad"
  shows "run_saxpy rt n x_d y_d"
  using assms same_within_tolerance
  by (simp add: run_saxpy_def Let_def launch_saxpy_eq probe_x_def probe_verified_def list_all2_same)

lemma nan_device_verifies:
  assumes "rt_copies_x rt" "rt_copies_y rt" "rt_launches rt" "rt_copies_back rt" "rt_mad rt = (\<lambda>_ _ _. NaN)"
  shows "run_saxpy rt n x_d y_d"
proof -
  have nan: "\<not> t < abs64 (to_float (NaN - r))" for t r
    by (simp add: minus_double_def to_float_def abs64_def)
  show ?thesis using assms nan
    by (simp add: run_saxpy_def Let_def launch_saxpy_eq probe_x_def probe_verified_def list_all2_conv_all_nth)
qed

text \<open>The code NVML documents for a missing permission is 4, which does not have the tested bit.\<close>

lemma no_permission_reported_as_failure: "limit_rc 4 = FAILED"
  by (simp add: limit_rc_def)

section \<open>A device\<close>

text \<open>A device that knows only its power limit: the entry points the control calls use.\<close>

definition demo_library :: "u32 nvml_library" where
  "demo_library = \<lparr>nvmlInit_v2 = Some (\<lambda>d. (0, d)), nvmlShutdown = None,
     nvmlDeviceGetHandleByIndex_v2 = Some (\<lambda>i d. (0, 1, d)), nvmlDeviceGetName = None,
     nvmlDeviceGetPowerUsage = Some (\<lambda>h d. (0, 92000, d)), nvmlDeviceGetTemperature = None, nvmlDeviceGetClockInfo = None,
     nvmlDeviceGetUtilizationRates = None, nvmlDeviceGetMemoryInfo = None,
     nvmlDeviceSetPowerManagementLimit = Some (\<lambda>h mw d. (0, mw)),
     nvmlDeviceGetPowerManagementLimit = Some (\<lambda>h d. (0, d, d))\<rparr>"

definition demo_world :: "u32 nvml_world" where "demo_world = new_world (Some demo_library) 600000"

definition demo_nvidia :: nvidia_backend where
  "demo_nvidia = \<lparr>cb_caps = default_capabilities, cb_name = ''gpu'', cb_compute_major = 12, cb_compute_minor = 0, cb_applied = None\<rparr>"

lemmas demo_cuda_defs = demo_library_def demo_world_def demo_nvidia_def new_world_def binding_def nvml_load_def

section \<open>Properties\<close>

text \<open>C25: A sample never fails, carries nothing the driver did not report and leaves out nothing it did report. It is
  empty exactly where device 0 cannot be reached: the library, \<^verbatim>\<open>nvmlInit\<close> or the handle lookup is missing, or
  one of the two calls fails or yields a null handle. Otherwise the six entry points that are there are
  called on that handle one after the other; every field is the converted value of a call that returned 0, and
  a field is missing only where the entry point is or where its call returned another code. A sample never
  carries an energy reading or a throttling flag, and the power is marked as measured exactly when it is
  there.\<close>

theorem cuda_sample_authentic:
  "\<exists>smp w'. cuda_sample (c, w) = Inr (smp, c, w') \<and>
     (if \<exists>dev d. reached (binding w) dev d
      then \<exists>dev d. reached (binding w) dev d \<and> device_said (nw_binding (binding w)) dev d smp (nw_driver w')
      else smp = empty_sample\<lparr>bs_source := ''nvml''\<rparr>)"
  by (rule cuda_sampleE [of w c]) auto

text \<open>C15: The driver is never asked for a limit below 1 W or above 999 W: the outcome of a call, the driver state it
  leaves included, is the same for any two limit functions that agree between 1000 mW and 999000 mW. Where
  \<open>APPLIED\<close> is returned for a limit, the driver was asked for that limit, to within 2 mW, and returned 0.\<close>

theorem cuda_limit_guarded:
  assumes "\<forall>dev mw d. 1000 \<le> mw \<and> mw \<le> 999000 \<longrightarrow> f dev mw d = g dev mw d"
  shows "map_sum id (\<lambda>(r, c', w'). (r, c', with_setter g w')) (cuda_set_power_limit l (c, with_setter f w)) =
      cuda_set_power_limit l (c, with_setter g w) \<and>
    (\<forall>q c' w'. l = Some q \<longrightarrow> cuda_set_power_limit l (c, with_setter f w) = Inr (APPLIED, c', w') \<longrightarrow>
      (\<exists>dev mw d. f dev mw d = (0, nw_driver w') \<and> 1000 \<le> mw \<and> mw \<le> 999000 \<and> \<bar>of_int (uint mw) - 1000 * dval q\<bar> < 2))"
  using same_outside_range [OF assms] applied_was_confirmed by blast

theorem cuda_limit_guarded_witness:
  "\<exists>c' w'. cuda_set_power_limit (Some (Fin 300)) (demo_nvidia, with_setter (\<lambda>h mw d. (0, mw)) (binding demo_world)) = Inr (APPLIED, c', w') \<and>
     (\<exists>dev mw d. (0 :: u32, mw) = (0, nw_driver w') \<and> 1000 \<le> mw \<and> mw \<le> (999000 :: u32))"
proof -
  have "\<exists>c' w'. cuda_set_power_limit (Some (Fin 300)) (demo_nvidia, with_setter (\<lambda>h mw d. (0, mw)) (binding demo_world)) = Inr (APPLIED, c', w')"
    by (simp add: set_limit_eq demo_cuda_defs open_device_def uint32_of_double_def trunc_rat_def limit_rc_def)
  then show ?thesis
    using cuda_limit_guarded [of "\<lambda>h mw d. (0, mw)" "\<lambda>h mw d. (0, mw)" "Some (Fin 300)" demo_nvidia "binding demo_world"] by auto
qed

text \<open>Restoring the limit is reported as applied although the driver is not told: on a machine where \<^verbatim>\<open>nvmlInit\<close> and the
  handle lookup succeed and leave the limit in force alone, \<^verbatim>\<open>restore_power_limit\<close> and \<^verbatim>\<open>set_power_limit\<close> without a limit
  return \<open>APPLIED\<close> and report no applied limit, while the limit in force in the driver is what it was.\<close>

lemma cuda_restore_unconfirmed:
  fixes lim :: "'d \<Rightarrow> u32"
  assumes "nb_set_limit b \<noteq> None" "nb_get_limit b \<noteq> None" "nb_init b = Some init" "nb_get_handle b = Some gh"
    and "\<forall>d. \<exists>d'. init d = (0, d') \<and> lim d' = lim d"
    and "\<forall>i d. \<exists>dev d'. gh i d = (0, dev, d') \<and> lim d' = lim d"
    and "nw_tried w" "nw_binding w = b"
  shows "\<forall>call \<in> {cuda_restore_power_limit, cuda_set_power_limit None}.
    \<exists>c' w'. call (c, w) = Inr (APPLIED, c', w') \<and> cuda_applied_limit (c', w') = None \<and> lim (nw_driver w') = lim (nw_driver w)"
proof -
  have b: "binding w = w" using assms(7) by (simp add: binding_def)
  obtain d dev d' where "init (nw_driver w) = (0, d)" "lim d = lim (nw_driver w)" "gh 0 d = (0, dev, d')" "lim d' = lim d"
    using assms(5, 6) by metis
  then have "open_device b (nw_driver w) = Inr (Inr dev, d')" "lim d' = lim (nw_driver w)"
    using assms(3, 4) by (simp_all add: open_device_def)
  with assms(1, 2, 8) b show ?thesis
    by (auto simp: cuda_restore_power_limit_def cuda_set_power_limit_def cuda_applied_limit_def Let_def)
qed

lemma cuda_restore_unconfirmed_witness:
  "\<exists>c' w'. cuda_restore_power_limit (demo_nvidia\<lparr>cb_applied := Some (Fin 300)\<rparr>, (binding demo_world)\<lparr>nw_driver := 300000\<rparr>) = Inr (APPLIED, c', w') \<and>
     cuda_applied_limit (c', w') = None \<and> nw_driver w' = 300000"
  using cuda_restore_unconfirmed [of "nw_binding (binding demo_world)" "\<lambda>d. (0, d)" "\<lambda>i d. (0, 1, d)" "\<lambda>d. d"
      "(binding demo_world)\<lparr>nw_driver := 300000\<rparr>" "demo_nvidia\<lparr>cb_applied := Some (Fin 300)\<rparr>"]
  by (simp add: demo_cuda_defs)

end
