(* ===== verification/Sockets.thy ===== *)
theory Sockets
  imports Transport
begin

text \<open>
  Opening connections (\<^verbatim>\<open>net.hpp\<close>): the start of the socket library, the listener and the connecting socket.
  The calls of Windows are parameters on the state \<open>'s\<close> of the operating system; \<open>None\<close> stands for
  \<^verbatim>\<open>INVALID_SOCKET\<close>, and a Boolean tells whether a call succeeded.
\<close>

record 's winsock =
  WSAStartup :: "'s \<Rightarrow> bool \<times> 's"
  ws_socket :: "'s \<Rightarrow> nat option \<times> 's"
  ws_bind :: "nat \<Rightarrow> string \<Rightarrow> u16 \<Rightarrow> 's \<Rightarrow> bool \<times> 's"
  ws_listen :: "nat \<Rightarrow> nat \<Rightarrow> 's \<Rightarrow> bool \<times> 's"
  ws_accept :: "nat \<Rightarrow> 's \<Rightarrow> nat option \<times> 's"
  ws_connect :: "nat \<Rightarrow> string \<Rightarrow> u16 \<Rightarrow> 's \<Rightarrow> bool \<times> 's"
  closesocket :: "nat \<Rightarrow> 's \<Rightarrow> 's"

text \<open>The static flag \<^verbatim>\<open>done\<close> and the operating system.\<close>

type_synonym 's net = "bool \<times> 's"

definition pg_net_init :: "'s winsock \<Rightarrow> 's net \<Rightarrow> bool \<times> 's net" where
  "pg_net_init os n = (case n of (started, s) \<Rightarrow>
     if started then (True, n)
     else case WSAStartup os s of (r, s) \<Rightarrow> if r then (True, True, s) else (False, False, s))"

definition close_socket :: "'s winsock \<Rightarrow> nat option \<Rightarrow> 's net \<Rightarrow> 's net" where
  "close_socket os k n = (case k of None \<Rightarrow> n | Some k \<Rightarrow> (fst n, closesocket os k (snd n)))"

definition listener_listen :: "'s winsock \<Rightarrow> string \<Rightarrow> u16 \<Rightarrow> 's net \<Rightarrow> bool \<times> nat option \<times> 's net" where
  "listener_listen os host port n = (case pg_net_init os n of (ready, b, s) \<Rightarrow>
     if \<not> ready then (False, None, b, s)
     else case ws_socket os s of
       (None, s) \<Rightarrow> (False, None, b, s)
     | (Some k, s) \<Rightarrow> (case ws_bind os k host port s of (bound, s) \<Rightarrow>
         if \<not> bound then (False, None, close_socket os (Some k) (b, s))
         else (case ws_listen os k 16 s of (up, s) \<Rightarrow>
           if \<not> up then (False, None, close_socket os (Some k) (b, s)) else (True, Some k, b, s))))"

definition listener_accept :: "'s winsock \<Rightarrow> nat \<Rightarrow> 's net \<Rightarrow> nat option \<times> 's net" where
  "listener_accept os k n = (case ws_accept os k (snd n) of (peer, s) \<Rightarrow> (peer, fst n, s))"

definition listener_close :: "'s winsock \<Rightarrow> nat option \<Rightarrow> 's net \<Rightarrow> nat option \<times> 's net" where
  "listener_close os k n = (None, close_socket os k n)"

definition connect_socket :: "'s winsock \<Rightarrow> string \<Rightarrow> u16 \<Rightarrow> 's net \<Rightarrow> nat option \<times> 's net" where
  "connect_socket os host port n = (case pg_net_init os n of (ready, b, s) \<Rightarrow>
     if \<not> ready then (None, b, s)
     else case ws_socket os s of
       (None, s) \<Rightarrow> (None, b, s)
     | (Some k, s) \<Rightarrow> (case ws_connect os k host port s of (joined, s) \<Rightarrow>
         if \<not> joined then (None, close_socket os (Some k) (b, s)) else (Some k, b, s)))"

section \<open>No socket is left open\<close>

text \<open>\<open>held s\<close> are the sockets the process has open; \<^verbatim>\<open>socket\<close> opens one, \<^verbatim>\<open>closesocket\<close> closes one, and the other
  calls open or close none.\<close>

definition tracks :: "'s winsock \<Rightarrow> ('s \<Rightarrow> nat set) \<Rightarrow> bool" where
  "tracks os held \<longleftrightarrow>
     (\<forall>s. held (snd (WSAStartup os s)) = held s) \<and>
     (\<forall>s. case ws_socket os s of (k, s') \<Rightarrow> held s' = (case k of None \<Rightarrow> held s | Some k \<Rightarrow> insert k (held s)) \<and>
        (\<forall>i. k = Some i \<longrightarrow> i \<notin> held s)) \<and>
     (\<forall>k h p s. held (snd (ws_bind os k h p s)) = held s) \<and> (\<forall>k q s. held (snd (ws_listen os k q s)) = held s) \<and>
     (\<forall>k h p s. held (snd (ws_connect os k h p s)) = held s) \<and> (\<forall>k s. held (closesocket os k s) = held s - {k})"

lemma held_init: "tracks os held \<Longrightarrow> pg_net_init os (b, s) = (r, b', s') \<Longrightarrow> held s' = held s"
  by (auto simp: tracks_def pg_net_init_def split: prod.splits if_splits) (metis snd_conv)+

lemma held_calls:
  assumes "tracks os held"
  shows "ws_socket os s = (Some k, s1) \<Longrightarrow> held s1 = insert k (held s) \<and> k \<notin> held s"
    "ws_socket os s = (None, s1) \<Longrightarrow> held s1 = held s" "ws_bind os k h p s = (b, s1) \<Longrightarrow> held s1 = held s"
    "ws_listen os k q s = (b, s1) \<Longrightarrow> held s1 = held s" "ws_connect os k h p s = (b, s1) \<Longrightarrow> held s1 = held s"
    "held (closesocket os k s) = held s - {k}"
  using assms unfolding tracks_def by (metis (mono_tags, lifting) case_prod_conv option.simps(4, 5) snd_conv)+

lemma listen_leaves_no_socket:
  assumes "tracks os held" "listener_listen os host port (b0, s0) = (up, k, b', s')"
  shows "held s' = (case k of None \<Rightarrow> held s0 | Some k \<Rightarrow> insert k (held s0)) \<and> (up \<longleftrightarrow> k \<noteq> None)"
proof -
  note c = held_calls [OF assms(1)]
  obtain ready b s1 where 1: "pg_net_init os (b0, s0) = (ready, b, s1)" by (cases "pg_net_init os (b0, s0)") auto
  obtain j s2 where 2: "ws_socket os s1 = (j, s2)" by force
  show ?thesis
  proof (cases j)
    case None
    then show ?thesis using assms(2) held_init [OF assms(1) 1] c(2) [of s1 s2] 1 2
      by (auto simp: listener_listen_def split: if_splits)
  next
    case (Some i)
    obtain bound s3 where 3: "ws_bind os i host port s2 = (bound, s3)" by force
    obtain l s4 where 4: "ws_listen os i 16 s3 = (l, s4)" by force
    show ?thesis using assms(2) held_init [OF assms(1) 1] c(1) [of s1 i s2] c(3) [OF 3] c(4) [OF 4] 1 2 3 4 Some
      by (auto simp: listener_listen_def close_socket_def c(6) split: if_splits)
  qed
qed

lemma connect_leaves_no_socket:
  assumes "tracks os held" "connect_socket os host port (b0, s0) = (k, b', s')"
  shows "held s' = (case k of None \<Rightarrow> held s0 | Some k \<Rightarrow> insert k (held s0))"
proof -
  note c = held_calls [OF assms(1)]
  obtain ready b s1 where 1: "pg_net_init os (b0, s0) = (ready, b, s1)" by (cases "pg_net_init os (b0, s0)") auto
  obtain j s2 where 2: "ws_socket os s1 = (j, s2)" by force
  show ?thesis
  proof (cases j)
    case None
    then show ?thesis using assms(2) held_init [OF assms(1) 1] c(2) [of s1 s2] 1 2
      by (auto simp: connect_socket_def split: if_splits)
  next
    case (Some i)
    obtain joined s3 where 3: "ws_connect os i host port s2 = (joined, s3)" by force
    show ?thesis using assms(2) held_init [OF assms(1) 1] c(1) [of s1 i s2] c(5) [OF 3] 1 2 3 Some
      by (auto simp: connect_socket_def close_socket_def c(6) split: if_splits)
  qed
qed

end
