(* ===== verification/Console.thy ===== *)
theory Console
  imports Worker
begin

text \<open>
  The text side of \<^verbatim>\<open>tools/distributed.cpp\<close>: the command lines of a worker and of the coordinator's control
  loop, the loops over the standard input and the argument lists of the two entry points. What is
  emitted is a list of lines; the sockets are those of Transport.
\<close>

section \<open>Worker commands\<close>

datatype parsed_cmd = Quit | BadArgs string | Command worker_cmd | UnknownCmd

definition bad_args :: "string \<Rightarrow> parsed_cmd" where "bad_args w = BadArgs (w @ '': bad args'')"

definition parse_worker_line :: "string \<Rightarrow> parsed_cmd res" where
  "parse_worker_line cmd =
     (if starts_with ''quit'' cmd then Inr Quit
      else if starts_with ''observe '' cmd then
        rbind (sscanf ''observe'' [LD, LD] cmd) (\<lambda>as. Inr (case as of
          [SD mw, SD centi] \<Rightarrow> Command (Observe mw centi) | _ \<Rightarrow> bad_args ''observe''))
      else if starts_with ''reserve '' cmd then
        rbind (sscanf ''reserve'' [LLU, LD] cmd) (\<lambda>as. Inr (case as of
          [SU b, SD mw] \<Rightarrow> Command (Reserve b mw) | _ \<Rightarrow> bad_args ''reserve''))
      else if starts_with ''activate '' cmd then
        rbind (sscanf ''activate'' [LLU, LLU, LD] cmd) (\<lambda>as. Inr (case as of
          [SU r, SU b, SD mw] \<Rightarrow> Command (Activate r b mw) | _ \<Rightarrow> bad_args ''activate''))
      else if starts_with ''release '' cmd then
        rbind (sscanf ''release'' [LLU, LLU, LD] cmd) (\<lambda>as. Inr (case as of
          [SU r, SU b, SD mw] \<Rightarrow> Command (Release r b mw) | _ \<Rightarrow> bad_args ''release''))
      else if starts_with ''decision '' cmd then
        rbind (sscanf ''decision'' [LLU, LD] cmd) (\<lambda>as. Inr (case as of
          [SU b, SD mw] \<Rightarrow> Command (Decide b mw) | _ \<Rightarrow> bad_args ''decision''))
      else if starts_with ''stale_observe '' cmd then
        rbind (sscanf ''stale_observe'' [LLU, LLU, LD] cmd) (\<lambda>as. Inr (case as of
          [SU e, SU bt, SD mw] \<Rightarrow> Command (StaleObserve e bt mw) | _ \<Rightarrow> bad_args ''stale_observe''))
      else if starts_with ''stale_reserve '' cmd then
        rbind (sscanf ''stale_reserve'' [LLU, LLU, LLU, LD] cmd) (\<lambda>as. Inr (case as of
          [SU e, SU bt, SU b, SD mw] \<Rightarrow> Command (StaleReserve e bt b mw) | _ \<Rightarrow> bad_args ''stale_reserve''))
      else if starts_with ''stale_release '' cmd then
        rbind (sscanf ''stale_release'' [LLU, LLU, LLU, LLU, LD] cmd) (\<lambda>as. Inr (case as of
          [SU e, SU bt, SU r, SU b, SD mw] \<Rightarrow> Command (StaleRelease e bt r b mw) | _ \<Rightarrow> bad_args ''stale_release''))
      else Inr UnknownCmd)"

fun cmd_word :: "worker_cmd \<Rightarrow> string" where
  "cmd_word (Observe mw centi) = ''observe''"
| "cmd_word (Reserve b mw) = ''reserve''"
| "cmd_word (Activate rid b mw) = ''activate''"
| "cmd_word (Release rid b mw) = ''release''"
| "cmd_word (Decide b mw) = ''decision''"
| "cmd_word (StaleObserve e bt mw) = ''stale_observe''"
| "cmd_word (StaleReserve e bt b mw) = ''stale_reserve''"
| "cmd_word (StaleRelease e bt rid b mw) = ''stale_release''"

text \<open>A command sends its frame and reports the answer; the socket calls are parameters. The result is whether
  the loop goes on, the lines emitted and the state of the worker and its connection.\<close>

type_synonym 's session = "bool \<times> string list \<times> worker_ctx \<times> 's"

definition run_command ::
  "(bytes \<Rightarrow> 's \<Rightarrow> nat \<times> 's) \<Rightarrow> (nat \<Rightarrow> 's \<Rightarrow> bytes \<times> 's) \<Rightarrow> worker_cmd \<Rightarrow> worker_ctx \<Rightarrow> 's \<Rightarrow> 's session res" where
  "run_command send recv c w s = (case worker_dispatch c w of (f, w) \<Rightarrow> rbind f (\<lambda>f.
     case send_frame send f s of
       (Inl e, s) \<Rightarrow> Inl e
     | (Inr sent, s) \<Rightarrow>
         if \<not> sent then Inr (False, [cmd_word c @ '': closed''], w, s)
         else case recv_frame recv s of
           (None, s) \<Rightarrow> Inr (False, [cmd_word c @ '': connection closed''], w, s)
         | (Some r, s) \<Rightarrow> Inr (True, [worker_report c r], w, s)))"

definition worker_line ::
  "(bytes \<Rightarrow> 's \<Rightarrow> nat \<times> 's) \<Rightarrow> (nat \<Rightarrow> 's \<Rightarrow> bytes \<times> 's) \<Rightarrow> string \<Rightarrow> worker_ctx \<Rightarrow> 's \<Rightarrow> 's session res" where
  "worker_line send recv line w s = rbind (parse_worker_line line) (\<lambda>l. case l of
     Quit \<Rightarrow> Inr (False, [], w, s)
   | BadArgs t \<Rightarrow> Inr (True, [t], w, s)
   | UnknownCmd \<Rightarrow> Inr (True, [''unknown cmd''], w, s)
   | Command c \<Rightarrow> run_command send recv c w s)"

definition worker_register ::
  "(bytes \<Rightarrow> 's \<Rightarrow> nat \<times> 's) \<Rightarrow> (nat \<Rightarrow> 's \<Rightarrow> bytes \<times> 's) \<Rightarrow> worker_ctx \<Rightarrow> 's \<Rightarrow> 's session res" where
  "worker_register send recv w s = rbind (register_frame w) (\<lambda>f.
     case send_frame send f s of
       (Inl e, s) \<Rightarrow> Inl e
     | (Inr sent, s) \<Rightarrow>
         if \<not> sent then Inr (False, [], w, s)
         else case recv_frame recv s of
           (None, s) \<Rightarrow> Inr (False, [], w, s)
         | (Some r, s) \<Rightarrow> (case decode_ack r of
             None \<Rightarrow> Inr (False, [''REGISTER rejected: malformed''], w, s)
           | Some a \<Rightarrow> (case adopt_epoch a w of
               None \<Rightarrow> Inr (False, [''REGISTER rejected: '' @ ack_message a], w, s)
             | Some w \<Rightarrow> Inr (True, [''REGISTER ok: '' @ ack_message a], w, s))))"

text \<open>The loop over commands: it stops at the first one that returns false.\<close>

fun worker_lines ::
  "(bytes \<Rightarrow> 's \<Rightarrow> nat \<times> 's) \<Rightarrow> (nat \<Rightarrow> 's \<Rightarrow> bytes \<times> 's) \<Rightarrow> string list \<Rightarrow> worker_ctx \<Rightarrow> 's \<Rightarrow>
   (string list \<times> worker_ctx \<times> 's) res" where
  "worker_lines send recv [] w s = Inr ([], w, s)"
| "worker_lines send recv (l # ls) w s = rbind (worker_line send recv l w s) (\<lambda>(go, out, w, s).
     if go then rbind (worker_lines send recv ls w s) (\<lambda>(more_out, w, s). Inr (out @ more_out, w, s))
     else Inr (out, w, s))"

definition worker_run ::
  "(bytes \<Rightarrow> 's \<Rightarrow> nat \<times> 's) \<Rightarrow> (nat \<Rightarrow> 's \<Rightarrow> bytes \<times> 's) \<Rightarrow> worker_ctx \<Rightarrow> string list \<Rightarrow> 's \<Rightarrow>
   (bool \<times> string list \<times> 's) res" where
  "worker_run send recv w cmds s = rbind (worker_register send recv w s) (\<lambda>(registered, out, w, s).
     if \<not> registered then Inr (False, out, s)
     else rbind (worker_lines send recv cmds w s) (\<lambda>(out2, w, s). Inr (True, out @ out2, s)))"

section \<open>Arguments\<close>

record worker_options =
  wo_host :: string
  wo_port :: u16
  wo_worker :: worker_id
  wo_boot :: worker_boot_id
  wo_node :: node_id

definition default_options :: worker_options where
  "default_options = \<lparr>wo_host = ''127.0.0.1'', wo_port = 0, wo_worker = StrongId 1, wo_boot = StrongId 1, wo_node = StrongId 1\<rparr>"

text \<open>\<^verbatim>\<open>HOST:PORT\<close> is split at the first colon; a value without one is ignored. The port is cut to 16 bits.\<close>

definition set_coordinator :: "string \<Rightarrow> worker_options \<Rightarrow> worker_options res" where
  "set_coordinator v o0 = (case dropWhile (\<lambda>c. c \<noteq> CHR '':'') v of
     [] \<Rightarrow> Inr o0
   | _ # p \<Rightarrow> rbind (stoi p) (\<lambda>n. Inr (o0\<lparr>wo_host := takeWhile (\<lambda>c. c \<noteq> CHR '':'') v, wo_port := word_of_int n\<rparr>)))"

text \<open>The loop over \<^verbatim>\<open>argv[1 .. argc-1]\<close>: an option takes the next argument, anything else is skipped; the last argument
  is only ever a value.\<close>

fun worker_args :: "string list \<Rightarrow> worker_options \<Rightarrow> worker_options res" where
  "worker_args (a # v # rest) o0 =
     (if a = ''--coordinator'' then rbind (set_coordinator v o0) (\<lambda>o1. worker_args rest o1)
      else if a = ''--boot'' then rbind (stoull v) (\<lambda>n. worker_args rest (o0\<lparr>wo_boot := StrongId n\<rparr>))
      else if a = ''--node'' then rbind (stoull v) (\<lambda>n. worker_args rest (o0\<lparr>wo_node := StrongId n\<rparr>))
      else if a = ''--worker'' then rbind (stoull v) (\<lambda>n. worker_args rest (o0\<lparr>wo_worker := StrongId n\<rparr>))
      else worker_args (v # rest) o0)"
| "worker_args _ o0 = Inr o0"

fun coordinator_args :: "string list \<Rightarrow> u16 \<Rightarrow> u16 res" where
  "coordinator_args (a # v # rest) port =
     (if a = ''--port'' then rbind (stoi v) (\<lambda>n. coordinator_args rest (word_of_int n))
      else coordinator_args (v # rest) port)"
| "coordinator_args _ port = Inr port"

text \<open>The worker's entry point: arguments, connection, registration and the loop over the non-empty input lines.
  \<open>connect\<close> is \<^verbatim>\<open>connect_socket\<close>; the result is the exit code and the output.\<close>

definition run_worker_main ::
  "(string \<Rightarrow> u16 \<Rightarrow> 's option) \<Rightarrow> (bytes \<Rightarrow> 's \<Rightarrow> nat \<times> 's) \<Rightarrow> (nat \<Rightarrow> 's \<Rightarrow> bytes \<times> 's) \<Rightarrow> string list \<Rightarrow> string \<Rightarrow>
   (int \<times> string list) res" where
  "run_worker_main connect send recv args input = rbind (worker_args args default_options) (\<lambda>opts.
     if wo_port opts = 0 then Inr (1, [''ERROR no port''])
     else case connect (wo_host opts) (wo_port opts) of
       None \<Rightarrow> Inr (1, [''ERROR connect''])
     | Some s \<Rightarrow> rbind (worker_register send recv (new_worker (wo_worker opts) (wo_boot opts) (wo_node opts)) s)
         (\<lambda>(registered, out, w, s).
           if \<not> registered then Inr (1, out)
           else rbind (worker_lines send recv (filter (\<lambda>l. l \<noteq> []) (input_lines input)) w s)
             (\<lambda>(out2, w, s). Inr (0, out @ out2))))"

section \<open>The control loop of the coordinator\<close>

datatype parsed_control = CtlQuit | CtlBad string | CtlSave string | Ctl control | CtlUnknown

definition parse_control_line :: "string \<Rightarrow> parsed_control res" where
  "parse_control_line line =
     (if starts_with ''install_budget '' line then
        rbind (sscanf ''install_budget'' [LLU, LLU, LF, LF] line) (\<lambda>as. Inr (case as of
          [SU i, SU p, SF h, SF s] \<Rightarrow> Ctl (InstallBudget i p h s) | _ \<Rightarrow> CtlBad ''BAD install_budget''))
      else if starts_with ''set_policy '' line then
        rbind (sscanf ''set_policy'' [LF] line) (\<lambda>as. Inr (case as of
          [SF cap] \<Rightarrow> Ctl (SetPolicy cap) | _ \<Rightarrow> CtlBad ''BAD set_policy''))
      else if starts_with ''roll_epoch'' line then Inr (Ctl RollEpoch)
      else if starts_with ''snapshot'' line then Inr (Ctl ControlSnapshot)
      else if starts_with ''save '' line then Inr (CtlSave (drop 5 line))
      else if starts_with ''quit'' line then Inr CtlQuit
      else Inr CtlUnknown)"

text \<open>One line: whether the loop goes on, what is emitted, and the state; an exception ends the process.\<close>

definition control_line ::
  "write_outcome \<Rightarrow> timestamp \<Rightarrow> string \<Rightarrow> file_system \<times> coord \<Rightarrow> (bool \<times> string list) res \<times> file_system \<times> coord" where
  "control_line io clk line s = (case s of (fs, cs) \<Rightarrow> (case parse_control_line line of
     Inl e \<Rightarrow> (Inl e, fs, cs)
   | Inr CtlQuit \<Rightarrow> (Inr (False, []), fs, cs)
   | Inr CtlUnknown \<Rightarrow> (Inr (True, [''unknown control'']), fs, cs)
   | Inr (CtlBad t) \<Rightarrow> (Inr (True, [t]), fs, cs)
   | Inr (CtlSave path) \<Rightarrow> (case control_save io clk path (fs, cs) of
       (r, fs, cs) \<Rightarrow> (rbind r (\<lambda>t. Inr (True, [t])), fs, cs))
   | Inr (Ctl c) \<Rightarrow> (case control_step clk c cs of (r, cs) \<Rightarrow> (rbind r (\<lambda>t. Inr (True, [t])), fs, cs))))"

text \<open>The loop; \<open>ios\<close> gives the outcome of the file operations at each line, and the clock never moves.\<close>

fun control_loop ::
  "timestamp \<Rightarrow> (write_outcome \<times> string) list \<Rightarrow> file_system \<times> coord \<Rightarrow> string list res \<times> file_system \<times> coord" where
  "control_loop clk [] s = (Inr [], s)"
| "control_loop clk ((io, l) # ls) s = (case control_line io clk l s of
     (Inl e, s) \<Rightarrow> (Inl e, s)
   | (Inr (go, out), s) \<Rightarrow>
       if go then (case control_loop clk ls s of (r, s) \<Rightarrow> (rbind r (\<lambda>out2. Inr (out @ out2)), s))
       else (Inr out, s))"

text \<open>The coordinator up to its worker threads: \<open>listens\<close> tells whether the listener came up. The result is the exit
  code and the output.\<close>

definition coordinator_loop ::
  "(u16 \<Rightarrow> bool) \<Rightarrow> (nat \<Rightarrow> write_outcome) \<Rightarrow> governor_id \<Rightarrow> id_counters \<Rightarrow> u16 \<Rightarrow> string \<Rightarrow> file_system \<Rightarrow>
   (int \<times> string list) res \<times> file_system" where
  "coordinator_loop listens ios gid ids port input fs =
     (if \<not> listens port then (Inr (1, [''LISTEN_FAIL'']), fs)
      else let ls = input_lines input
        in case control_loop 0 (zip (map ios [0..<length ls]) ls) (fs, new_coord gid ids) of
             (r, fs, cs) \<Rightarrow> (rbind r (\<lambda>out. Inr (0, (''READY '' @ dec_digits (unat port)) # out)), fs))"

definition run_coordinator_main ::
  "(u16 \<Rightarrow> bool) \<Rightarrow> (nat \<Rightarrow> write_outcome) \<Rightarrow> governor_id \<Rightarrow> id_counters \<Rightarrow> string list \<Rightarrow> string \<Rightarrow> file_system \<Rightarrow>
   (int \<times> string list) res \<times> file_system" where
  "run_coordinator_main listens ios gid ids args input fs = (case coordinator_args args 0 of
     Inl e \<Rightarrow> (Inl e, fs)
   | Inr port \<Rightarrow>
       if port = 0 then (Inr (1, [''ERROR no port'']), fs) else coordinator_loop listens ios gid ids port input fs)"

section \<open>Commands written down are read back\<close>

fun show_arg :: "scanned \<Rightarrow> string" where
  "show_arg (SU u) = dec_digits (unat u)"
| "show_arg (SD v) = show_int v"
| "show_arg (SF x) = format_f x"

fun conversion_of :: "scanned \<Rightarrow> conversion" where
  "conversion_of (SU u) = LLU"
| "conversion_of (SD v) = LD"
| "conversion_of (SF x) = LF"

text \<open>An integer argument of a type that holds it.\<close>

fun fits :: "scanned \<Rightarrow> bool" where
  "fits (SU u) = True"
| "fits (SD v) = (- (2 ^ 31) \<le> v \<and> v < 2 ^ 31)"
| "fits (SF x) = False"

definition show_args :: "scanned list \<Rightarrow> string" where
  "show_args as = concat (map (\<lambda>a. CHR '' '' # show_arg a) as)"

fun cmd_args :: "worker_cmd \<Rightarrow> scanned list" where
  "cmd_args (Observe mw centi) = [SD mw, SD centi]"
| "cmd_args (Reserve b mw) = [SU b, SD mw]"
| "cmd_args (Activate rid b mw) = [SU rid, SU b, SD mw]"
| "cmd_args (Release rid b mw) = [SU rid, SU b, SD mw]"
| "cmd_args (Decide b mw) = [SU b, SD mw]"
| "cmd_args (StaleObserve e bt mw) = [SU e, SU bt, SD mw]"
| "cmd_args (StaleReserve e bt b mw) = [SU e, SU bt, SU b, SD mw]"
| "cmd_args (StaleRelease e bt rid b mw) = [SU e, SU bt, SU rid, SU b, SD mw]"

definition show_cmd :: "worker_cmd \<Rightarrow> string" where
  "show_cmd c = cmd_word c @ show_args (cmd_args c)"

lemma show_args_Cons [simp]: "show_args (a # as) = CHR '' '' # show_arg a @ show_args as" and show_args_Nil [simp]: "show_args [] = []"
  by (simp_all add: show_args_def)

lemma show_args_ends: "ends_number (show_args as)"
  by (cases as) (simp_all add: ends_number_def is_digit_def)

lemma scan_one_show:
  assumes "fits a" "ends_number t" shows "scan_one (conversion_of a) (CHR '' '' # show_arg a @ t) = Inr (Some (a, t))"
proof -
  have i: "scan_int (CHR '' '' # show_int v @ t) = Some (v, t)" for v
    using scan_int_show [OF assms(2), of "[CHR '' '']" v] by (simp add: is_space_def)
  show ?thesis
  proof (cases a)
    case (SU u)
    have "dec_digits (unat u) = show_int (uint u)" by (simp add: show_int_def)
    moreover have "\<bar>uint u\<bar> < 2 ^ 64" using uint_bounded [of u] by simp
    ultimately show ?thesis using i [of "uint u"] SU by simp
  next
    case (SD v)
    then show ?thesis using i [of v] assms(1) by simp
  qed (use assms(1) in simp)
qed

lemma scan_args_show: "\<forall>a \<in> set as. fits a \<Longrightarrow> scan_args (map conversion_of as) (show_args as) = Inr as"
  by (induction as) (simp_all add: scan_one_show show_args_ends del: scan_one.simps)

definition plain :: "string \<Rightarrow> bool" where
  "plain s \<longleftrightarrow> (\<forall>c \<in> set s. c \<noteq> CHR 0x00 \<and> c \<noteq> CHR 0x0A)"

lemma plain_append [simp]: "plain (s @ t) \<longleftrightarrow> plain s \<and> plain t" and plain_Nil [simp]: "plain []"
  and plain_Cons [simp]: "plain (c # s) \<longleftrightarrow> c \<noteq> CHR 0x00 \<and> c \<noteq> CHR 0x0A \<and> plain s"
  by (auto simp: plain_def)

lemma plain_dec [simp]: "plain (dec_digits n)"
  using digits_value_dec [of n] by (fastforce simp: plain_def is_digit_def)

lemma plain_show_args: "\<forall>a \<in> set as. fits a \<Longrightarrow> plain (show_args as)"
proof (induction as)
  case (Cons a as)
  then show ?case by (cases a) (simp_all add: show_int_def)
qed simp

lemma c_str_plain: "plain s \<Longrightarrow> c_str s = s"
  by (simp add: c_str_def plain_def)

lemma sscanf_show:
  assumes "plain w" "\<forall>a \<in> set as. fits a"
  shows "sscanf w (map conversion_of as) (w @ show_args as) = Inr as"
  using assms by (simp add: sscanf_def c_str_plain plain_show_args starts_with_def scan_args_show)

lemma parse_show_cmd:
  assumes "\<forall>a \<in> set (cmd_args c). fits a" shows "parse_worker_line (show_cmd c) = Inr (Command c)"
proof -
  have "plain (cmd_word c)" by (cases c) simp_all
  from sscanf_show [OF this assms]
  have "sscanf (cmd_word c) (map conversion_of (cmd_args c)) (show_cmd c) = Inr (cmd_args c)" by (simp add: show_cmd_def)
  then show ?thesis by (cases c) (simp_all add: parse_worker_line_def show_cmd_def starts_with_def)
qed

lemma input_lines_script:
  "\<forall>l \<in> set ls. CHR 0x0A \<notin> set l \<Longrightarrow> input_lines (concat (map (\<lambda>l. l @ [CHR 0x0A]) ls)) = ls"
  by (induction ls) (simp_all add: input_lines_split)

lemma plain_show_cmd: "\<forall>a \<in> set (cmd_args c). fits a \<Longrightarrow> plain (show_cmd c)"
  using plain_show_args [of "cmd_args c"] by (cases c) (simp_all add: show_cmd_def)

text \<open>The two control lines with numbers, in whole watts.\<close>

lemma scan_LLU_dec: "ends_number t \<Longrightarrow> scan_one LLU (CHR '' '' # dec_digits (unat u) @ t) = Inr (Some (SU u, t))"
  using scan_one_show [of "SU u" t] by simp

lemma scan_LF_dec: "ends_field t \<Longrightarrow> scan_one LF (CHR '' '' # dec_digits n @ t) = Inr (Some (SF (rnd64 (of_nat n)), t))"
  by (simp add: scan_double_dec)

lemma parse_install_budget:
  "parse_control_line (''install_budget '' @ dec_digits (unat i) @ '' '' @ dec_digits (unat p) @ '' '' @ dec_digits h @ '' '' @ dec_digits s)
     = Inr (Ctl (InstallBudget i p (rnd64 (of_nat h)) (rnd64 (of_nat s))))"
proof -
  have e: "ends_number (CHR '' '' # t)" "ends_field (CHR '' '' # t)" "ends_field []" for t
    by (simp_all add: ends_number_def ends_field_def is_digit_def)
  have "scan_args [LLU, LLU, LF, LF] (CHR '' '' # dec_digits (unat i) @ CHR '' '' # dec_digits (unat p) @ CHR '' '' # dec_digits h @ CHR '' '' # dec_digits s)
      = Inr [SU i, SU p, SF (rnd64 (of_nat h)), SF (rnd64 (of_nat s))]"
    using scan_LF_dec [OF e(3), of s] by (simp add: e scan_LLU_dec scan_LF_dec del: scan_one.simps)
  then show ?thesis by (simp add: parse_control_line_def starts_with_def sscanf_def c_str_plain)
qed

lemma parse_set_policy: "parse_control_line (''set_policy '' @ dec_digits n) = Inr (Ctl (SetPolicy (rnd64 (of_nat n))))"
proof -
  have "scan_one LF (CHR '' '' # dec_digits n) = Inr (Some (SF (rnd64 (of_nat n)), []))"
    using scan_LF_dec [of "[]" n] by (simp add: ends_field_def)
  then show ?thesis by (simp add: parse_control_line_def starts_with_def sscanf_def c_str_plain del: scan_one.simps)
qed

text \<open>A negative cap is a number for \<^verbatim>\<open>sscanf\<close> and an exception for the quantity: the control thread, and with it the
  process, ends.\<close>

lemma negative_policy_ends_coordinator:
  "fst (control_line io clk ''set_policy -1'' (fs, cs)) = Inl InvalidArgument"
proof -
  have "parse_control_line ''set_policy -1'' = Inr (Ctl (SetPolicy (Fin (- 1))))"
    by (simp add: parse_control_line_def starts_with_def sscanf_def c_str_def scan_double_def is_space_def split_sign_def
        lower_def scan_decimal_def scan_mantissa_def is_digit_def scan_exponent_def base_value_def hex_value_def rpow_def)
  moreover have "Watts (Fin (- 1)) = Inl InvalidArgument" by (simp add: Quantity_power_eq)
  ultimately show ?thesis by (simp add: control_line_def control_policy_def split: prod.split)
qed

text \<open>C16: A script of worker commands survives its text form. The commands of a script, each written as its word and its
  decimal arguments on a line of its own, are read back by \<^verbatim>\<open>read_line\<close> and \<^verbatim>\<open>sscanf\<close> as the same commands
  in the same order, for all 64-bit identifiers and all amounts a 32-bit \<^verbatim>\<open>long\<close> holds.\<close>

theorem worker_script_roundtrip:
  assumes "\<forall>c \<in> set cs. \<forall>a \<in> set (cmd_args c). fits a"
  shows "map parse_worker_line (input_lines (concat (map (\<lambda>c. show_cmd c @ [CHR 0x0A]) cs))) = map (\<lambda>c. Inr (Command c)) cs"
proof -
  have "\<forall>l \<in> set (map show_cmd cs). CHR 0x0A \<notin> set l" using assms plain_show_cmd by (fastforce simp: plain_def)
  from input_lines_script [OF this] have "input_lines (concat (map (\<lambda>c. show_cmd c @ [CHR 0x0A]) cs)) = map show_cmd cs"
    by (simp add: comp_def)
  then show ?thesis using assms parse_show_cmd by simp
qed

theorem worker_script_roundtrip_witness:
  "map parse_worker_line (input_lines (concat (map (\<lambda>c. show_cmd c @ [CHR 0x0A]) [Observe 92000 (- 5), Reserve 2 100000]))) =
     [Inr (Command (Observe 92000 (- 5))), Inr (Command (Reserve 2 100000))]"
  using worker_script_roundtrip [of "[Observe 92000 (- 5), Reserve 2 100000]"] by simp

end
