(* ===== verification/Values.thy ===== *)
theory Values
  imports Decision Scan
begin

text \<open>
  What the value types offer beside their construction: the assigning operators and comparisons of
  \<^verbatim>\<open>units.hpp\<close>, the equality operators of a policy and a decision, and the printed forms of quantities,
  durations and time points.
\<close>

section \<open>Assignment and comparison\<close>

text \<open>\<^verbatim>\<open>+=\<close> and \<^verbatim>\<open>-=\<close> store the result as it is, without the validation of the constructor.\<close>

definition q_add_assign :: "double \<Rightarrow> double \<Rightarrow> double" where "q_add_assign x y = x + y"
definition q_sub_assign :: "double \<Rightarrow> double \<Rightarrow> double" where "q_sub_assign x y = x - y"

definition q_eq :: "double \<Rightarrow> double \<Rightarrow> bool" where "q_eq x y \<longleftrightarrow> eq64 x y"

definition q_opt_eq :: "double option \<Rightarrow> double option \<Rightarrow> bool" where
  "q_opt_eq x y = (case (x, y) of (Some a, Some b) \<Rightarrow> q_eq a b | (None, None) \<Rightarrow> True | _ \<Rightarrow> False)"

definition energy_window_eq :: "energy_window \<Rightarrow> energy_window \<Rightarrow> bool" where
  "energy_window_eq a b \<longleftrightarrow> q_eq (ew_budget a) (ew_budget b) \<and> ew_window a = ew_window b \<and> ew_enforce a = ew_enforce b"

definition burst_limits_eq :: "burst_limits \<Rightarrow> burst_limits \<Rightarrow> bool" where
  "burst_limits_eq a b \<longleftrightarrow> q_eq (bl_allowance a) (bl_allowance b) \<and> bl_window a = bl_window b \<and>
     bl_refill a = bl_refill b \<and> bl_enabled a = bl_enabled b"

definition oversubscription_eq :: "oversubscription_policy \<Rightarrow> oversubscription_policy \<Rightarrow> bool" where
  "oversubscription_eq a b \<longleftrightarrow> os_allowed a = os_allowed b \<and>
     eq64 (max_overcommit_factor a) (max_overcommit_factor b) \<and> require_authority a = require_authority b"

definition policy_eq :: "power_policy \<Rightarrow> power_policy \<Rightarrow> bool" where
  "policy_eq p o1 \<longleftrightarrow> pol_id p = pol_id o1 \<and> pol_generation p = pol_generation o1 \<and> pol_name p = pol_name o1 \<and>
     q_opt_eq (fleet_hard_cap p) (fleet_hard_cap o1) \<and> q_opt_eq (node_hard_cap p) (node_hard_cap o1) \<and>
     q_opt_eq (device_hard_cap p) (device_hard_cap o1) \<and> q_opt_eq (pol_soft_target p) (pol_soft_target o1) \<and>
     energy_window_eq (energy_window p) (energy_window o1) \<and> burst_limits_eq (burst_limits p) (burst_limits o1) \<and>
     default_priority p = default_priority o1 \<and> eq64 (min_reserve_fraction p) (min_reserve_fraction o1) \<and>
     oversubscription_eq (oversubscription p) (oversubscription o1) \<and> degraded_mode p = degraded_mode o1 \<and>
     hardware_controls p = hardware_controls o1 \<and> observation_freshness p = observation_freshness o1 \<and>
     observation_stale p = observation_stale o1 \<and> observation_expired p = observation_expired o1 \<and>
     min_stable_duration p = min_stable_duration o1 \<and> decision_hysteresis p = decision_hysteresis o1 \<and>
     recovery_threshold p = recovery_threshold o1"

definition decision_eq :: "decision \<Rightarrow> decision \<Rightarrow> bool" where
  "decision_eq d o1 \<longleftrightarrow> dec_verdict d = dec_verdict o1 \<and> q_opt_eq (recommended_limit d) (recommended_limit o1) \<and>
     dec_generation d = dec_generation o1 \<and> dec_digest d = dec_digest o1"

section \<open>The clock of the system\<close>

text \<open>\<^verbatim>\<open>SystemClock::now\<close> converts a reading of the operating system to nanoseconds; the number of ticks it has counted and
  the length of a tick in nanoseconds are what the standard library reports.\<close>

definition system_clock_now :: "int \<Rightarrow> int \<Rightarrow> timestamp res" where
  "system_clock_now tick_ns ticks = signed64 (ticks * tick_ns)"

definition ts_seconds_f :: "timestamp \<Rightarrow> double" where
  "ts_seconds_f t = double_of_int t / lit 1000000000"

text \<open>Between two readings that lie in order the clock measures exactly the ticks that have passed.\<close>

lemma system_clock_elapsed:
  assumes "system_clock_now p a = Inr s" "system_clock_now p b = Inr t" "ts_ok s" "ts_ok t" "a \<le> b" "0 \<le> p"
  shows "elapsed_since t s = Inr ((b - a) * p)"
  using assms mult_right_mono [OF assms(5,6)]
  by (auto simp: system_clock_now_def left_diff_distrib dest!: signed64_Inr)

section \<open>Printed forms\<close>

definition quantity_string :: "unit_tag \<Rightarrow> double \<Rightarrow> string" where
  "quantity_string tag v = format_f v @ unit_name tag"

definition duration_string :: "duration \<Rightarrow> string" where
  "duration_string d = format_f (double_of_int d / lit 1000000000) @ ''s''"

definition timestamp_string :: "timestamp \<Rightarrow> string" where
  "timestamp_string t = (if t = 0 then ''never'' else show_int t @ ''ns'')"

section \<open>What the operators tell apart\<close>

lemma eq64_Fin [simp]: "eq64 (Fin a) (Fin b) \<longleftrightarrow> a = b"
  by (auto simp: eq64_def)

lemma eq64_refl: "eq64 x x \<longleftrightarrow> x \<noteq> NaN"
  by (cases x) (simp_all add: eq64_def less_eq_double_def)

text \<open>Two policies that differ in their class rules and thermal thresholds compare equal.\<close>

lemma policy_eq_ignores_rules:
  assumes "policy_eq p p" shows "policy_eq p (p\<lparr>class_rules := rules, thermal_thresholds := th\<rparr>)"
  using assms by (simp add: policy_eq_def)

lemma default_policy_eq: "policy_eq (policy_defaults pid nm) (policy_defaults pid nm)"
proof -
  have "rnd64 (1 / 10) \<noteq> NaN" "rnd64 1 \<noteq> NaN" by simp_all
  then show ?thesis
    by (simp add: policy_eq_def policy_defaults_def empty_policy_def q_opt_eq_def energy_window_eq_def burst_limits_eq_def
        oversubscription_eq_def default_energy_window_def default_burst_limits_def default_oversubscription_def q_eq_def eq64_refl)
qed

text \<open>A quantity of power can be taken below zero by \<^verbatim>\<open>-=\<close>, where \<^verbatim>\<open>-\<close> ends the program.\<close>

lemma sub_assign_negative: "q_sub_assign (Fin 1) (Fin 2) = Fin (- 1)" "q_sub WattsTag (Fin 1) (Fin 2) = Inl Terminate"
  by (simp_all add: q_sub_assign_def q_sub_def Quantity_power_eq noexcept_def)

text \<open>The printed form of a time point is unique.\<close>

lemma timestamp_string_inj: "timestamp_string t = timestamp_string u \<Longrightarrow> t = u"
proof -
  have n: "scan_int (show_int v @ ''ns'') = Some (v, ''ns'')" for v
    using scan_int_show [of "''ns''" "[]" v] by (simp add: ends_number_def is_digit_def)
  have "scan_int ''never'' = None" by (simp add: scan_int_def split_sign_def is_space_def is_digit_def)
  with n show "timestamp_string t = timestamp_string u \<Longrightarrow> t = u"
    by (metis (no_types) timestamp_string_def option.distinct(1) option.inject prod.inject)
qed

end
