(* ===== verification/Command_Line.thy ===== *)
theory Command_Line
  imports Console Recovery Values
begin

text \<open>
  The command-line program \<^verbatim>\<open>tools/main.cpp\<close>: one process sets up a governor with a fixed policy, two budgets and
  the fake backend, executes one command and ends. The result of a run is the exit code with the
  printed lines, or the exception that ends the process, beside the file system.
\<close>

section \<open>Formats\<close>

text \<open>The \<^verbatim>\<open>%.kf\<close> format: \<open>k\<close> decimals of the exact value, rounded to nearest with ties to even.\<close>

definition format_fixed :: "nat \<Rightarrow> double \<Rightarrow> string" where
  "format_fixed k x = (case x of
     Fin q \<Rightarrow> (let n = nat (rhe (\<bar>q\<bar> * 10 ^ k)); fs = dec_digits (n mod 10 ^ k)
       in (if q < 0 then ''-'' else '''') @ dec_digits (n div 10 ^ k) @
          (if k = 0 then [] else ''.'' @ replicate (k - length fs) (CHR ''0'') @ fs))
   | PInf \<Rightarrow> ''inf''
   | NInf \<Rightarrow> ''-inf''
   | NaN \<Rightarrow> ''nan'')"

section \<open>The process\<close>

text \<open>The static allocators of a new process; the first governor identifier goes to the configuration.\<close>

definition first_ids :: id_counters where
  "first_ids = \<lparr>next_policy = 1, next_reservation = 1, next_observation = 1, next_decision = 1\<rparr>"

definition cli_clock :: timestamp where "cli_clock = 1000000000"

definition cli_config :: governor_config where
  "cli_config = \<lparr>cfg_id = StrongId 1, cfg_node = StrongId 1, cfg_boot = StrongId 1, cfg_epoch = gen_first\<rparr>"

definition cli_policy :: "policy_id \<Rightarrow> power_policy" where
  "cli_policy pid = (policy_defaults pid ''default'')\<lparr>device_hard_cap := Some (Fin 402),
     fleet_hard_cap := Some (Fin 5000), pol_generation := gen_first\<rparr>"

definition plain_budget :: "u64 \<Rightarrow> u64 \<Rightarrow> budget_id option \<Rightarrow> watts \<Rightarrow> string \<Rightarrow> power_budget" where
  "plain_budget i domn par h nm = \<lparr>bud_id = StrongId i, bud_generation = gen_first, bud_domain = StrongId domn,
     bud_policy_generation = gen_null, bud_parent = par, bud_name = nm, hard_max = h, soft_target = Fin 0,
     min_reserve = Fin 0, burst_allowance = Fin 0, burst_window = 0, recovery = 500000000, bud_priority = 50,
     authoritative = True\<rparr>"

definition node_budget :: power_budget where "node_budget = plain_budget 1 1 None (Fin 450) ''node-budget''"
definition acc_budget :: power_budget where
  "acc_budget = plain_budget 2 2 (Some (bud_id node_budget)) (Fin 402) ''acc-budget''"

text \<open>The governor after the set-up, or none where the policy is refused; the answers to the budgets are ignored.\<close>

definition cli_governor :: "governor option" where
  "cli_governor =
     (let g = new_governor cli_config first_ids;
          (pid, c) = allocate (next_policy (gov_ids g));
          g = g\<lparr>gov_ids := (gov_ids g)\<lparr>next_policy := c\<rparr>\<rparr>
      in case install_policy cli_clock (cli_policy pid) g of
           (False, g) \<Rightarrow> None
         | (True, g) \<Rightarrow>
             let g = snd (install_budget cli_clock node_budget g)
             in Some (snd (install_budget cli_clock acc_budget g)))"

definition cli_backend :: fake_backend where
  "cli_backend = fb_set_utilization (lit (13 / 100)) (fb_set_temperature (Fin 37) (fb_set_power (Fin 92) new_fake))"

definition polls :: "string \<Rightarrow> bool" where
  "polls cmd \<longleftrightarrow> cmd \<in> {''power'', ''thermal'', ''snapshot'', ''decision'', ''explain''}"

definition cli_poll :: "string \<Rightarrow> governor \<Rightarrow> governor res" where
  "cli_poll cmd g = (if polls cmd
     then (case poll cli_clock (fb_capabilities cli_backend) (fb_sample cli_backend) cli_clock g of
             (Inl e, _) \<Rightarrow> Inl e | (Inr _, g) \<Rightarrow> Inr g)
     else Inr g)"

definition usage :: "string list" where
  "usage = [''usage: powergovernor <command> [args]'',
     ''commands: devices power thermal policy budgets reserve release decision explain'',
     ''         energy efficiency burst history snapshot save recover benchmark'',
     ''         run-worker run-coordinator version team'']"

section \<open>Commands\<close>

type_synonym printed = "(int \<times> string list) res"

definition prints :: "string list \<Rightarrow> printed" where "prints out = Inr (0, out)"

definition cmd_devices :: printed where
  "cmd_devices = (let c = fb_capabilities cli_backend in prints
     [''device: NVIDIA GeForce RTX 5090 (compute_cap 12.0 / sm_120)'',
      ''power_observe='' @ capability_to_string (cap_power_observe c) @
      '' power_control='' @ capability_to_string (cap_power_control c) @
      '' temperature='' @ capability_to_string (cap_temperature c) @
      '' utilization='' @ capability_to_string (cap_utilization c)])"

definition cmd_power :: "governor \<Rightarrow> printed" where
  "cmd_power g = prints
     ((case bs_power (fb_sample cli_backend) of Some p \<Rightarrow> [''power: '' @ format_fixed 1 p @ '' W''] | None \<Rightarrow> []) @
      [''total energy: '' @ format_fixed 3 (total_energy g) @ '' J''])"

definition cmd_policy :: "governor \<Rightarrow> printed" where
  "cmd_policy g = (let p = current_policy g in prints
     [''policy gen='' @ gen_string (pol_generation p) @ '' device_cap='' @
      (case device_hard_cap p of Some w \<Rightarrow> quantity_string WattsTag w | None \<Rightarrow> ''none'')])"

definition cli_decide :: "watts \<Rightarrow> governor \<Rightarrow> decision res" where
  "cli_decide req g = rbind (decide_for (StrongId 2) (StrongId 1) THROUGHPUT req (Fin 0) (Fin 1) cli_clock g) (\<lambda>(d, _). Inr d)"

definition cmd_decision :: "string list \<Rightarrow> governor \<Rightarrow> printed" where
  "cmd_decision args g = rbind (Watts (case args of a # _ \<Rightarrow> atof a | [] \<Rightarrow> Fin 250)) (\<lambda>req.
     rbind (cli_decide req g) (\<lambda>d. prints
       [''decision: '' @ decision_to_string (dec_verdict d), ''json: '' @ dec_json d, ''digest: '' @ dec_digest d]))"

definition cmd_explain :: "governor \<Rightarrow> printed" where
  "cmd_explain g = rbind (cli_decide (Fin 250) g) (\<lambda>d. prints
     [''why: '' @ why (explanation d), ''what_would_change: '' @ what_would_change (explanation d),
      ''binding_kind: '' @ binding_kind (explanation d)])"

definition cmd_history :: "governor \<Rightarrow> printed" where
  "cmd_history g = prints (map (\<lambda>e. dec_digits (unat (seq e)) @ '' '' @ change_to_string (ce_kind e) @ '' '' @ change_entry.message e)
     (entries (gov_history g)))"

definition state_file :: "string list \<Rightarrow> string" where
  "state_file args = (case args of f # _ \<Rightarrow> f | [] \<Rightarrow> ''state.bin'')"

definition cmd_save :: "write_outcome \<Rightarrow> string list \<Rightarrow> governor \<Rightarrow> file_system \<Rightarrow> printed \<times> file_system" where
  "cmd_save io args g fs = (case g_save io cli_clock (state_file args) (fs, g) of (r, fs, _) \<Rightarrow>
     (rbind r (\<lambda>saved. prints [''save '' @ state_file args @ '' -> '' @ (if saved then ''ok'' else ''failed'')]), fs))"

definition cmd_recover :: "read_outcome \<Rightarrow> string list \<Rightarrow> governor \<Rightarrow> file_system \<Rightarrow> printed" where
  "cmd_recover io args g fs = rbind (fst (g_load io cli_clock (state_file args) fs g)) (\<lambda>loaded.
     prints [''recover '' @ state_file args @ '' -> '' @ (if loaded then ''ok'' else ''failed'')])"

definition demo_command ::
  "write_outcome \<Rightarrow> read_outcome \<Rightarrow> string \<Rightarrow> string list \<Rightarrow> governor \<Rightarrow> file_system \<Rightarrow> printed \<times> file_system" where
  "demo_command wio rio cmd args g fs =
     (if cmd = ''devices'' then (cmd_devices, fs)
      else if cmd = ''power'' then (cmd_power g, fs)
      else if cmd = ''thermal'' then (prints [''thermal: NORMAL (synthetic)''], fs)
      else if cmd = ''policy'' then (cmd_policy g, fs)
      else if cmd = ''budgets'' then (prints [''budget 1 node-budget hard_max=450W'', ''budget 2 acc-budget hard_max=402W (parent=1)''], fs)
      else if cmd = ''decision'' then (cmd_decision args g, fs)
      else if cmd = ''explain'' then (cmd_explain g, fs)
      else if cmd = ''energy'' then (prints [''energy total: '' @ format_fixed 3 (total_energy g) @ '' J''], fs)
      else if cmd = ''efficiency'' then (prints [''efficiency: Joules/request not available without a work counter''], fs)
      else if cmd = ''burst'' then (prints [''burst: disabled by default policy''], fs)
      else if cmd = ''history'' then (cmd_history g, fs)
      else if cmd = ''snapshot'' then (rbind (state_digest g) (\<lambda>d. prints [''state digest: '' @ d]), fs)
      else if cmd = ''save'' then cmd_save wio args g fs
      else if cmd = ''recover'' then (cmd_recover rio args g fs, fs)
      else if cmd = ''benchmark'' then (prints [''run: powergovernor_bench (see benchmarks/)''], fs)
      else (Inr (1, usage), fs))"

text \<open>\<^verbatim>\<open>main\<close> on \<^verbatim>\<open>argv[1..]\<close>; the two distributed entry points get the whole argument list.\<close>

definition main ::
  "(string list \<Rightarrow> file_system \<Rightarrow> printed \<times> file_system) \<Rightarrow> (string list \<Rightarrow> printed) \<Rightarrow>
   write_outcome \<Rightarrow> read_outcome \<Rightarrow> string list \<Rightarrow> file_system \<Rightarrow> printed \<times> file_system" where
  "main coordinator worker wio rio argv fs = (case argv of
     [] \<Rightarrow> (Inr (1, usage), fs)
   | cmd # args \<Rightarrow>
       if cmd = ''run-coordinator'' then coordinator argv fs
       else if cmd = ''run-worker'' then (worker argv, fs)
       else if cmd = ''version'' then (prints [''Power Governor 1.0.0''], fs)
       else if cmd = ''team'' then (prints [''Summon Software Labs''], fs)
       else case cli_governor of
         None \<Rightarrow> (Inr (1, [''error: policy install failed'']), fs)
       | Some g \<Rightarrow> (case cli_poll cmd g of
           Inl e \<Rightarrow> (Inl e, fs)
         | Inr g \<Rightarrow> demo_command wio rio cmd args g fs))"

definition powergovernor ::
  "(u16 \<Rightarrow> bool) \<Rightarrow> (nat \<Rightarrow> write_outcome) \<Rightarrow> (string \<Rightarrow> u16 \<Rightarrow> 's option) \<Rightarrow> (bytes \<Rightarrow> 's \<Rightarrow> nat \<times> 's) \<Rightarrow>
   (nat \<Rightarrow> 's \<Rightarrow> bytes \<times> 's) \<Rightarrow> read_outcome \<Rightarrow> string list \<Rightarrow> string \<Rightarrow> file_system \<Rightarrow> printed \<times> file_system" where
  "powergovernor listens ios connect send recv rio argv input fs =
     main (\<lambda>args fs. run_coordinator_main listens ios (StrongId 1) first_ids args input fs)
       (\<lambda>args. run_worker_main connect send recv args input) (ios 0) rio argv fs"

end
