(* ===== verification/Fresh_Decisions.thy ===== *)
theory Fresh_Decisions
  imports Governor_Safety
begin

text \<open>
  The decision a governor takes about one device with current telemetry: what the engine is asked, and how the
  tolerance of its comparisons decides on whole watts. The programs that take single decisions rest on it.
\<close>

section \<open>The tolerance on whole numbers\<close>

lemma grid64_numeral [simp]: "(numeral n :: int) \<le> 2 ^ 53 \<Longrightarrow> grid64 (numeral n)"
  using grid64_int [of "numeral n"] by simp

lemma within_tolerance: "grid64 b \<Longrightarrow> b \<le> a \<Longrightarrow> Fin b \<le> Fin a + eps9"
  using eps9_bounds(1) by (auto simp: eps9_Fin intro!: b64.rnd_ge)

lemma over_tolerance:
  assumes "grid64 b" "a + 1 \<le> b" "b < c" shows "Fin a + eps9 < Fin c"
proof -
  have "rnd64 (a + eps9_val) \<le> Fin b" using assms(1,2) eps9_bounds(2) by (intro b64.rnd_le) simp_all
  then show ?thesis using assms(3) by (cases "rnd64 (a + eps9_val)") (auto simp: eps9_Fin)
qed

lemma tolerance_numeral [simp]:
  "(numeral b :: rat) \<le> numeral a \<Longrightarrow> (numeral b :: int) \<le> 2 ^ 53 \<Longrightarrow> Fin (numeral b) \<le> Fin (numeral a) + eps9"
  "(numeral b :: rat) \<le> numeral a \<Longrightarrow> (numeral b :: int) \<le> 2 ^ 53 \<Longrightarrow> \<not> Fin (numeral a) + eps9 < Fin (numeral b)"
  "(numeral a :: rat) + 1 < numeral b \<Longrightarrow> (numeral a :: int) + 1 \<le> 2 ^ 53 \<Longrightarrow> Fin (numeral a) + eps9 < Fin (numeral b)"
proof -
  have le: "Fin (numeral b) \<le> Fin (numeral a) + eps9" if "(numeral b :: rat) \<le> numeral a" "(numeral b :: int) \<le> 2 ^ 53"
    by (rule within_tolerance [OF grid64_numeral [OF that(2)] that(1)])
  then show "(numeral b :: rat) \<le> numeral a \<Longrightarrow> (numeral b :: int) \<le> 2 ^ 53 \<Longrightarrow> Fin (numeral b) \<le> Fin (numeral a) + eps9" .
  show "\<not> Fin (numeral a) + eps9 < Fin (numeral b)" if "(numeral b :: rat) \<le> numeral a" "(numeral b :: int) \<le> 2 ^ 53"
    using le [OF that] by (cases "Fin (numeral a) + eps9") (simp_all only: double_simps double_le_inf double_less_inf not_less not_True_eq_False not_False_eq_True)
  show "Fin (numeral a) + eps9 < Fin (numeral b)" if "(numeral a :: rat) + 1 < numeral b" "(numeral a :: int) + 1 \<le> 2 ^ 53"
  proof (rule over_tolerance [OF _ order_refl that(1)])
    have "\<bar>numeral a + 1\<bar> \<le> (2 :: int) ^ 53" using that(2) by (simp only: abs_of_nonneg add_nonneg_nonneg zero_le_numeral zero_le_one)
    from grid64_int [OF this] show "grid64 (numeral a + 1)" by (simp only: of_int_add of_int_numeral of_int_1)
  qed
qed

lemma above_eps [simp]: "\<not> Fin (numeral a) \<le> eps9"
  using eps9_bounds(2) one_le_numeral [of a, where 'a = rat] by (simp add: eps9_Fin del: one_le_numeral)

section \<open>The input of a decision\<close>

text \<open>With one device that has current telemetry and no burst budget, the input is what the policy, the device and the
  budget chain say, and the device is left as it is.\<close>

lemma fresh_input:
  assumes "gov_devices g = [(k, D)]" "freshness_of (gov_policy g) (Some D) now = Inr CURRENT"
    "hardware_ceiling (gov_policy g) (Some D) = Inr cap" "thermal_ceiling D cap = Inr tc"
    "rbind (average_power (dev_power_window D)) Watts = Inr avg" "\<not> bl_enabled (limits (dev_burst D))"
    "Joules (req * std_max dur (lit 0)) = Inr j"
  obtains inp where "decision_input_for g b c req en dur now = Inr (inp, Some D)" "di_policy_current inp"
    "di_power_freshness inp = CURRENT" "di_thermal_known inp = (th_state (dev_thermal D) \<noteq> TS_UNKNOWN)"
    "di_thermal_state inp = th_state (dev_thermal D)" "di_soft_target inp = pol_soft_target (gov_policy g)" "\<not> di_burst_available inp"
    "hard_limit inp = consider_cap tc ''thermal'' (consider_cap
       (if is_valid b \<and> has (gov_budgets g) b then Some (available (gov_budgets g) b) else None) ''budget''
         (consider_cap cap ''device_hard_cap'' (None, '''')))"
    "di_requested_power inp = req" "di_policy inp = gov_policy g" "di_requested_energy inp = en"
proof -
  let ?base = "base_input (gov_policy g) c req en dur cap"
  have "\<exists>inp. device_input (gov_policy g) D req dur now ?base = Inr (inp, D) \<and>
      di_power_freshness inp = CURRENT \<and> di_thermal_known inp = (th_state (dev_thermal D) \<noteq> TS_UNKNOWN) \<and>
      di_thermal_state inp = th_state (dev_thermal D) \<and> \<not> di_burst_available inp \<and> di_hardware_cap inp = cap \<and>
      di_budget_available inp = None \<and> di_thermal_ceiling inp = tc \<and> di_requested_power inp = req \<and>
      di_policy inp = gov_policy g \<and> di_requested_energy inp = en \<and> di_policy_current inp \<and> di_soft_target inp = None"
    using assms(2-) by (simp add: device_input_def Let_def can_burst_def burst_utilization_def base_input_def default_input_def)
  then obtain inp where i: "device_input (gov_policy g) D req dur now ?base = Inr (inp, D)"
      "di_power_freshness inp = CURRENT" "di_thermal_known inp = (th_state (dev_thermal D) \<noteq> TS_UNKNOWN)"
      "di_thermal_state inp = th_state (dev_thermal D)" "\<not> di_burst_available inp" "di_hardware_cap inp = cap"
      "di_budget_available inp = None" "di_thermal_ceiling inp = tc" "di_requested_power inp = req"
      "di_policy inp = gov_policy g" "di_requested_energy inp = en" "di_policy_current inp" "di_soft_target inp = None" by blast
  let ?inp = "complete_input g b True inp"
  have "decision_input_for g b c req en dur now = Inr (?inp, Some D)"
    using assms(1,3) i(1) by (simp add: decision_input_for_def device_ptr_def Let_def)
  moreover have "di_policy_current ?inp" "di_power_freshness ?inp = CURRENT" "di_thermal_known ?inp = (th_state (dev_thermal D) \<noteq> TS_UNKNOWN)"
      "di_thermal_state ?inp = th_state (dev_thermal D)" "di_soft_target ?inp = pol_soft_target (gov_policy g)" "\<not> di_burst_available ?inp"
      "di_requested_power ?inp = req" "di_policy ?inp = gov_policy g" "di_requested_energy ?inp = en"
      "hard_limit ?inp = consider_cap tc ''thermal'' (consider_cap
         (if is_valid b \<and> has (gov_budgets g) b then Some (available (gov_budgets g) b) else None) ''budget''
           (consider_cap cap ''device_hard_cap'' (None, '''')))"
    using i(2-) by (simp_all add: complete_input_def budget_input_def Let_def hard_limit_def)
  ultimately show thesis using that by blast
qed

text \<open>A judgement becomes the decision; the governor keeps everything else.\<close>

lemma decide_judged:
  assumes "decision_input_for g b c req en dur now = Inr (inp, Some D)" "gov_devices g = [(k, D)]"
    "judge inp now (gov_engine g) = Inr (v, rs, l, bk)"
  obtains d g' where "decide_for b wl c req en dur now g = Inr (d, g')" "dec_verdict d = v" "recommended_limit d = l" "reasons d = rs"
    "gov_devices g' = gov_devices g" "gov_policy g' = gov_policy g" "gov_budgets g' = gov_budgets g"
proof -
  have "\<exists>d g'. decide_for b wl c req en dur now g = Inr (d, g') \<and> dec_verdict d = v \<and> recommended_limit d = l \<and> reasons d = rs \<and>
      gov_devices g' = gov_devices g \<and> gov_policy g' = gov_policy g \<and> gov_budgets g' = gov_budgets g"
    using assms by (simp add: decide_for_def evaluate_def make_verdict_def allocate_def put_first_device_def Let_def)
  then show thesis by (elim exE conjE) (rule that)
qed

end
