(* ===== verification/Command_Line_Proofs.thy ===== *)
theory Command_Line_Proofs
  imports Command_Line Fresh_Decisions
begin

text \<open>
  What the command-line program prints: the decision command for every request, and what becomes of a
  state that one run saves and another recovers.
\<close>

section \<open>The governor of the program\<close>

definition cli_budgets :: budget_manager where
  "cli_budgets = [(StrongId 1, \<lparr>cfg = node_budget, reserved = Fin 0, used = Fin 0\<rparr>),
     (StrongId 2, \<lparr>cfg = acc_budget, reserved = Fin 0, used = Fin 0\<rparr>)]"

definition cli_gov :: governor where "cli_gov = the cli_governor"

lemmas cli_defs = new_governor_def allocate_def Let_def install_policy_def install_budget_def install_def log_change_def
  is_valid_def gen_null_def gen_first_def less_eq_generation_def

lemma policy_rules_nonempty: "class_rules (policy_defaults pid nm) \<noteq> []"
  by (simp add: policy_defaults_def all_classes_def update_nonempty)

lemma policy_defaults_id [simp]: "pol_id (policy_defaults pid nm) = pid"
  by (simp add: policy_defaults_def)

lemma cli_governor_Some: "cli_governor = Some cli_gov"
  and cli_gov_parts: "gov_policy cli_gov = cli_policy (StrongId 2)" "gov_budgets cli_gov = cli_budgets"
    "gov_devices cli_gov = []" "gov_reservations cli_gov = []" "gov_workload_meter cli_gov = []"
    "gov_engine cli_gov = new_engine gen_first" "gov_cfg cli_gov = cli_config"
proof -
  have "\<exists>g. cli_governor = Some g \<and> gov_policy g = cli_policy (StrongId 2) \<and> gov_budgets g = cli_budgets \<and>
    gov_devices g = [] \<and> gov_reservations g = [] \<and> gov_workload_meter g = [] \<and>
    gov_engine g = new_engine gen_first \<and> gov_cfg g = cli_config"
    by (simp add: cli_governor_def cli_defs cli_policy_def policy_rules_nonempty first_ids_def cli_config_def node_budget_def
        acc_budget_def plain_budget_def cli_budgets_def)
  then obtain g where g: "cli_governor = Some g" "gov_policy g = cli_policy (StrongId 2)" "gov_budgets g = cli_budgets"
    "gov_devices g = []" "gov_reservations g = []" "gov_workload_meter g = []" "gov_engine g = new_engine gen_first"
    "gov_cfg g = cli_config" by blast
  have "cli_gov = g" unfolding cli_gov_def g(1) by simp
  with g show "cli_governor = Some cli_gov" "gov_policy cli_gov = cli_policy (StrongId 2)" "gov_budgets cli_gov = cli_budgets"
    "gov_devices cli_gov = []" "gov_reservations cli_gov = []" "gov_workload_meter cli_gov = []"
    "gov_engine cli_gov = new_engine gen_first" "gov_cfg cli_gov = cli_config" by simp_all
qed

text \<open>The device the first poll of the program creates.\<close>

lemma cli_polled:
  assumes "polls cmd"
  obtains g D where "cli_poll cmd cli_gov = Inr g" "gov_policy g = cli_policy (StrongId 2)" "gov_budgets g = cli_budgets"
    "gov_devices g = [(default_accel, D)]" "gov_reservations g = []" "gov_engine g = new_engine gen_first"
    "dev_hardware_cap D = None" "dev_latest D = Some (fb_sample cli_backend)" "dev_last_observed D = cli_clock"
    "th_state (dev_thermal D) = COOL" "thresholds (dev_thermal D) = default_thermal" "dev_burst D = new_burst default_burst_limits"
    "pw_samples (dev_power_window D) = [\<lparr>ps_t = cli_clock, ps_p = Fin 92\<rparr>]"
proof -
  have "\<exists>g D. cli_poll cmd cli_gov = Inr g \<and> gov_policy g = cli_policy (StrongId 2) \<and> gov_budgets g = cli_budgets \<and>
    gov_devices g = [(default_accel, D)] \<and> gov_reservations g = [] \<and> gov_engine g = new_engine gen_first \<and>
    dev_hardware_cap D = None \<and> dev_latest D = Some (fb_sample cli_backend) \<and> dev_last_observed D = cli_clock \<and>
    th_state (dev_thermal D) = COOL \<and> thresholds (dev_thermal D) = default_thermal \<and> dev_burst D = new_burst default_burst_limits \<and>
    pw_samples (dev_power_window D) = [\<lparr>ps_t = cli_clock, ps_p = Fin 92\<rparr>]"
    using assms
    by (simp add: cli_poll_def poll_def ts_is_zero_def cli_clock_def ingest_def device_of_def cli_gov_parts Let_def allocate_def
        ingest_power_def ingest_thermal_def fb_sample_def cli_backend_def fb_set_utilization_def fb_set_temperature_def
        fb_set_power_def new_fake_def new_device_def pw_record_def new_power_window_def observe_def new_thermal_def default_thermal_def
        classify_raw_def put_device_def log_change_def default_accel_def elapsed_since_def)
  with that show thesis by blast
qed

section \<open>Decisions\<close>

lemma cli_available: "available cli_budgets (StrongId 2) = Fin 402" "has cli_budgets (StrongId 2)"
  by (simp_all add: available_def cli_budgets_def own_available_def acc_budget_def node_budget_def plain_budget_def chain_def
      chain_loop.simps std_min_def has_def)

text \<open>The request a decision is asked for, in watts the constructor accepts, gets this input: no limit but the 402 W.\<close>

lemma cli_input:
  assumes "polls cmd" "cli_poll cmd cli_gov = Inr g" "quantity_ok req"
  obtains inp d where "decision_input_for g (StrongId 2) THROUGHPUT req (Fin 0) (Fin 1) cli_clock = Inr (inp, d)"
    "di_policy_current inp" "di_power_freshness inp = CURRENT" "di_thermal_state inp = COOL" "di_soft_target inp = None"
    "hard_limit inp = (Some (Fin 402), ''device_hard_cap'')" "di_requested_power inp = req" "di_policy inp = cli_policy (StrongId 2)"
proof -
  obtain g' D where "cli_poll cmd cli_gov = Inr g'" and g: "gov_policy g' = cli_policy (StrongId 2)" "gov_budgets g' = cli_budgets"
    "gov_devices g' = [(default_accel, D)]" "gov_reservations g' = []" and
    D: "dev_hardware_cap D = None" "dev_latest D = Some (fb_sample cli_backend)" "dev_last_observed D = cli_clock"
    "th_state (dev_thermal D) = COOL" "thresholds (dev_thermal D) = default_thermal" "dev_burst D = new_burst default_burst_limits"
    "pw_samples (dev_power_window D) = [\<lparr>ps_t = cli_clock, ps_p = Fin 92\<rparr>]"
    using cli_polled [OF assms(1)] by metis
  then have "g' = g" using assms(2) by simp
  let ?p = "cli_policy (StrongId 2)"
  have p: "fleet_hard_cap ?p = Some (Fin 5000)" "node_hard_cap ?p = None" "device_hard_cap ?p = Some (Fin 402)"
      "pol_soft_target ?p = None" "0 < observation_freshness ?p"
    by (simp_all add: cli_policy_def policy_defaults_def empty_policy_def)
  have cap: "hardware_ceiling ?p (Some D) = Inr (Some (Fin 402))"
    by (simp add: hardware_ceiling_def tighten_def is_non_negative_def std_min_def p D)
  have tc: "thermal_ceiling D (Some (Fin 402)) = Inr (Some (Fin 402))"
    by (simp add: thermal_ceiling_def ceiling_temperature_def D fb_sample_def cli_backend_def fb_set_utilization_def
        fb_set_temperature_def fb_set_power_def is_positive_def permitted_power_def headroom_fraction_def default_thermal_def)
  have fr: "freshness_of ?p (Some D) cli_clock = Inr CURRENT"
    using p(5) by (simp add: freshness_of_def D ts_is_zero_def cli_clock_def classify_def age_of_def age_from_duration_def)
  obtain r where r: "req = Fin r" "0 \<le> r" "grid64 r" using assms(3) by (rule quantity_okE)
  have j: "req * std_max (Fin 1) (Fin 0) = req" "isfinite req" "Fin 0 \<le> req"
    using r b64.rnd_add_zero [of r] by (simp_all add: std_max_def)
  have "rbind (average_power (dev_power_window D)) Watts = Inr (Fin 92)" by (simp add: average_power_def D)
  moreover have "\<not> bl_enabled (limits (dev_burst D))" by (simp add: D new_burst_def default_burst_limits_def)
  moreover have "Joules (req * std_max (Fin 1) (lit 0)) = Inr req" using j by simp
  ultimately obtain inp where i: "decision_input_for g (StrongId 2) THROUGHPUT req (Fin 0) (Fin 1) cli_clock = Inr (inp, Some D)"
      "di_policy_current inp" "di_power_freshness inp = CURRENT" "di_thermal_state inp = th_state (dev_thermal D)"
      "di_soft_target inp = pol_soft_target (gov_policy g)" "di_requested_power inp = req" "di_policy inp = gov_policy g"
      "hard_limit inp = consider_cap (Some (Fin 402)) ''thermal'' (consider_cap
         (if is_valid (StrongId 2 :: budget_id) \<and> has (gov_budgets g) (StrongId 2) then Some (available (gov_budgets g) (StrongId 2)) else None) ''budget''
           (consider_cap (Some (Fin 402)) ''device_hard_cap'' (None, '''')))"
    using fresh_input [of g default_accel D cli_clock "Some (Fin 402)" "Some (Fin 402)" "Fin 92" req "Fin 1" req "StrongId 2" THROUGHPUT "Fin 0"]
      g \<open>g' = g\<close> cap tc fr by metis
  moreover have "hard_limit inp = (Some (Fin 402), ''device_hard_cap'')"
    using g(2) \<open>g' = g\<close> cli_available by (simp add: i(8) consider_cap_def is_non_negative_def)
  ultimately show thesis using that g(1) \<open>g' = g\<close> D(4) p(4) by simp
qed

text \<open>The verdict on a request: 402 W, with the tolerance of the engine, is where it changes.\<close>

lemma cli_verdict:
  assumes "polls cmd" "cli_poll cmd cli_gov = Inr g" "quantity_ok req"
  obtains d where "cli_decide req g = Inr d" "dec_verdict d = (if Fin 402 + eps9 < req then ALLOW_WITH_LIMIT else ALLOW)"
    "recommended_limit d = Some (Fin 402)"
proof -
  obtain inp ds where i: "decision_input_for g (StrongId 2) THROUGHPUT req (Fin 0) (Fin 1) cli_clock = Inr (inp, ds)"
    "di_policy_current inp" "di_power_freshness inp = CURRENT" "di_thermal_state inp = COOL" "di_soft_target inp = None"
    "hard_limit inp = (Some (Fin 402), ''device_hard_cap'')" "di_requested_power inp = req" "di_policy inp = cli_policy (StrongId 2)"
    using assms by (rule cli_input)
  have eng: "gov_engine g = new_engine gen_first" using cli_polled [OF assms(1)] assms(2) by (metis sum.inject(2))
  have small: "\<not> Fin 402 \<le> eps9" using eps9_bounds by (simp add: eps9_Fin)
  have ew: "\<not> ew_enforce (energy_window (cli_policy (StrongId 2)))"
    by (simp add: cli_policy_def policy_defaults_def empty_policy_def default_energy_window_def)
  have early: "(case early_verdict inp of None \<Rightarrow> \<not> Fin 402 + eps9 < req
      | Some (v, rs, l, bk) \<Rightarrow> Fin 402 + eps9 < req \<and> v = ALLOW_WITH_LIMIT \<and> l = Some (Fin 402))"
    using small ew by (simp add: early_verdict_def i Let_def ceiling_of_def)
  have "\<exists>rs bk. judge inp cli_clock (gov_engine g) =
      Inr (if Fin 402 + eps9 < req then ALLOW_WITH_LIMIT else ALLOW, rs, Some (Fin 402), bk)"
    using early by (cases "early_verdict inp") (auto simp: judge_def default_verdict_def i Let_def eng new_engine_def split: prod.splits)
  then obtain rs bk where "judge inp cli_clock (gov_engine g) =
      Inr (if Fin 402 + eps9 < req then ALLOW_WITH_LIMIT else ALLOW, rs, Some (Fin 402), bk)" by blast
  then have "\<exists>d. cli_decide req g = Inr d \<and> dec_verdict d = (if Fin 402 + eps9 < req then ALLOW_WITH_LIMIT else ALLOW) \<and>
      recommended_limit d = Some (Fin 402)"
    by (simp add: cli_decide_def decide_for_def i(1) evaluate_def make_verdict_def allocate_def Let_def)
  with that show thesis by blast
qed

lemma rnd64_quantity: "isfinite (rnd64 q) \<Longrightarrow> Fin 0 \<le> rnd64 q \<Longrightarrow> quantity_ok (rnd64 q)"
  using b64.rnd_closed [of q] by (cases "rnd64 q") auto

lemma atof_cases: "atof a \<in> {Fin 0, PInf, NInf, NaN} \<or> (\<exists>q. atof a = rnd64 q)"
  by (auto simp: atof_def scan_double_def Let_def split: prod.splits option.splits if_splits)

lemma atof_quantity: "isfinite (atof a) \<Longrightarrow> Fin 0 \<le> atof a \<Longrightarrow> quantity_ok (atof a)"
  using atof_cases [of a] rnd64_quantity b64.grid_zero by (elim disjE exE) auto

definition request_of :: "string list \<Rightarrow> double" where
  "request_of args = (case args of a # _ \<Rightarrow> atof a | [] \<Rightarrow> Fin 250)"

lemma request_quantity: "isfinite (request_of args) \<Longrightarrow> Fin 0 \<le> request_of args \<Longrightarrow> quantity_ok (request_of args)"
  using atof_quantity grid64_int [of 250] by (cases args) (auto simp: request_of_def)

section \<open>Saved states\<close>

lemma cli_gov_storable: "storable cli_gov" "keyed cli_gov" "gov_budgets cli_gov \<noteq> []"
proof -
  have "amount_ok (Fin 5000)" by (simp add: amount_ok_def Codec.whole_def)
  then show "storable cli_gov"
    by (simp add: storable_def cli_gov_parts policy_storable_def cli_policy_def policy_defaults_def empty_policy_def cap_storable_def
        str_ok_def snapshots_def cli_budgets_def node_budget_def acc_budget_def plain_budget_def budget_storable_def demo_amounts
        ns_ok_def kMaxNs_def rm_all_def amount_quantity)
  have "wf_bm cli_budgets"
    using grid64_int [of 450] grid64_int [of 402] b64.grid_zero
    by (auto simp: wf_bm_def cli_budgets_def node_budget_def acc_budget_def plain_budget_def state_ok_def quantity_ok_def split: if_splits)
  then show "keyed cli_gov" by (simp add: keyed_def cli_gov_parts)
  show "gov_budgets cli_gov \<noteq> []" by (simp add: cli_gov_parts cli_budgets_def)
qed

lemma enc_f64_length: "Codec.whole v \<Longrightarrow> length (enc_f64 v) = 8"
  by (elim wholeE) (simp add: enc_f64_def w_f64_app)

lemma cli_state_size: "length (state_bytes cli_gov) \<le> PERSIST_MAX"
proof -
  have am: "amount_ok (Fin 5000)" "amount_ok (Fin 402)" "amount_ok (Fin 450)" "amount_ok (Fin 0)"
    by (simp_all add: amount_ok_def Codec.whole_def)
  have h: "length (head_bytes cli_gov) \<le> 1000"
    using am by (simp add: head_bytes_def w_policy_def cli_gov_parts cli_policy_def policy_defaults_def empty_policy_def w_cap_def
        stored_app written_def Let_def amount_ok_def str_ok_def enc_str_def enc_f64_length)
  have "length (budgets.section_bytes (snapshots cli_budgets)) \<le> 1000"
    using am by (simp add: budgets.section_bytes_def snapshots_def cli_budgets_def node_budget_def acc_budget_def plain_budget_def
        w_stored_budget_def stored_app written_def Let_def amount_ok_def str_ok_def enc_str_def enc_f64_length)
  with h show ?thesis
    by (simp add: state_bytes_def cli_gov_parts reservations.section_bytes_def meters.section_bytes_def rm_all_def PERSIST_MAX_def)
qed

section \<open>Properties\<close>

text \<open>C14: The decision command is a function of the request alone, and 402 W is where it changes. A request that is a
  non-negative number is answered with ALLOW as long as it does not exceed 402 W by more than the tolerance,
  and with ALLOW_WITH_LIMIT above that; no argument means 250 W and a word that is no number 0 W. A negative or
  infinite request, or NaN, ends the program by an exception. No file is touched.\<close>

theorem cli_decision_exact:
  "if isfinite (request_of args) \<and> Fin 0 \<le> request_of args
   then (\<exists>rest. main co wo wio rio (''decision'' # args) fs =
     (Inr (0, (''decision: '' @ (if Fin 402 + eps9 < request_of args then ''ALLOW_WITH_LIMIT'' else ''ALLOW'')) # rest), fs))
   else main co wo wio rio (''decision'' # args) fs = (Inl InvalidArgument, fs)"
proof -
  have p: "polls ''decision''" by (simp add: polls_def)
  obtain g where g: "cli_poll ''decision'' cli_gov = Inr g" using cli_polled [OF p] by metis
  have m: "main co wo wio rio (''decision'' # args) fs = (cmd_decision args g, fs)"
    by (simp add: main_def cli_governor_Some g demo_command_def)
  show ?thesis
  proof (cases "isfinite (request_of args) \<and> Fin 0 \<le> request_of args")
    case True
    then have "Watts (request_of args) = Inr (request_of args)" by simp
    moreover obtain d where "cli_decide (request_of args) g = Inr d"
        "dec_verdict d = (if Fin 402 + eps9 < request_of args then ALLOW_WITH_LIMIT else ALLOW)"
      using cli_verdict [OF p g] request_quantity True by metis
    ultimately show ?thesis using True m by (auto simp: cmd_decision_def request_of_def [symmetric] prints_def)
  next
    case False
    then have "Watts (request_of args) = Inl InvalidArgument" by (auto simp: Quantity_power_eq)
    then show ?thesis using False m by (auto simp: cmd_decision_def request_of_def [symmetric])
  qed
qed

text \<open>C39: What \<^verbatim>\<open>save\<close> writes \<^verbatim>\<open>recover\<close> refuses. If a run of the program reports that it saved its state to a file, every
  later run that recovers from that file, whatever the outcome of reading it, reports a failure: the budgets of
  the file are already installed in the governor the program sets up first.\<close>

theorem cli_recover_refuses_saved:
  assumes "main co wo wio rio [''save'', f] fs = (prints [''save '' @ f @ '' -> ok''], fs')"
    and "\<forall>data. encode_envelope \<lparr>schema = PERSIST_SCHEMA, blob = state_bytes cli_gov\<rparr> = Inr data \<longrightarrow> outcome_ok wio data"
  shows "main co' wo' wio' rio' [''recover'', f] fs' = (prints [''recover '' @ f @ '' -> failed''], fs')"
proof -
  have np: "cli_poll ''save'' cli_gov = Inr cli_gov" "cli_poll ''recover'' cli_gov = Inr cli_gov"
    by (simp_all add: cli_poll_def polls_def)
  obtain g' where "g_save wio cli_clock f (fs, cli_gov) = (Inr True, fs', g')"
    using assms(1) np(1)
    by (auto simp: main_def cli_governor_Some demo_command_def cmd_save_def state_file_def prints_def split: prod.splits if_splits)
  then obtain bytes where "fs' f = Some bytes" "decode_envelope bytes = Inr \<lparr>schema = PERSIST_SCHEMA, blob = state_bytes cli_gov\<rparr>"
    using saved_file [OF cli_gov_storable(1)] assms(2) by metis
  then have "fst (g_load rio' cli_clock f fs' cli_gov) = Inr False"
    using own_state_refused [OF cli_gov_storable, of cli_clock] by (auto simp: g_load_def persist_read_def)
  then show ?thesis using np(2)
    by (simp add: main_def cli_governor_Some demo_command_def cmd_recover_def state_file_def)
qed

definition cli_written :: write_outcome where
  "cli_written = \<lparr>open_ok = True,
     bytes_out = length (projr (encode_envelope \<lparr>schema = PERSIST_SCHEMA, blob = state_bytes cli_gov\<rparr>)),
     flush_ok = True, rename_ok = True, remove_ok = True\<rparr>"

theorem cli_recover_refuses_saved_witness:
  "\<exists>fs'. main (\<lambda>_ fs. (prints [], fs)) (\<lambda>_. prints []) cli_written \<lparr>seek_ok = True, read_ok = True\<rparr> [''save'', ''s''] Map.empty =
       (prints [''save s -> ok''], fs') \<and>
     main (\<lambda>_ fs. (prints [], fs)) (\<lambda>_. prints []) cli_written \<lparr>seek_ok = True, read_ok = True\<rparr> [''recover'', ''s''] fs' =
       (prints [''recover s -> failed''], fs')"
proof -
  let ?e = "\<lparr>schema = PERSIST_SCHEMA, blob = state_bytes cli_gov\<rparr>"
  obtain data where data: "encode_envelope ?e = Inr data" using cli_state_size by (simp add: encode_envelope_def Let_def)
  have ok: "\<forall>d. encode_envelope ?e = Inr d \<longrightarrow> outcome_ok cli_written d"
    by (simp add: outcome_ok_def cli_written_def data)
  have "\<exists>fs'. main (\<lambda>_ fs. (prints [], fs)) (\<lambda>_. prints []) cli_written \<lparr>seek_ok = True, read_ok = True\<rparr> [''save'', ''s''] Map.empty =
       (prints [''save s -> ok''], fs')"
    using data by (simp add: main_def cli_governor_Some cli_poll_def polls_def demo_command_def cmd_save_def state_file_def g_save_def
        encode_state_bytes [OF cli_gov_storable(1)] persist_write_def cli_written_def Let_def)
  then obtain fs' where fs: "main (\<lambda>_ fs. (prints [], fs)) (\<lambda>_. prints []) cli_written \<lparr>seek_ok = True, read_ok = True\<rparr> [''save'', ''s''] Map.empty =
       (prints [''save '' @ ''s'' @ '' -> ok''], fs')" by auto
  from cli_recover_refuses_saved [OF this ok] fs show ?thesis by auto
qed

end
