(* ===== verification/Hardware_Demo.thy ===== *)
theory Hardware_Demo
  imports Command_Line Cuda_Proofs
begin

text \<open>
  The program \<^verbatim>\<open>examples/rtx5090.cpp\<close>, built with and without CUDA: it probes the device, samples it, feeds the sample
  to a governor and takes decisions under three policies around one reservation. The machine is the
  one of Cuda_Backend; \<open>rt i\<close> is what the CUDA runtime answers at the i-th probe and \<open>now i\<close> the i-th reading
  of the system clock.
\<close>

section \<open>The program\<close>

text \<open>Without the CUDA backend the program only says so.\<close>

definition rtx5090_unavailable :: printed where
  "rtx5090_unavailable = Inr (1,
     [''Power Governor: CUDA backend was not built (rebuild with -DPG_ENABLE_CUDA=ON).'',
      ''This example exercises the RTX 5090 hardware path and is unavailable here.''])"

definition mebibytes :: "u64 \<Rightarrow> string" where "mebibytes b = dec_digits (unat (b div (1024 * 1024)))"

definition reading :: "double option \<Rightarrow> double" where
  "reading q = (case q of Some v \<Rightarrow> v | None \<Rightarrow> Fin 0)"

definition device_lines :: "probe_result \<Rightarrow> bool \<Rightarrow> string list" where
  "device_lines info rtx =
     [''device: '' @ pr_name info @ '' compute_cap='' @ show_int (pr_compute_major info) @ ''.'' @
        show_int (pr_compute_minor info) @ '' devices='' @ show_int (pr_device_count info),
      ''memory total='' @ mebibytes (pr_total_bytes info) @ '' MiB free='' @ mebibytes (pr_free_bytes info) @
        '' MiB uuid='' @ to_hex (pr_uuid_high info) @ to_hex (pr_uuid_low info)] @
     (if rtx then [] else [''WARNING: expected RTX 5090 (sm_120); got '' @ pr_name info])"

definition baseline_line :: "backend_sample \<Rightarrow> string" where
  "baseline_line base = ''baseline: '' @ format_fixed 1 (reading (bs_power base)) @ '' W, '' @
     format_fixed 1 (reading (bs_temperature base)) @ '' C, utilization '' @
     format_fixed 2 (reading (bs_utilization base)) @ '' (REAL)''"

definition probe_line :: "int \<Rightarrow> probe_result \<Rightarrow> string" where
  "probe_line n p = ''probe: n='' @ show_int n @ '' verified='' @ (if pr_verified p then ''yes'' else ''no'') @
     '' elapsed='' @ format_fixed 3 (pr_elapsed_seconds p * lit 1000) @ '' ms (REAL CUDA)''"

text \<open>Each policy is a new default policy with the caps of its stage; whether it is installed is not tested.\<close>

definition rtx_policy :: "policy_id \<Rightarrow> watts \<Rightarrow> policy_generation \<Rightarrow> power_policy" where
  "rtx_policy pid cap gen = (policy_defaults pid ''default'')\<lparr>device_hard_cap := Some cap,
     fleet_hard_cap := Some (Fin 5000), node_hard_cap := Some (Fin 450), pol_generation := gen\<rparr>"

definition rtx_install :: "timestamp \<Rightarrow> watts \<Rightarrow> policy_generation \<Rightarrow> governor \<Rightarrow> governor" where
  "rtx_install clk cap gen g = (case allocate (next_policy (gov_ids g)) of (pid, c) \<Rightarrow>
     snd (install_policy clk (rtx_policy pid cap gen) (g\<lparr>gov_ids := (gov_ids g)\<lparr>next_policy := c\<rparr>\<rparr>)))"

definition rtx_setup :: "(nat \<Rightarrow> timestamp) \<Rightarrow> governor" where
  "rtx_setup now =
     (let g = rtx_install (now 0) (Fin 402) gen_first (new_governor cli_config first_ids);
          g = snd (install_budget (now 1) (plain_budget 1 1 None (Fin 450) ''node'') g)
      in snd (install_budget (now 2) (plain_budget 2 2 (Some (StrongId 1)) (Fin 402) ''acc'') g))"

definition rtx_decide :: "workload_power_class \<Rightarrow> timestamp \<Rightarrow> governor \<Rightarrow> (decision \<times> governor) res" where
  "rtx_decide pc clk g = decide_for (StrongId 2) (StrongId 1) pc (Fin 250) (Fin 0) (Fin 1) clk g"

fun rtx_classes :: "(workload_power_class \<times> timestamp) list \<Rightarrow> governor \<Rightarrow> (string list \<times> governor) res" where
  "rtx_classes [] g = Inr ([], g)"
| "rtx_classes ((pc, clk) # cs) g = rbind (rtx_decide pc clk g) (\<lambda>(d, g).
     rbind (rtx_classes cs g) (\<lambda>(out, g).
       Inr ((''class '' @ class_to_string pc @ '' requested 250 W -> '' @ decision_to_string (dec_verdict d) @
         '' (evidence='' @ provenance_to_string (ex_evidence (explanation d)) @ '')'') # out, g)))"

definition limit_text :: "watts option \<Rightarrow> string" where
  "limit_text l = (case l of Some w \<Rightarrow> quantity_string WattsTag w | None \<Rightarrow> ''n/a'')"

text \<open>The constrained stage: a device cap of 60 W against a request of 250 W.\<close>

definition rtx_constrain :: "timestamp \<Rightarrow> timestamp \<Rightarrow> governor \<Rightarrow> (decision \<times> governor) res" where
  "rtx_constrain t0 t1 g = rtx_decide THROUGHPUT t1 (rtx_install t0 (Fin 60) (Generation 2) g)"

definition constrained_lines :: "decision \<Rightarrow> string list" where
  "constrained_lines d =
     (''SYNTHETIC constrained budget (60 W): requested 250 W -> '' @ decision_to_string (dec_verdict d) @
        '' limit='' @ limit_text (recommended_limit d)) #
     (if dec_verdict d \<noteq> ALLOW_WITH_LIMIT \<and> dec_verdict d \<noteq> THROTTLE \<and> dec_verdict d \<noteq> DEFER
      then [''UNEXPECTED: constrained budget did not limit/throttle/defer''] else [])"

text \<open>The restored policy, with the hysteresis cleared.\<close>

definition rtx_restore :: "timestamp \<Rightarrow> timestamp \<Rightarrow> governor \<Rightarrow> (decision \<times> governor) res" where
  "rtx_restore t0 t1 g = rtx_decide THROUGHPUT t1 (g_reset_hysteresis (rtx_install t0 (Fin 402) (Generation 3) g))"

text \<open>The stages under the governor: decisions, reservation, constraint, restoration, release and audit. \<open>free\<close> is the
  free memory of the last probe.\<close>

definition rtx_stages :: "(nat \<Rightarrow> timestamp) \<Rightarrow> u64 res \<Rightarrow> governor \<Rightarrow> printed" where
  "rtx_stages now free g =
     rbind (rtx_classes [(LATENCY_CRITICAL, now 4), (THROUGHPUT, now 5)] g) (\<lambda>(out1, g).
     case plan_reservation (StrongId 40) THROUGHPUT (StrongId 2) (StrongId 2) (Fin 100) (Fin 0) gen_first gen_first
         (now 6) 10000000000 g of (plan, g) \<Rightarrow>
       if \<not> ok plan then Inr (1, out1 @ [''reservation plan failed: '' @ reason plan])
       else rbind (reserve_reservation (rr_id plan) gen_first (now 7) g) (\<lambda>(_, g).
         rbind (rtx_constrain (now 8) (now 9) g) (\<lambda>(dcon, g).
         rbind (rtx_restore (now 10) (now 11) g) (\<lambda>(dres, g).
         rbind (release_reservation (rr_id plan) gen_first (now 12) g) (\<lambda>(_, g).
         rbind free (\<lambda>free.
         rbind (g_accounting_consistent (now 13) g) (\<lambda>fine.
           Inr (0, out1 @ [''reservation '' @ id_string (rr_id plan) @ '' reserved 100 W''] @ constrained_lines dcon @
             [''restored unconstrained policy -> '' @ decision_to_string (dec_verdict dres),
              ''after release: free mem='' @ mebibytes free @ '' MiB (bounded, justifiable delta only)'',
              ''accounting consistent: '' @ (if fine then ''yes'' else ''no'')]))))))))"

definition rtx5090 :: "(nat \<Rightarrow> cuda_runtime) \<Rightarrow> (nat \<Rightarrow> timestamp) \<Rightarrow> 'd nvml_world \<Rightarrow> (int \<times> string list \<times> 'd nvml_world) res" where
  "rtx5090 rt now w =
     rbind (new_nvidia (rt 0) w) (\<lambda>s.
     rbind (pg_rtx_probe (rt 1) 1 no_probe) (\<lambda>(_, info).
     rbind (cuda_sample s) (\<lambda>(base, s).
     rbind (run_probe (rt 2) (8 * 1024 * 1024)) (\<lambda>probe.
     rbind (cuda_sample s) (\<lambda>(post, s).
     case observe_backend (cuda_capabilities s) post (now 3) (rtx_setup now) of
       (Inl e, _) \<Rightarrow> Inl e
     | (Inr _, g) \<Rightarrow>
         rbind (rtx_stages now (rbind (pg_rtx_probe (rt 3) 1 no_probe) (\<lambda>(_, r). Inr (pr_free_bytes r))) g) (\<lambda>(code, out).
           Inr (code, device_lines info (is_rtx5090 s) @ [baseline_line base, probe_line (8 * 1024 * 1024) probe,
             ''post-workload power: '' @ format_fixed 1 (reading (bs_power post)) @ '' W (REAL)''] @ out, close_nvidia s)))))))"

section \<open>The constrained stage\<close>

text \<open>What the stages before the constraint keep: valid budgets, caps and policy, and the allocator of policies.\<close>

definition staged :: "power_policy \<Rightarrow> u64 \<Rightarrow> governor \<Rightarrow> bool" where
  "staged p n g \<longleftrightarrow> wf_bm (gov_budgets g) \<and> (\<forall>ds \<in> snd ` set (gov_devices g). cap_ok (dev_hardware_cap ds)) \<and>
     gov_policy g = p \<and> next_policy (gov_ids g) = n"

lemma demo_quantities [simp]: "grid64 60" "grid64 100" "grid64 250" "grid64 402" "grid64 450" "grid64 5000"
  using grid64_int [of 60] grid64_int [of 100] grid64_int [of 250] grid64_int [of 402] grid64_int [of 450] grid64_int [of 5000]
  by simp_all

lemma rtx_policy_caps: "quantity_ok cap \<Longrightarrow> policy_caps_ok (rtx_policy pid cap gen)"
  by (simp add: policy_caps_ok_def cap_ok_def rtx_policy_def)

lemma staged_holdings: "staged p n g \<Longrightarrow> policy_caps_ok p \<Longrightarrow> holdings_ok g"
  by (auto simp: staged_def holdings_ok_def device_ptr_def split: list.splits)

lemma staged_log [simp]: "staged p n (log_change k m t g) \<longleftrightarrow> staged p n g"
  by (simp add: staged_def)

lemma rtx_install_staged:
  assumes "staged p n g" "pol_generation p < gen" "n \<noteq> 0"
  shows "staged (rtx_policy (StrongId n) cap gen) (n + 1) (rtx_install t cap gen g)"
  using assms by (auto simp: staged_def rtx_install_def allocate_def install_policy_def rtx_policy_def is_valid_def not_le
      policy_defaults_def all_classes_def update_nonempty split: if_splits)

lemma rtx_setup_staged: "staged (rtx_policy (StrongId 2) (Fin 402) gen_first) 3 (rtx_setup now)"
proof -
  have b: "budget_cfg_ok (plain_budget i dm par (Fin 450) nm)" "budget_cfg_ok (plain_budget i dm par (Fin 402) nm)" for i dm par nm
    by (simp_all add: budget_cfg_ok_def plain_budget_def b64.grid_zero)
  have keep: "staged p n (snd (install_budget t bud g))" if "staged p n g" "budget_cfg_ok bud" for p n t bud g
    using that by (auto simp: install_budget_def staged_def Let_def intro: install_wf split: prod.splits)
  let ?g = "new_governor cli_config first_ids"
  have "staged (gov_policy ?g) 2 ?g" by (simp add: staged_def new_governor_def allocate_def first_ids_def Let_def)
  moreover have "pol_generation (gov_policy ?g) < gen_first"
    by (simp add: new_governor_def allocate_def Let_def gen_null_def gen_first_def less_generation_def)
  ultimately have "staged (rtx_policy (StrongId 2) (Fin 402) gen_first) (2 + 1) (rtx_install (now 0) (Fin 402) gen_first ?g)"
    by (rule rtx_install_staged) simp
  then show ?thesis by (simp add: rtx_setup_def Let_def keep b)
qed

lemma decide_staged:
  assumes "decide_for b wl pc req en dur t g = Inr (d, g')" "staged p n g" shows "staged p n g'"
proof -
  obtain inp ds where i: "decision_input_for g b pc req en dur t = Inr (inp, ds)"
    and dev: "gov_devices g' = gov_devices (put_first_device ds g)" using assms(1) by (rule decide_forE)
  have "next_policy (gov_ids g') = next_policy (gov_ids g)"
    using assms(1) by (auto simp: decide_for_def Let_def split: if_splits)
  moreover have "\<forall>ds \<in> snd ` set (gov_devices g'). cap_ok (dev_hardware_cap ds)"
    using i assms(2) unfolding dev
    by (auto simp: put_first_device_def staged_def device_ptr_def split: option.splits list.splits dest!: decision_device_cap)
  ultimately show ?thesis using decide_same [OF assms(1)] assms(2) by (simp add: staged_def same_managers_def)
qed

lemma classes_staged: "rtx_classes cs g = Inr (out, g') \<Longrightarrow> staged p n g \<Longrightarrow> staged p n g'"
proof (induction cs g arbitrary: out rule: rtx_classes.induct)
  case (2 pc clk cs g)
  then obtain d g1 out1 where d: "rtx_decide pc clk g = Inr (d, g1)" and r: "rtx_classes cs g1 = Inr (out1, g')"
    by auto
  have "staged p n g1" using d 2(3) unfolding rtx_decide_def by (rule decide_staged)
  with 2(1) [OF d _ r] show ?case by blast
qed simp

lemma plan_staged: "plan_reservation wl pc sc b pw en pg dg t v g = (r, g') \<Longrightarrow> staged p n g \<Longrightarrow> staged p n g'"
  by (auto simp: plan_reservation_def Let_def staged_def split: prod.splits if_splits)

lemma reserve_staged:
  assumes "reserve_reservation rid bg t g = Inr (r, g')" "staged p n g" shows "staged p n g'"
proof -
  obtain bm rm where rm: "rm_reserve rid bg t (gov_budgets g) (gov_reservations g) = Inr (r, bm, rm)"
    and ix: "index_if_ok r rid RESERVED (g\<lparr>gov_budgets := bm, gov_reservations := rm\<rparr>) = Inr (r, g')"
    using lifecycle_decomp(2) [OF assms(1)] by blast
  have "wf_bm bm" using reserve_effect [OF rm] assms(2)
    by (auto simp: staged_def elim!: res_effectE dest: reserve_op.op_wf release_op.op_wf deactivate_snd(2))
  then show ?thesis using assms(2) ix by (elim index_if_ok_Inr) (simp add: staged_def)
qed

lemma milli_ok: "quantity_ok (milli_double v)"
proof -
  obtain a where a: "u32_double v = Fin a" "0 \<le> a" "a \<le> 2 ^ 32" by (rule u32_double_bounds)
  have "milli_double v = rnd64 (a / 1000)" by (simp add: milli_double_def a(1))
  moreover obtain q where "Fin a / Fin 1000 = Fin q" "0 \<le> q" by (rule quotient_bounds [OF a(2, 3), of 1000]) simp_all
  ultimately show ?thesis using b64.rnd_closed [of "a / 1000"] by simp
qed

text \<open>A limit the backend reports is a valid quantity.\<close>

lemma cuda_sample_limit:
  assumes "cuda_sample (c, w) = Inr (smp, s)" shows "cap_ok (bs_power_limit smp)"
proof (rule cuda_sampleE [of w c])
  fix w' assume "cuda_sample (c, w) = Inr (empty_sample\<lparr>bs_source := ''nvml''\<rparr>, c, w')"
  with assms show ?thesis by (auto simp: cap_ok_def empty_sample_def)
next
  fix dev d smp1 d' assume "device_said (nw_binding (binding w)) dev d smp1 d'"
      "cuda_sample (c, w) = Inr (smp1, c, (binding w)\<lparr>nw_driver := d'\<rparr>)"
  with assms have "device_said (nw_binding (binding w)) dev d smp d'" by simp
  from device_said_limit [OF this] show ?thesis by (auto simp: cap_ok_def milli_ok split: option.split)
qed

lemma observe_staged:
  assumes "observe_backend bcaps smp t g = (oid, g')" "cap_ok (bs_power_limit smp)" "staged p n g" shows "staged p n g'"
proof -
  let ?ok = "\<lambda>ds. cap_ok (dev_hardware_cap ds)"
  have dev: "?ok (device_of g)" using assms(3)
    by (auto simp: device_of_def staged_def cap_ok_def new_device_def split: option.splits dest: map_of_SomeD)
  have pw: "ingest_power smp t ds = (e, ds') \<Longrightarrow> ?ok ds \<Longrightarrow> ?ok ds'" for ds e ds'
    using assms(2) by (auto simp: ingest_power_def Let_def split: option.splits prod.splits)
  have th: "ingest_thermal smp t ds h = (ds', h') \<Longrightarrow> dev_hardware_cap ds' = dev_hardware_cap ds \<and> gov_ids h' = gov_ids h \<and>
      gov_devices h' = gov_devices h" for ds h ds' h'
    by (auto simp: ingest_thermal_def Let_def split: option.splits if_splits)
  have put: "\<forall>ds \<in> snd ` set (AList.update k d al). ?ok ds" if "\<forall>ds \<in> snd ` set al. ?ok ds" "?ok d" for k d al
    using that by (induction al) auto
  let ?ds = "(device_of g)\<lparr>dev_accel := default_accel, dev_caps := bcaps, dev_obs_gen := gen_next (dev_obs_gen (device_of g))\<rparr>"
  let ?g = "g\<lparr>gov_ids := (gov_ids g)\<lparr>next_observation := snd (allocate (next_observation (gov_ids g)) :: observation_id \<times> u64)\<rparr>\<rparr>"
  obtain e ds where i: "ingest_power smp t ?ds = (e, ds)" by (rule prod.exhaust)
  obtain ds2 h where j: "ingest_thermal smp t ds ?g = (ds2, h)" by (rule prod.exhaust)
  have "?ok ds" using pw [OF i] dev by simp
  have "next_policy (gov_ids g') = next_policy (gov_ids g) \<and> (\<forall>ds \<in> snd ` set (gov_devices g'). ?ok ds)"
    proof (cases e)
      case None
      have "g' = log_change OBSERVATION_ACCEPTED (''power observation '' @ id_string (StrongId (next_observation (gov_ids g)) :: observation_id)) t
          ((put_device ds2 h)\<lparr>gov_authority := advance_observation (gen_next (dev_obs_gen (device_of g))) (gov_authority h)\<rparr>)"
        using assms(1) i j None by (simp add: observe_backend_def ingest_def Let_def allocate_def put_device_def)
      then show ?thesis using put [of "gov_devices g" ds2 default_accel] assms(3) th [OF j] \<open>?ok ds\<close> by (simp add: put_device_def staged_def)
    next
      case (Some x)
      then have "g' = put_device ds ?g" using assms(1) i by (simp add: observe_backend_def ingest_def Let_def allocate_def)
      then show ?thesis using put [of "gov_devices g" ds default_accel] assms(3) \<open>?ok ds\<close> by (simp add: put_device_def staged_def)
    qed
  then show ?thesis using assms(1,3) ingest_same [of bcaps smp t g oid g'] by (simp add: observe_backend_def staged_def same_managers_def)
qed

text \<open>A request of 250 W under the cap of 60 W is never allowed.\<close>

lemma constrained_not_allowed:
  assumes "staged (rtx_policy pid (Fin 402) gen_first) 3 g" "rtx_constrain t0 t1 g = Inr (d, g')"
  shows "dec_verdict d \<noteq> ALLOW"
proof
  assume v: "dec_verdict d = ALLOW"
  let ?h = "rtx_install t0 (Fin 60) (Generation 2) g"
  have st: "staged (rtx_policy (StrongId 3) (Fin 60) (Generation 2)) (3 + 1) ?h"
    by (rule rtx_install_staged [OF assms(1)]) (simp_all add: rtx_policy_def gen_first_def less_generation_def)
  then have ok: "holdings_ok ?h" by (rule staged_holdings) (simp add: rtx_policy_caps)
  obtain inp ds e ctr where i: "decision_input_for ?h (StrongId 2) THROUGHPUT (Fin 250) (Fin 0) (Fin 1) t1 = Inr (inp, ds)"
    and ev: "evaluate inp t1 (gov_engine ?h) (next_decision (gov_ids ?h)) = Inr (d, e, ctr)"
    using assms(2) unfolding rtx_constrain_def rtx_decide_def by (rule decide_forE)
  note a = decision_input_Inr [OF i ok, simplified]
  have "device_hard_cap (gov_policy ?h) = Some (Fin 60)" using st by (simp add: staged_def rtx_policy_def)
  then obtain y where y: "y \<in> set (Decision.caps inp)" "y \<le> Fin 60" using a(3) by (force simp: caps_in_force_def)
  have q: "quantity_ok y" using a(1) y(1) by (simp add: input_ok_def)
  have "\<not> y + eps9 < Fin 250" using allow_implies [OF a(1) ev v] y(1) a(2) by simp
  then have "\<not> Fin 60 + eps9 < Fin 250" using over_mono y(2) q by simp
  moreover have "rnd64 (60 + eps9_val) \<le> Fin 100" by (rule b64.rnd_le) (use eps9_bounds in simp_all)
  ultimately show False by (cases "rnd64 (60 + eps9_val)") (auto simp: eps9_Fin)
qed

text \<open>The line of the constrained stage that would report an unlimited approval.\<close>

definition allowed_line :: string where
  "allowed_line = ''SYNTHETIC constrained budget (60 W): requested 250 W -> ALLOW limit=''"

definition quiet_lines :: "string list \<Rightarrow> bool" where
  "quiet_lines out \<longleftrightarrow> list_all (\<lambda>l. \<not> starts_with allowed_line l) out"

lemma constrained_lines_quiet: "dec_verdict d \<noteq> ALLOW \<Longrightarrow> quiet_lines (constrained_lines d)"
  by (cases "dec_verdict d") (simp_all add: quiet_lines_def constrained_lines_def allowed_line_def starts_with_def)

lemma classes_quiet: "rtx_classes cs g = Inr (out, g') \<Longrightarrow> quiet_lines out"
  by (induction cs g arbitrary: out rule: rtx_classes.induct)
    (auto simp: quiet_lines_def allowed_line_def starts_with_def)

lemma stages_quiet:
  assumes "rtx_stages now free g = Inr (code, out)" "staged (rtx_policy pid (Fin 402) gen_first) 3 g"
  shows "quiet_lines out"
proof -
  let ?p = "rtx_policy pid (Fin 402) gen_first"
  obtain out1 g1 where c: "rtx_classes [(LATENCY_CRITICAL, now 4), (THROUGHPUT, now 5)] g = Inr (out1, g1)"
    using assms(1) by (auto simp: rtx_stages_def simp del: rtx_classes.simps)
  obtain plan g2 where pl: "plan_reservation (StrongId 40) THROUGHPUT (StrongId 2) (StrongId 2) (Fin 100) (Fin 0) gen_first gen_first
      (now 6) 10000000000 g1 = (plan, g2)" by (rule prod.exhaust)
  show ?thesis
  proof (cases "ok plan")
    case False
    then have "out = out1 @ [''reservation plan failed: '' @ reason plan]"
      using assms(1) by (simp add: rtx_stages_def c pl del: rtx_classes.simps)
    then show ?thesis using classes_quiet [OF c] by (simp add: quiet_lines_def starts_with_def allowed_line_def)
  next
    case True
    obtain r g3 d g4 dres fr fine where st: "reserve_reservation (rr_id plan) gen_first (now 7) g2 = Inr (r, g3)"
      "rtx_constrain (now 8) (now 9) g3 = Inr (d, g4)"
      "out = out1 @ [''reservation '' @ id_string (rr_id plan) @ '' reserved 100 W''] @ constrained_lines d @
             [''restored unconstrained policy -> '' @ decision_to_string dres,
              ''after release: free mem='' @ mebibytes fr @ '' MiB (bounded, justifiable delta only)'',
              ''accounting consistent: '' @ (if fine then ''yes'' else ''no'')]"
      using assms(1) True unfolding rtx_stages_def c pl rbind_simps case_prod_conv by auto
    have "staged ?p 3 g3" using reserve_staged [OF st(1) plan_staged [OF pl classes_staged [OF c assms(2)]]] .
    then have "quiet_lines (constrained_lines d)" using constrained_not_allowed st(2) constrained_lines_quiet by blast
    then show ?thesis using classes_quiet [OF c] unfolding st(3)
      by (simp add: quiet_lines_def starts_with_def allowed_line_def)
  qed
qed

text \<open>Whatever the driver, the CUDA runtime and the clock do, the program never reports that the request of 250 W was
  allowed under the cap of 60 W.\<close>

lemma rtx5090_respects_cap:
  assumes "rtx5090 rt now w = Inr (code, out, w')" shows "quiet_lines out"
proof -
  have q: "quiet_lines (device_lines i r @ [baseline_line b, probe_line n p, ''post-workload power: '' @ x] @ o2) \<longleftrightarrow> quiet_lines o2"
    for i r b n p x o2
    by (simp add: quiet_lines_def starts_with_def allowed_line_def device_lines_def baseline_line_def probe_line_def)
  have key: "quiet_lines o2" if "cuda_sample (c, v) = Inr (post, s2)" "rtx_stages now free g = Inr (code, o2)"
      "observe_backend (cuda_capabilities s2) post (now 3) (rtx_setup now) = (Inr oid, g)" for c v post s2 free g o2 oid
    using stages_quiet [OF that(2) observe_staged [OF that(3) cuda_sample_limit [OF that(1)] rtx_setup_staged]] .
  show ?thesis using assms unfolding rtx5090_def
    by (auto simp only: q prod.case sum.case split: prod.splits sum.splits elim!: rbind_InrE) (rule key)
qed

end
