(* ===== verification/Examples.thy ===== *)
theory Examples
  imports Command_Line
begin

text \<open>
  The programs of \<^verbatim>\<open>src/examples\<close> that need no hardware. Each one is a function to the lines it prints and its exit
  code. They share the start of a governor under a default policy with a few caps, the clock of one second
  and the fake backend.
\<close>

section \<open>What the examples share\<close>

definition start_governor :: "(power_policy \<Rightarrow> power_policy) \<Rightarrow> governor" where
  "start_governor caps_of =
     (let g = new_governor cli_config first_ids;
          (pid, c) = allocate (next_policy (gov_ids g))
      in snd (install_policy cli_clock ((caps_of (policy_defaults pid ''default''))\<lparr>pol_generation := gen_first\<rparr>)
           (g\<lparr>gov_ids := (gov_ids g)\<lparr>next_policy := c\<rparr>\<rparr>)))"

definition device_cap :: "watts \<Rightarrow> power_policy \<Rightarrow> power_policy" where
  "device_cap w p = p\<lparr>device_hard_cap := Some w\<rparr>"

definition ex_backend :: "watts \<Rightarrow> celsius \<Rightarrow> fake_backend" where
  "ex_backend w t = fb_set_temperature t (fb_set_power w new_fake)"

definition ex_poll :: "fake_backend \<Rightarrow> timestamp \<Rightarrow> governor \<Rightarrow> governor res" where
  "ex_poll b clk g = (case poll clk (fb_capabilities b) (fb_sample b) clk g of (Inl e, _) \<Rightarrow> Inl e | (Inr _, g) \<Rightarrow> Inr g)"

definition ex_decide :: "u64 \<Rightarrow> workload_power_class \<Rightarrow> watts \<Rightarrow> timestamp \<Rightarrow> governor \<Rightarrow> (decision \<times> governor) res" where
  "ex_decide b pc req clk g = decide_for (StrongId b) (StrongId 1) pc req (Fin 0) (Fin 1) clk g"

definition verdict_text :: "decision \<Rightarrow> string" where
  "verdict_text d = decision_to_string (dec_verdict d)"

definition limit_string :: "decision \<Rightarrow> string" where
  "limit_string d = (case recommended_limit d of Some w \<Rightarrow> quantity_string WattsTag w | None \<Rightarrow> ''n/a'')"

section \<open>Components\<close>

definition example_basic :: "governor \<times> printed" where
  "example_basic =
     (new_governor \<lparr>cfg_id = id_invalid, cfg_node = id_invalid, cfg_boot = StrongId 1, cfg_epoch = gen_first\<rparr> first_ids,
      prints [''Power Governor basic example ok''])"

definition ok_denied :: "bool \<Rightarrow> string" where "ok_denied b = (if b then ''ok'' else ''denied'')"

definition example_burst_allowance :: printed where
  "example_burst_allowance =
     rbind (seconds 2) (\<lambda>win. rbind (milliseconds 10) (\<lambda>d. rbind (seconds 3) (\<lambda>later.
     let bb = new_burst (default_burst_limits\<lparr>bl_enabled := True, bl_allowance := Fin 60, bl_window := win\<rparr>)
     in rbind (clock_advance d \<lparr>clk_t = 0\<rparr>) (\<lambda>t.
        rbind (bb_capacity bb) (\<lambda>cap.
        rbind (bb_consume (Fin 80) (clock_now t) bb) (\<lambda>(r1, bb).
        rbind (bb_consume (Fin 40) (clock_now t) bb) (\<lambda>(r2, bb).
        rbind (bb_available (clock_now t) bb) (\<lambda>(av, bb).
        rbind (burst_utilization (clock_now t) bb) (\<lambda>(ut, bb).
        rbind (clock_advance later t) (\<lambda>t.
        rbind (bb_available (clock_now t) bb) (\<lambda>(av2, bb).
        prints [''=== Bounded burst allowance ==='',
          ''capacity='' @ format_fixed 1 cap @ '' J'',
          ''consume 80 J -> '' @ ok_denied r1,
          ''consume 40 J -> '' @ ok_denied r2 @ '' (would overrun, denied)'',
          ''available='' @ format_fixed 1 av @ '' J utilization='' @ format_fixed 2 ut,
          ''after window refill: available='' @ format_fixed 1 av2 @ '' J''])))))))))))"

definition example_energy_accounting :: printed where
  "example_energy_accounting =
     rbind (meter_add (Fin 5) MEASURED 1 new_meter) (\<lambda>m.
     rbind (meter_add (Fin 2) REPORTED 2 m) (\<lambda>m.
     rbind (meter_add (Fin 1) ESTIMATED 3 m) (\<lambda>m.
     rbind (seconds 1) (\<lambda>win.
     rbind (outcome_of (pw_record 0 (Fin 100) (new_power_window win))) (\<lambda>w.
     rbind (outcome_of (pw_record 500000000 (Fin 300) w)) (\<lambda>w.
     rbind (average_power w) (\<lambda>avg.
     rbind (integrated_energy_us w) (\<lambda>e.
     prints [''=== Energy accounting with provenance ==='',
       ''total='' @ format_fixed 2 (em_total m) @ '' J  measured='' @ format_fixed 2 (meter_by MEASURED m) @
         ''  reported='' @ format_fixed 2 (meter_by REPORTED m) @ ''  estimated='' @ format_fixed 2 (meter_by ESTIMATED m),
       ''estimated energy is never presented as measured (provenance kept separate)'',
       ''peak='' @ format_fixed 1 (pw_peak w) @ '' W average='' @ format_fixed 1 avg @ '' W integrated='' @
         format_fixed 2 e @ '' J'']))))))))"

definition example_policy_rollover :: printed where
  "example_policy_rollover =
     (case allocate (next_policy first_ids) of (pid, _) \<Rightarrow>
      let p = policy_defaults pid ''default'';
          p1 = bump_generation (device_cap (Fin 300) p);
          p2 = bump_generation (device_cap (Fin 500) p1);
          old = p2\<lparr>pol_generation := pol_generation p2\<rparr>
      in prints [''=== Policy generation rollover ==='',
           ''gen='' @ gen_string (pol_generation p),
           ''after cap 300 & bump: gen='' @ gen_string (pol_generation p1),
           ''after cap 500 & bump: gen='' @ gen_string (pol_generation p2),
           ''policy != generation differently: '' @ (if policy_eq old p2 then ''same'' else ''different'')])"

section \<open>Decisions\<close>

definition example_device_power_budget :: printed where
  "example_device_power_budget =
     (let g = start_governor (\<lambda>p. (device_cap (Fin 300) p)\<lparr>fleet_hard_cap := Some (Fin 5000)\<rparr>);
          g = snd (install_budget cli_clock (plain_budget 1 1 None (Fin 300) ''device'') g)
      in rbind (ex_poll (ex_backend (Fin 130) (Fin 42)) cli_clock g) (\<lambda>g.
         rbind (ex_decide 1 THROUGHPUT (Fin 250) cli_clock g) (\<lambda>(d, g).
         prints [''=== Device power budget ==='',
           ''requested 250 W under a 300 W device budget -> '' @ verdict_text d @ '' limit='' @ limit_string d])))"

definition example_throttling_decision :: printed where
  "example_throttling_decision =
     rbind (ex_poll (ex_backend (Fin 55) (Fin 50)) cli_clock (start_governor (device_cap (Fin 60)))) (\<lambda>g.
     rbind (ex_decide 2 THROUGHPUT (Fin 250) cli_clock g) (\<lambda>(d, g).
     prints [''=== Throttling decision under a constrained budget ==='',
       ''60 W hard cap vs 250 W request -> '' @ verdict_text d @ '' limit='' @ limit_string d,
       ''why: '' @ why (explanation d)]))"

definition example_thermal_constraint :: printed where
  "example_thermal_constraint =
     (let b = ex_backend (Fin 120) (Fin 88)
      in rbind (ex_poll b cli_clock (start_governor (device_cap (Fin 402)))) (\<lambda>g.
         rbind (ex_poll b cli_clock g) (\<lambda>g.
         rbind (ex_decide 2 THROUGHPUT (Fin 250) cli_clock g) (\<lambda>(d, g).
         prints [''=== Thermal constraint -> governor decision ==='',
           ''device at 88 C (constrained): requested 250 W -> '' @ verdict_text d]))))"

text \<open>This program sets a temperature but never a power.\<close>

definition example_recovery_decision :: printed where
  "example_recovery_decision =
     (let hot = fb_set_temperature (Fin 90) new_fake; cool = fb_set_temperature (Fin 50) hot
      in rbind (ex_poll hot cli_clock (start_governor (device_cap (Fin 402)))) (\<lambda>g.
         rbind (ex_poll hot cli_clock g) (\<lambda>g.
         rbind (ex_decide 2 THROUGHPUT (Fin 250) cli_clock g) (\<lambda>(d1, g).
         rbind (ex_poll cool cli_clock g) (\<lambda>g.
         rbind (ex_decide 2 THROUGHPUT (Fin 250) cli_clock g) (\<lambda>(d2, g).
         prints [''=== Recovery from thermally constrained state ==='',
           ''at 90 C: '' @ verdict_text d1 @ '' (thermal recovery gates execution)'',
           ''after cooling to 50 C: '' @ verdict_text d2 @ '' (normal eligibility returns)'']))))))"

definition example_stale_telemetry :: printed where
  "example_stale_telemetry =
     rbind (ex_poll (ex_backend (Fin 120) (Fin 45)) cli_clock (start_governor (device_cap (Fin 402)))) (\<lambda>g.
     rbind (ex_decide 2 THROUGHPUT (Fin 250) cli_clock g) (\<lambda>(d1, g).
     rbind (seconds 10) (\<lambda>d.
     rbind (clock_advance d \<lparr>clk_t = cli_clock\<rparr>) (\<lambda>clk.
     rbind (ex_decide 2 THROUGHPUT (Fin 250) (clock_now clk) g) (\<lambda>(d2, g).
     prints [''=== Stale telemetry must not drive authoritative decisions ==='',
       ''fresh: '' @ verdict_text d1, ''after 10 s with no telemetry: '' @ verdict_text d2])))))"

fun class_decisions :: "workload_power_class list \<Rightarrow> governor \<Rightarrow> string list res" where
  "class_decisions [] g = Inr []"
| "class_decisions (pc # pcs) g = rbind (ex_decide 2 pc (Fin 200) cli_clock g) (\<lambda>(d, g).
     rbind (class_decisions pcs g) (\<lambda>out.
       Inr ((''class '' @ class_to_string pc @ '' request 200 W -> '' @ verdict_text d) # out)))"

definition example_workload_classes :: printed where
  "example_workload_classes =
     rbind (ex_poll (ex_backend (Fin 90) (Fin 45)) cli_clock (start_governor (device_cap (Fin 150)))) (\<lambda>g.
     rbind (class_decisions [LATENCY_CRITICAL, THROUGHPUT, BATCH, BACKGROUND, ENERGY_OPTIMIZED] g) (\<lambda>out.
     prints (''=== Workload power classes -> governor decisions ==='' # out)))"

section \<open>Reservations and persistence\<close>

definition example_hierarchical_budget :: printed where
  "example_hierarchical_budget =
     rbind (seconds 5) (\<lambda>val.
     let g = start_governor (\<lambda>p. (device_cap (Fin 402) p)\<lparr>fleet_hard_cap := Some (Fin 5000), node_hard_cap := Some (Fin 450)\<rparr>);
         g = snd (install_budget cli_clock (plain_budget 1 1 None (Fin 450) ''node'') g);
         g = snd (install_budget cli_clock (plain_budget 2 2 (Some (StrongId 1)) (Fin 402) ''acc'') g)
     in case plan_reservation (StrongId 1) THROUGHPUT (StrongId 2) (StrongId 2) (Fin 250) (Fin 0) gen_first gen_first cli_clock val g of
          (plan, g) \<Rightarrow>
            if \<not> ok plan then Inr (1, [''=== Hierarchical budget (node -> accelerator) ==='', ''plan failed: '' @ reason plan])
            else rbind (reserve_reservation (rr_id plan) gen_first cli_clock g) (\<lambda>(_, g).
              case plan_reservation (StrongId 2) BACKGROUND (StrongId 2) (StrongId 2) (Fin 300) (Fin 0) gen_first gen_first cli_clock val g of
                (plan2, g2) \<Rightarrow> rbind (reserve_reservation (rr_id plan2) gen_first cli_clock g2) (\<lambda>(r2, g2).
                  prints [''=== Hierarchical budget (node -> accelerator) ==='',
                    ''acc reserved 250 W of 402; node available '' @ quantity_string WattsTag (g_budget_available g (StrongId 1)),
                    ''second 300 W reservation -> '' @ (if ok r2 then ''OK'' else ''REJECTED'') @
                      '' (parent budget prevents overflow)''])))"

definition example_workload_reservation :: printed where
  "example_workload_reservation =
     rbind (seconds 4) (\<lambda>val.
     let g = start_governor (device_cap (Fin 402));
         g = snd (install_budget cli_clock (plain_budget 2 2 None (Fin 402) ''acc'') g)
     in case plan_reservation (StrongId 7) BATCH (StrongId 2) (StrongId 2) (Fin 80) (Fin 2000) gen_first gen_first cli_clock val g of
          (plan, g) \<Rightarrow>
            rbind (validate_reservation (rr_id plan) gen_first cli_clock g) (\<lambda>(_, g).
            rbind (reserve_reservation (rr_id plan) gen_first cli_clock g) (\<lambda>(_, g).
            rbind (admit_reservation (rr_id plan) cli_clock g) (\<lambda>(_, g).
            rbind (activate_reservation (rr_id plan) gen_first cli_clock g) (\<lambda>(_, g).
            rbind (release_reservation (rr_id plan) gen_first cli_clock g) (\<lambda>(_, g2).
            prints [''=== Transactional workload reservation ==='',
              ''plan -> '' @ (if ok plan then ''ok'' else reason plan) @ '' (id='' @ id_string (rr_id plan) @ '')'',
              ''reservation '' @ id_string (rr_id plan) @ '' active; active count='' @ dec_digits (active_reservations g),
              ''released; active count='' @ dec_digits (active_reservations g2)]))))))"

text \<open>The second governor is a new one in the same process: the allocators go on where the first left them.\<close>

definition example_persistence_recovery :: "write_outcome \<Rightarrow> read_outcome \<Rightarrow> file_system \<Rightarrow> printed \<times> file_system" where
  "example_persistence_recovery wio rio fs =
     (let g = start_governor (device_cap (Fin 402));
          g = snd (install_budget cli_clock (plain_budget 2 2 None (Fin 402) ''acc'') g)
      in case ex_poll (ex_backend (Fin 120) (Fin 45)) cli_clock g of
           Inl e \<Rightarrow> (Inl e, fs)
         | Inr g \<Rightarrow> (case state_digest g of
             Inl e \<Rightarrow> (Inl e, fs)
           | Inr dig \<Rightarrow> (case g_save wio cli_clock ''example_state.bin'' (fs, g) of (r, fs, g) \<Rightarrow>
             (rbind r (\<lambda>_.
              case g_load rio cli_clock ''example_state.bin'' fs (new_governor cli_config (gov_ids g)) of (r2, g2) \<Rightarrow>
                rbind r2 (\<lambda>_. rbind (state_digest g2) (\<lambda>dig2.
                rbind (ex_decide 2 THROUGHPUT (Fin 250) cli_clock g2) (\<lambda>(d, _).
                prints [''=== Persistence / recovery ==='', ''saved digest: '' @ dig, ''loaded digest: '' @ dig2,
                  ''recovered telemetry is not CURRENT -> '' @ verdict_text d])))), fs))))"

end
