(* ===== verification/Examples_Proofs.thy ===== *)
theory Examples_Proofs
  imports Examples Fresh_Decisions
begin

text \<open>
  What the example programs print. Each output is derived from the definitions, so that the examples are checked
  against the model of the library they demonstrate; two of them print a verdict that their own text contradicts.
\<close>

section \<open>Evaluation\<close>

lemmas number_text = dec_digits_small dec_digits_large hex_digit_def rhe_def format_f_def format_fixed_def fraction_digits_def
  quantity_string_def id_string_def gen_string_def

lemmas time_defs = seconds_def milliseconds_def check_mul_def Duration_def kMaxNs_def clock_advance_def clock_now_def
  timestamp_add_def signed64_def seconds_f_def double_of_int_def elapsed_since_def

lemma replicate_five: "replicate 5 x = [x, x, x, x, x]"
  by (simp add: eval_nat_numeral)

section \<open>Accounts and policies\<close>

text \<open>The second consumption fills the allowance exactly, so it is accepted, though the line says it is denied.\<close>

lemma burst_example_output:
  "example_burst_allowance = prints [''=== Bounded burst allowance ==='', ''capacity=120.0 J'', ''consume 80 J -> ok'',
     ''consume 40 J -> ok (would overrun, denied)'', ''available=0.0 J utilization=1.00'',
     ''after window refill: available=120.0 J'']"
  by (simp add: example_burst_allowance_def time_defs number_text Let_def new_burst_def default_burst_limits_def bb_capacity_def
      bb_consume_def refill_if_needed_def can_burst_def bb_available_def burst_utilization_def bb_consumed_at_def ok_denied_def)

lemma energy_example_output:
  "example_energy_accounting = prints [''=== Energy accounting with provenance ==='',
     ''total=8.00 J  measured=5.00  reported=2.00  estimated=1.00'',
     ''estimated energy is never presented as measured (provenance kept separate)'',
     ''peak=300.0 W average=200.0 W integrated=100.00 J'']"
proof -
  have "grid64 (1 / 2)" using grid64_dyadic [of 1 1] by simp
  then have half: "rnd64 (1 / 2) = Fin (1 / 2)" by (rule b64.rnd_grid)
  show ?thesis
    by (simp add: example_energy_accounting_def time_defs number_text Let_def meter_add_def new_meter_def replicate_five meter_by_def
        pw_record_def outcome_of_def new_power_window_def integrated_energy_us_def span_seconds_def average_power_def half)
qed

lemma rollover_example_output:
  "example_policy_rollover = prints [''=== Policy generation rollover ==='', ''gen=1'', ''after cap 300 & bump: gen=2'',
     ''after cap 500 & bump: gen=3'', ''policy != generation differently: same'']"
proof -
  have "policy_eq ((policy_defaults pid nm)\<lparr>device_hard_cap := Some (Fin 500), pol_generation := g\<rparr>)
      ((policy_defaults pid nm)\<lparr>device_hard_cap := Some (Fin 500), pol_generation := g\<rparr>)" for pid nm g
    using default_policy_eq [of pid nm] by (simp add: policy_eq_def q_opt_eq_def q_eq_def)
  moreover have "pol_generation (policy_defaults pid nm) = gen_first" for pid nm by (simp add: policy_defaults_def)
  ultimately show ?thesis
    by (simp add: example_policy_rollover_def allocate_def first_ids_def Let_def bump_generation_def device_cap_def number_text
        gen_next_def gen_first_def)
qed

section \<open>Reservations\<close>

lemmas start_defs = start_governor_def new_governor_def allocate_def Let_def install_policy_def install_budget_def install_def
  log_change_def is_valid_def gen_null_def gen_first_def less_eq_generation_def device_cap_def first_ids_def cli_config_def
  plain_budget_def policy_defaults_def all_classes_def update_nonempty

lemmas lifecycle_defs' = plan_reservation_def rm_plan_def lifecycle_defs rm_validate_def rm_reserve_def rm_admit_def rm_activate_def
  rm_release_def rm_get_def res_expired_def index_if_ok_def update_index_state_def active_reservations_def active_count_def

lemmas booking_defs = bm_reserve_def bm_activate_def bm_release_def bm_deactivate_def bad_amount_def chain_def chain_loop.simps
  chain_has_capacity_def own_available_def book_def upd_state_def available_loop.simps add_reserved_def sub_reserved_def add_used_def sub_used_def available_def
  g_budget_available_def std_min_def std_max_def

lemma hierarchy_example_output:
  "example_hierarchical_budget = prints [''=== Hierarchical budget (node -> accelerator) ==='',
     ''acc reserved 250 W of 402; node available 200.000000W'',
     ''second 300 W reservation -> REJECTED (parent budget prevents overflow)'']"
  by (simp add: example_hierarchical_budget_def start_defs time_defs lifecycle_defs' booking_defs cli_clock_def number_text replicate_five)

lemma reservation_example_output:
  "example_workload_reservation = prints [''=== Transactional workload reservation ==='', ''plan -> ok (id=1)'',
     ''reservation 1 active; active count=1'', ''released; active count=0'']"
  by (simp add: example_workload_reservation_def start_defs time_defs lifecycle_defs' booking_defs cli_clock_def number_text)

section \<open>Decisions\<close>

lemmas poll_defs = ex_poll_def poll_def ts_is_zero_def ingest_def device_of_def ingest_power_def ingest_thermal_def fb_sample_def
  ex_backend_def fb_set_temperature_def fb_set_power_def new_fake_def new_device_def pw_record_def new_power_window_def observe_def
  new_thermal_def default_thermal_def classify_raw_def put_device_def default_accel_def

lemmas input_defs = ex_decide_def decide_for_def decision_input_for_def hardware_ceiling_def tighten_def is_non_negative_def
  is_positive_def device_ptr_def device_input_def average_power_def thermal_ceiling_def ceiling_temperature_def permitted_power_def
  headroom_fraction_def freshness_of_def classify_def age_of_def age_from_duration_def can_burst_def burst_utilization_def
  new_burst_def default_burst_limits_def base_input_def default_input_def complete_input_def budget_input_def has_def
  empty_policy_def default_energy_window_def default_oversubscription_def

lemmas verdict_defs = evaluate_def judge_def early_verdict_def default_verdict_def hard_limit_def consider_cap_def ceiling_of_def
  make_verdict_def fill_explanation_def verdict_text_def limit_string_def new_engine_def put_first_device_def is_more_restrictive_def
  empty_explanation_def

lemmas decision_eval = start_defs cli_clock_def poll_defs input_defs verdict_defs booking_defs time_defs number_text replicate_five

lemma device_example_output:
  "example_device_power_budget = prints [''=== Device power budget ==='',
     ''requested 250 W under a 300 W device budget -> ALLOW limit=300.000000W'']"
  by (simp add: example_device_power_budget_def decision_eval)

lemma throttling_example_output:
  "example_throttling_decision = prints [''=== Throttling decision under a constrained budget ==='',
     ''60 W hard cap vs 250 W request -> ALLOW_WITH_LIMIT limit=60.000000W'',
     ''why: requested power 250.000000W exceeds available ceiling 60.000000W; hard ceiling constrains execution'']"
  by (simp add: example_throttling_decision_def decision_eval)

text \<open>The reduction of 60 percent that the default thresholds apply to a constrained device.\<close>

lemma reduced_cap: obtains q where "Fin 402 * rnd64 (3 / 5) = Fin q" "201 \<le> q" "q \<le> 245"
proof -
  have "grid64 (39 / 64)" "grid64 (1 / 2)" using grid64_dyadic [of 39 6] grid64_dyadic [of 1 1] by simp_all
  then obtain f where f: "rnd64 (3 / 5) = Fin f" "1 / 2 \<le> f" "f \<le> 39 / 64"
    using b64.rnd_between [of "1 / 2" "39 / 64" "3 / 5"] by auto
  then obtain q where "rnd64 (402 * f) = Fin q" "201 \<le> q" "q \<le> 245"
    using b64.rnd_between [of 201 245 "402 * f"] by auto
  with that f(1) show thesis by simp
qed

abbreviation example_policy :: "watts \<Rightarrow> power_policy" where
  "example_policy w \<equiv> (device_cap w (policy_defaults (StrongId 2) ''default''))\<lparr>pol_generation := gen_first\<rparr>"

text \<open>The governor the thermal example asks: two equal samples of a device at 88 C.\<close>

lemma thermal_polled:
  obtains g D where "rbind (ex_poll (ex_backend (Fin 120) (Fin 88)) cli_clock (start_governor (device_cap (Fin 402))))
      (ex_poll (ex_backend (Fin 120) (Fin 88)) cli_clock) = Inr g"
    "gov_devices g = [(default_accel, D)]" "gov_budgets g = []" "gov_policy g = example_policy (Fin 402)"
    "gov_engine g = new_engine gen_first" "dev_last_observed D = cli_clock" "dev_hardware_cap D = None"
    "dev_latest D = Some (fb_sample (ex_backend (Fin 120) (Fin 88)))" "th_state (dev_thermal D) = THERMALLY_CONSTRAINED"
    "thresholds (dev_thermal D) = default_thermal" "dev_burst D = new_burst default_burst_limits"
    "pw_samples (dev_power_window D) = [\<lparr>ps_t = cli_clock, ps_p = Fin 120\<rparr>, \<lparr>ps_t = cli_clock, ps_p = Fin 120\<rparr>]"
proof -
  have "\<exists>g D. rbind (ex_poll (ex_backend (Fin 120) (Fin 88)) cli_clock (start_governor (device_cap (Fin 402))))
      (ex_poll (ex_backend (Fin 120) (Fin 88)) cli_clock) = Inr g \<and>
    gov_devices g = [(default_accel, D)] \<and> gov_budgets g = [] \<and> gov_policy g = example_policy (Fin 402) \<and>
    gov_engine g = new_engine gen_first \<and> dev_last_observed D = cli_clock \<and> dev_hardware_cap D = None \<and>
    dev_latest D = Some (fb_sample (ex_backend (Fin 120) (Fin 88))) \<and> th_state (dev_thermal D) = THERMALLY_CONSTRAINED \<and>
    thresholds (dev_thermal D) = default_thermal \<and> dev_burst D = new_burst default_burst_limits \<and>
    pw_samples (dev_power_window D) = [\<lparr>ps_t = cli_clock, ps_p = Fin 120\<rparr>, \<lparr>ps_t = cli_clock, ps_p = Fin 120\<rparr>]"
    by (simp add: start_defs cli_clock_def poll_defs elapsed_since_def)
  then show thesis by (elim exE conjE) (rule that)
qed

lemma thermal_example_output:
  "example_thermal_constraint = prints [''=== Thermal constraint -> governor decision ==='',
     ''device at 88 C (constrained): requested 250 W -> THROTTLE'']"
proof -
  obtain g D where g: "rbind (ex_poll (ex_backend (Fin 120) (Fin 88)) cli_clock (start_governor (device_cap (Fin 402))))
      (ex_poll (ex_backend (Fin 120) (Fin 88)) cli_clock) = Inr g"
    "gov_devices g = [(default_accel, D)]" "gov_budgets g = []" "gov_policy g = example_policy (Fin 402)"
    "gov_engine g = new_engine gen_first" "dev_last_observed D = cli_clock" "dev_hardware_cap D = None"
    "dev_latest D = Some (fb_sample (ex_backend (Fin 120) (Fin 88)))" "th_state (dev_thermal D) = THERMALLY_CONSTRAINED"
    "thresholds (dev_thermal D) = default_thermal" "dev_burst D = new_burst default_burst_limits"
    "pw_samples (dev_power_window D) = [\<lparr>ps_t = cli_clock, ps_p = Fin 120\<rparr>, \<lparr>ps_t = cli_clock, ps_p = Fin 120\<rparr>]"
    by (rule thermal_polled)
  obtain q where q: "Fin 402 * rnd64 (3 / 5) = Fin q" "201 \<le> q" "q \<le> 245" by (rule reduced_cap)
  have "grid64 246" by simp
  then have "rnd64 (q + eps9_val) \<le> Fin 246" using q(3) eps9_bounds by (intro b64.rnd_le) auto
  then have over: "Fin q + eps9 < Fin 250" by (cases "rnd64 (q + eps9_val)") (auto simp: eps9_Fin)
  have pos: "\<not> Fin q \<le> eps9" using q(2) eps9_bounds by (simp add: eps9_Fin)
  have "grid64 (1 / 2)" using grid64_dyadic [of 1 1] by simp
  then have half: "rnd64 (1 / 2) = Fin (1 / 2)" by (rule b64.rnd_grid)
  have avg: "average_power (dev_power_window D) = Inr (Fin 120)"
    by (simp add: average_power_def g(12) integrated_energy_us_def span_seconds_def half time_defs)
  have w: "0 \<le> q" "q < 402" "\<not> 402 \<le> q" "\<not> q < 0" using q(2,3) by simp_all
  let ?p = "example_policy (Fin 402)"
  have p: "fleet_hard_cap ?p = None" "node_hard_cap ?p = None" "device_hard_cap ?p = Some (Fin 402)" "pol_soft_target ?p = None"
      "0 < observation_freshness ?p"
    by (simp_all add: device_cap_def policy_defaults_def empty_policy_def)
  have tc: "thermal_ceiling D (Some (Fin 402)) = Inr (Some (Fin q))"
    by (simp add: thermal_ceiling_def ceiling_temperature_def g poll_defs is_positive_def permitted_power_def headroom_fraction_def q(1) w)
  have fr: "freshness_of ?p (Some D) cli_clock = Inr CURRENT"
    using p(5) by (simp add: freshness_of_def g ts_is_zero_def cli_clock_def classify_def age_of_def age_from_duration_def)
  have cap: "hardware_ceiling ?p (Some D) = Inr (Some (Fin 402))"
    by (simp add: hardware_ceiling_def tighten_def is_non_negative_def p g(7))
  obtain inp where i: "decision_input_for g (StrongId 2) THROUGHPUT (Fin 250) (Fin 0) (Fin 1) cli_clock = Inr (inp, Some D)"
      "di_policy_current inp" "di_power_freshness inp = CURRENT" "di_thermal_known inp = (th_state (dev_thermal D) \<noteq> TS_UNKNOWN)"
      "di_thermal_state inp = th_state (dev_thermal D)" "di_requested_power inp = Fin 250"
      "hard_limit inp = consider_cap (Some (Fin q)) ''thermal'' (consider_cap
         (if is_valid (StrongId 2 :: budget_id) \<and> has (gov_budgets g) (StrongId 2) then Some (available (gov_budgets g) (StrongId 2)) else None) ''budget''
           (consider_cap (Some (Fin 402)) ''device_hard_cap'' (None, '''')))"
  proof -
    have b: "\<not> bl_enabled (limits (dev_burst D))" by (simp add: g(11) new_burst_def default_burst_limits_def)
    have j: "Joules (Fin 250 * std_max (Fin 1) (lit 0)) = Inr (Fin 250)" by (simp add: std_max_def)
    have av: "rbind (average_power (dev_power_window D)) Watts = Inr (Fin 120)" by (simp add: avg)
    show thesis
      by (rule fresh_input [OF g(2) fr [folded g(4)] cap [folded g(4)] tc av b j, of "StrongId 2" THROUGHPUT "Fin 0"]) (rule that)
  qed
  have "hard_limit inp = (Some (Fin q), ''thermal'')"
    using w by (simp add: i(7) g(3) has_def consider_cap_def is_non_negative_def)
  then have "\<exists>rs. judge inp cli_clock (gov_engine g) = Inr (THROTTLE, rs, Some (Fin q), ''thermal'')"
    using over pos by (simp add: judge_def early_verdict_def i(1-6) g(9) ceiling_of_def Let_def)
  then obtain rs where "judge inp cli_clock (gov_engine g) = Inr (THROTTLE, rs, Some (Fin q), ''thermal'')" by blast
  then obtain d h where "ex_decide 2 THROUGHPUT (Fin 250) cli_clock g = Inr (d, h)" "dec_verdict d = THROTTLE"
    using decide_judged [OF i(1) g(2), of THROTTLE] unfolding ex_decide_def by metis
  then show ?thesis using g(1) by (auto simp: example_thermal_constraint_def verdict_text_def Let_def)
qed

text \<open>A governor whose only device has reported a temperature but no power.\<close>

definition powerless :: "rat \<Rightarrow> governor \<Rightarrow> bool" where
  "powerless t g \<longleftrightarrow> (\<exists>D. gov_devices g = [(default_accel, D)] \<and> dev_last_observed D = 0 \<and> dev_latest D = None \<and>
     dev_hardware_cap D = None \<and> pw_samples (dev_power_window D) = [] \<and> dev_burst D = new_burst default_burst_limits \<and>
     last_temp (dev_thermal D) = Some (Fin t) \<and> thresholds (dev_thermal D) = default_thermal) \<and>
   gov_budgets g = [] \<and> gov_policy g = example_policy (Fin 402)"

lemma powerless_decide:
  assumes "powerless t g" "t = 90 \<or> t = 50"
  obtains d g' where "ex_decide 2 THROUGHPUT (Fin 250) cli_clock g = Inr (d, g')" "dec_verdict d = REVALIDATION_REQUIRED" "powerless t g'"
proof -
  obtain q where q: "Fin 402 * rnd64 (3 / 5) = Fin q" "201 \<le> q" "q \<le> 245" by (rule reduced_cap)
  have "\<exists>d g'. ex_decide 2 THROUGHPUT (Fin 250) cli_clock g = Inr (d, g') \<and> dec_verdict d = REVALIDATION_REQUIRED \<and> powerless t g'"
    using assms q by (auto simp: powerless_def decision_eval)
  with that show thesis by blast
qed

lemma observe_keeps: "last_temp (snd (observe (Some t) now th)) = Some t" "thresholds (snd (observe (Some t) now th)) = thresholds th"
  by (auto simp: observe_def Let_def split: if_splits)

lemma powerless_poll:
  assumes "powerless t g" "fb_power b = None" "fb_temp b = Some (Fin u)"
  obtains g' where "ex_poll b cli_clock g = Inr g'" "powerless u g'"
proof -
  have "\<exists>g'. ex_poll b cli_clock g = Inr g' \<and> powerless u g'"
    using assms by (auto simp: powerless_def ex_poll_def poll_def ts_is_zero_def ingest_def device_of_def ingest_power_def
        ingest_thermal_def fb_sample_def put_device_def allocate_def Let_def cli_clock_def observe_keeps)
  with that show thesis by blast
qed

text \<open>The backend of this example reports no power, so the device is never observed and both decisions demand
  revalidation: neither is the effect of the temperature that the printed text explains.\<close>

lemma recovery_example_output:
  "example_recovery_decision = prints [''=== Recovery from thermally constrained state ==='',
     ''at 90 C: REVALIDATION_REQUIRED (thermal recovery gates execution)'',
     ''after cooling to 50 C: REVALIDATION_REQUIRED (normal eligibility returns)'']"
proof -
  let ?hot = "fb_set_temperature (Fin 90) new_fake"
  have b: "fb_power ?hot = None" "fb_temp ?hot = Some (Fin 90)" "fb_power (fb_set_temperature (Fin 50) ?hot) = None"
    "fb_temp (fb_set_temperature (Fin 50) ?hot) = Some (Fin 50)" by (simp_all add: fb_set_temperature_def new_fake_def)
  have "\<exists>g. ex_poll ?hot cli_clock (start_governor (device_cap (Fin 402))) = Inr g \<and> powerless 90 g"
    by (simp add: start_defs cli_clock_def poll_defs powerless_def)
  then obtain g1 where g1: "ex_poll ?hot cli_clock (start_governor (device_cap (Fin 402))) = Inr g1" "powerless 90 g1" by blast
  obtain g2 where g2: "ex_poll ?hot cli_clock g1 = Inr g2" "powerless 90 g2" using g1(2) b(1,2) by (rule powerless_poll)
  obtain d1 g3 where g3: "ex_decide 2 THROUGHPUT (Fin 250) cli_clock g2 = Inr (d1, g3)" "dec_verdict d1 = REVALIDATION_REQUIRED"
    "powerless 90 g3" using g2(2) by (rule powerless_decide) simp
  obtain g4 where g4: "ex_poll (fb_set_temperature (Fin 50) ?hot) cli_clock g3 = Inr g4" "powerless 50 g4"
    using g3(3) b(3,4) by (rule powerless_poll)
  obtain d2 g5 where g5: "ex_decide 2 THROUGHPUT (Fin 250) cli_clock g4 = Inr (d2, g5)" "dec_verdict d2 = REVALIDATION_REQUIRED"
    using g4(2) by (rule powerless_decide) simp
  show ?thesis by (simp add: example_recovery_decision_def Let_def g1(1) g2(1) g3(1,2) g4(1) g5 verdict_text_def)
qed

lemma stale_example_output:
  "example_stale_telemetry = prints [''=== Stale telemetry must not drive authoritative decisions ==='',
     ''fresh: ALLOW'', ''after 10 s with no telemetry: REVALIDATION_REQUIRED'']"
  by (simp add: example_stale_telemetry_def decision_eval)

section \<open>One decision per class\<close>

text \<open>A governor with one cool device under a cap of 150 W.\<close>

definition cool :: "governor \<Rightarrow> bool" where
  "cool g \<longleftrightarrow> (\<exists>D. gov_devices g = [(default_accel, D)] \<and> dev_last_observed D = cli_clock \<and> dev_hardware_cap D = None \<and>
     dev_latest D = Some (fb_sample (ex_backend (Fin 90) (Fin 45))) \<and> th_state (dev_thermal D) = NORMAL \<and>
     thresholds (dev_thermal D) = default_thermal \<and> dev_burst D = new_burst default_burst_limits \<and>
     pw_samples (dev_power_window D) = [\<lparr>ps_t = cli_clock, ps_p = Fin 90\<rparr>]) \<and>
   gov_budgets g = [] \<and> gov_policy g = example_policy (Fin 150)"

lemma cool_polled:
  obtains g where "ex_poll (ex_backend (Fin 90) (Fin 45)) cli_clock (start_governor (device_cap (Fin 150))) = Inr g" "cool g"
proof -
  have "\<exists>g. ex_poll (ex_backend (Fin 90) (Fin 45)) cli_clock (start_governor (device_cap (Fin 150))) = Inr g \<and> cool g"
    by (simp add: start_defs cli_clock_def poll_defs cool_def)
  then show thesis by (elim exE conjE) (rule that)
qed

lemma cool_decide:
  assumes "cool g" obtains d h where "ex_decide 2 pc (Fin 200) cli_clock g = Inr (d, h)" "dec_verdict d = ALLOW_WITH_LIMIT" "cool h"
proof -
  obtain D where D: "gov_devices g = [(default_accel, D)]" "dev_last_observed D = cli_clock" "dev_hardware_cap D = None"
      "dev_latest D = Some (fb_sample (ex_backend (Fin 90) (Fin 45)))" "th_state (dev_thermal D) = NORMAL"
      "thresholds (dev_thermal D) = default_thermal" "dev_burst D = new_burst default_burst_limits"
      "pw_samples (dev_power_window D) = [\<lparr>ps_t = cli_clock, ps_p = Fin 90\<rparr>]"
    and g: "gov_budgets g = []" "gov_policy g = example_policy (Fin 150)" using assms unfolding cool_def by blast
  let ?p = "example_policy (Fin 150)"
  have p: "fleet_hard_cap ?p = None" "node_hard_cap ?p = None" "device_hard_cap ?p = Some (Fin 150)" "0 < observation_freshness ?p"
    by (simp_all add: device_cap_def policy_defaults_def empty_policy_def)
  have fr: "freshness_of ?p (Some D) cli_clock = Inr CURRENT"
    using p(4) by (simp add: freshness_of_def D ts_is_zero_def cli_clock_def classify_def age_of_def age_from_duration_def)
  have cap: "hardware_ceiling ?p (Some D) = Inr (Some (Fin 150))" by (simp add: hardware_ceiling_def tighten_def is_non_negative_def p D(3))
  have tc: "thermal_ceiling D (Some (Fin 150)) = Inr (Some (Fin 150))"
    by (simp add: thermal_ceiling_def ceiling_temperature_def D poll_defs is_positive_def permitted_power_def headroom_fraction_def)
  have av: "rbind (average_power (dev_power_window D)) Watts = Inr (Fin 90)" by (simp add: average_power_def D(8))
  have b: "\<not> bl_enabled (limits (dev_burst D))" by (simp add: D(7) new_burst_def default_burst_limits_def)
  have j: "Joules (Fin 200 * std_max (Fin 1) (lit 0)) = Inr (Fin 200)" by (simp add: std_max_def)
  obtain inp where i: "decision_input_for g (StrongId 2) pc (Fin 200) (Fin 0) (Fin 1) cli_clock = Inr (inp, Some D)"
      "di_policy_current inp" "di_power_freshness inp = CURRENT" "di_thermal_known inp = (th_state (dev_thermal D) \<noteq> TS_UNKNOWN)"
      "di_thermal_state inp = th_state (dev_thermal D)" "di_requested_power inp = Fin 200"
      "hard_limit inp = consider_cap (Some (Fin 150)) ''thermal'' (consider_cap
         (if is_valid (StrongId 2 :: budget_id) \<and> has (gov_budgets g) (StrongId 2) then Some (available (gov_budgets g) (StrongId 2)) else None) ''budget''
           (consider_cap (Some (Fin 150)) ''device_hard_cap'' (None, '''')))"
    by (rule fresh_input [OF D(1) fr [folded g(2)] cap [folded g(2)] tc av b j, of "StrongId 2" pc "Fin 0"]) (rule that)
  have "hard_limit inp = (Some (Fin 150), ''device_hard_cap'')" by (simp add: i(7) g(1) has_def consider_cap_def is_non_negative_def)
  then have "\<exists>rs. judge inp cli_clock (gov_engine g) = Inr (ALLOW_WITH_LIMIT, rs, Some (Fin 150), ''device_hard_cap'')"
    by (simp add: judge_def early_verdict_def i(1-6) D(5) ceiling_of_def Let_def)
  then obtain rs where rs: "judge inp cli_clock (gov_engine g) = Inr (ALLOW_WITH_LIMIT, rs, Some (Fin 150), ''device_hard_cap'')" by blast
  obtain d h where h: "decide_for (StrongId 2) (StrongId 1) pc (Fin 200) (Fin 0) (Fin 1) cli_clock g = Inr (d, h)" "dec_verdict d = ALLOW_WITH_LIMIT"
      "gov_devices h = gov_devices g" "gov_policy h = gov_policy g" "gov_budgets h = gov_budgets g"
    by (rule decide_judged [OF i(1) D(1) rs, of "StrongId 1"]) (rule that)
  then have "cool h" using assms by (simp add: cool_def)
  then show thesis using that h(1,2) by (simp add: ex_decide_def)
qed

lemma cool_classes:
  "cool g \<Longrightarrow> class_decisions pcs g = Inr (map (\<lambda>pc. ''class '' @ class_to_string pc @ '' request 200 W -> ALLOW_WITH_LIMIT'') pcs)"
proof (induction pcs arbitrary: g)
  case (Cons pc pcs)
  obtain d h where "ex_decide 2 pc (Fin 200) cli_clock g = Inr (d, h)" "dec_verdict d = ALLOW_WITH_LIMIT" "cool h"
    using Cons.prems by (rule cool_decide)
  then show ?case using Cons.IH [of h] by (simp add: verdict_text_def)
qed simp

text \<open>The class of the workload makes no difference to the decision, only the cap does.\<close>

lemma classes_example_output:
  "example_workload_classes = prints (''=== Workload power classes -> governor decisions ==='' #
     map (\<lambda>c. ''class '' @ c @ '' request 200 W -> ALLOW_WITH_LIMIT'')
       [''LATENCY_CRITICAL'', ''THROUGHPUT'', ''BATCH'', ''BACKGROUND'', ''ENERGY_OPTIMIZED''])"
proof -
  obtain g where "ex_poll (ex_backend (Fin 90) (Fin 45)) cli_clock (start_governor (device_cap (Fin 150))) = Inr g" "cool g" by (rule cool_polled)
  then show ?thesis by (simp add: example_workload_classes_def cool_classes del: class_decisions.simps)
qed

end
