(* ===== verification/Document.thy ===== *)
theory Document
  imports Decision Scan "HOL-Library.Monad_Syntax"
begin

text \<open>
  The JSON document of a decision. A reader of JSON texts (RFC 8259, for ASCII escapes) specifies what a document
  means; the document that \<^verbatim>\<open>DecisionEngine::build_json\<close> writes is read back as an object with the fields of the
  decision.
\<close>

section \<open>A reader of JSON texts\<close>

datatype json = Null | Boolean bool | Number rat | Text string | Array "json list" | Object "(string \<times> json) list"

definition is_ws :: "char \<Rightarrow> bool" where
  "is_ws c \<longleftrightarrow> of_char c \<in> {9 :: nat, 10, 13, 32}"

definition skip_ws :: "string \<Rightarrow> string" where
  "skip_ws s = dropWhile is_ws s"

definition escaped :: "char \<Rightarrow> char option" where
  "escaped c = (if c = quote \<or> c = backslash \<or> c = CHR ''/'' then Some c
     else if c = CHR ''n'' then Some (CHR 0x0A)
     else if c = CHR ''r'' then Some (CHR 0x0D)
     else if c = CHR ''t'' then Some (CHR 0x09)
     else if c = CHR ''b'' then Some (CHR 0x08)
     else if c = CHR ''f'' then Some (CHR 0x0C)
     else None)"

definition code_unit :: "string \<Rightarrow> char option" where
  "code_unit s = (if list_all is_hex s \<and> base_value 16 s < 128 then Some (char_of (base_value 16 s)) else None)"

definition prefixed :: "char option \<Rightarrow> (string \<times> string) option \<Rightarrow> (string \<times> string) option" where
  "prefixed c x = do { c \<leftarrow> c; (s, t) \<leftarrow> x; Some (c # s, t) }"

text \<open>The characters of a string after its opening quote, and what follows the closing one.\<close>

fun read_chars :: "string \<Rightarrow> (string \<times> string) option" where
  "read_chars [] = None"
| "read_chars (c # s) =
     (if c = quote then Some ([], s)
      else if c = backslash then
        (case s of
           [] \<Rightarrow> None
         | e # t \<Rightarrow>
             if e = CHR ''u'' then
               (case t of h1 # h2 # h3 # h4 # u \<Rightarrow> prefixed (code_unit [h1, h2, h3, h4]) (read_chars u) | _ \<Rightarrow> None)
             else prefixed (escaped e) (read_chars t))
      else if (of_char c :: nat) < 32 then None
      else prefixed (Some c) (read_chars s))"

definition read_fraction :: "string \<Rightarrow> (string \<times> string) option" where
  "read_fraction s = (case s of
     c # t \<Rightarrow> if c \<noteq> CHR ''.'' then Some ([], s)
       else if takeWhile is_digit t = [] then None
       else Some (takeWhile is_digit t, dropWhile is_digit t)
   | [] \<Rightarrow> Some ([], []))"

definition read_number :: "string \<Rightarrow> (json \<times> string) option" where
  "read_number s =
     (let (neg, t) = (case s of c # t \<Rightarrow> if c = CHR ''-'' then (True, t) else (False, s) | [] \<Rightarrow> (False, []));
          ds = takeWhile is_digit t
      in if ds = [] \<or> hd ds = CHR ''0'' \<and> length ds \<noteq> 1 then None
         else do {
           (fs, u) \<leftarrow> read_fraction (dropWhile is_digit t);
           (e, r) \<leftarrow> scan_exponent True (CHR ''e'') u;
           let q = of_nat (digits_value (ds @ fs)) * rpow 10 (e - int (length fs));
           Some (Number (if neg then - q else q), r)
         })"

text \<open>Values, the elements of an array after its bracket and the members of an object after its brace. The first
  argument bounds the depth of the recursion; the length of the text suffices.\<close>

fun read_value :: "nat \<Rightarrow> string \<Rightarrow> (json \<times> string) option"
and read_elements :: "nat \<Rightarrow> string \<Rightarrow> (json list \<times> string) option"
and read_members :: "nat \<Rightarrow> string \<Rightarrow> ((string \<times> json) list \<times> string) option" where
  "read_value 0 s = None"
| "read_value (Suc n) s = (case skip_ws s of
     [] \<Rightarrow> None
   | c # t \<Rightarrow>
       if c = quote then do { (x, r) \<leftarrow> read_chars t; Some (Text x, r) }
       else if c = CHR ''['' then
         (case skip_ws t of
            [] \<Rightarrow> None
          | d # u \<Rightarrow> if d = CHR '']'' then Some (Array [], u)
              else do { (vs, r) \<leftarrow> read_elements n t; Some (Array vs, r) })
       else if c = CHR ''{'' then
         (case skip_ws t of
            [] \<Rightarrow> None
          | d # u \<Rightarrow> if d = CHR ''}'' then Some (Object [], u)
              else do { (ms, r) \<leftarrow> read_members n t; Some (Object ms, r) })
       else if take 3 t = ''ull'' \<and> c = CHR ''n'' then Some (Null, drop 3 t)
       else if take 3 t = ''rue'' \<and> c = CHR ''t'' then Some (Boolean True, drop 3 t)
       else if take 4 t = ''alse'' \<and> c = CHR ''f'' then Some (Boolean False, drop 4 t)
       else read_number (c # t))"
| "read_elements 0 s = None"
| "read_elements (Suc n) s = do {
     (v, r) \<leftarrow> read_value n s;
     case skip_ws r of
       [] \<Rightarrow> None
     | c # t \<Rightarrow>
         if c = CHR '']'' then Some ([v], t)
         else if c = CHR '','' then do { (vs, r) \<leftarrow> read_elements n t; Some (v # vs, r) }
         else None
   }"
| "read_members 0 s = None"
| "read_members (Suc n) s = (case skip_ws s of
     [] \<Rightarrow> None
   | q # t \<Rightarrow>
       if q \<noteq> quote then None
       else do {
         (k, r) \<leftarrow> read_chars t;
         case skip_ws r of
           [] \<Rightarrow> None
         | d # u \<Rightarrow>
             if d \<noteq> CHR '':'' then None
             else do {
               (v, r) \<leftarrow> read_value n u;
               case skip_ws r of
                 [] \<Rightarrow> None
               | c # t \<Rightarrow>
                   if c = CHR ''}'' then Some ([(k, v)], t)
                   else if c = CHR '','' then do { (ms, r) \<leftarrow> read_members n t; Some ((k, v) # ms, r) }
                   else None
             }
       })"

definition read_json :: "string \<Rightarrow> json option" where
  "read_json s = do { (v, r) \<leftarrow> read_value (length s + 1) s; if skip_ws r = [] then Some v else None }"

section \<open>Texts that are read as a value\<close>

definition ends_value :: "string \<Rightarrow> bool" where
  "ends_value t \<longleftrightarrow> t = [] \<or> hd t \<in> {CHR '','', CHR '']'', CHR ''}''}"

definition reads :: "json \<Rightarrow> string \<Rightarrow> bool" where
  "reads v x \<longleftrightarrow> (\<forall>n t. length x < n \<longrightarrow> ends_value t \<longrightarrow> read_value n (x @ t) = Some (v, t))"

lemma readsI: "(\<And>n t. length x \<le> n \<Longrightarrow> ends_value t \<Longrightarrow> read_value (Suc n) (x @ t) = Some (v, t)) \<Longrightarrow> reads v x"
  unfolding reads_def
proof (intro allI impI)
  fix n t assume step: "\<And>n t. length x \<le> n \<Longrightarrow> ends_value t \<Longrightarrow> read_value (Suc n) (x @ t) = Some (v, t)"
    and "length x < n" "ends_value t"
  then show "read_value n (x @ t) = Some (v, t)" using step [of "n - 1" t] by (cases n) simp_all
qed

lemma readsD: "reads v x \<Longrightarrow> length x < n \<Longrightarrow> ends_value t \<Longrightarrow> read_value n (x @ t) = Some (v, t)"
  by (simp add: reads_def)

lemma reads_json: "reads v x \<Longrightarrow> read_json x = Some v"
  using readsD [of v x "length x + 1" "[]"] by (simp add: read_json_def ends_value_def skip_ws_def)

lemma skip_ws_head [simp]: "\<not> is_ws c \<Longrightarrow> skip_ws (c # s) = c # s"
  by (simp add: skip_ws_def)

lemma ws_facts [simp]: "\<not> is_ws quote" "\<not> is_ws (CHR ''['')" "\<not> is_ws (CHR '']'')" "\<not> is_ws (CHR ''{'')" "\<not> is_ws (CHR ''}'')"
  "\<not> is_ws (CHR '','')" "\<not> is_ws (CHR '':'')" "\<not> is_ws (CHR ''n'')" "\<not> is_ws (CHR ''t'')" "\<not> is_ws (CHR ''f'')"
  by (simp_all add: is_ws_def quote_def)

lemma quote_facts [simp]: "quote \<noteq> CHR ''['' " "quote \<noteq> CHR ''{''" "quote \<noteq> CHR '']''" "CHR '']'' \<noteq> quote" "quote \<noteq> CHR ''}''" "quote \<noteq> backslash"
  "CHR ''['' \<noteq> quote" "CHR ''{'' \<noteq> quote" "CHR ''n'' \<noteq> quote" "CHR ''t'' \<noteq> quote" "CHR ''f'' \<noteq> quote" "backslash \<noteq> quote"
  by (simp_all add: quote_def backslash_def)

lemma reads_null: "reads Null ''null''" and reads_bool: "reads (Boolean b) (json_bool b)"
  by (auto intro!: readsI simp: json_bool_def)

section \<open>Strings\<close>

definition clean :: "string \<Rightarrow> bool" where
  "clean s \<longleftrightarrow> quote \<notin> set s \<and> backslash \<notin> set s"

lemma control_unit: "n < 32 \<Longrightarrow> code_unit [CHR ''0'', CHR ''0'', hex_digit (n div 16), hex_digit (n mod 16)] = Some (char_of n)"
proof -
  have "\<forall>n \<in> set [0..<32]. code_unit [CHR ''0'', CHR ''0'', hex_digit (n div 16), hex_digit (n mod 16)] = Some (char_of n)"
    by code_simp
  then show "n < 32 \<Longrightarrow> code_unit [CHR ''0'', CHR ''0'', hex_digit (n div 16), hex_digit (n mod 16)] = Some (char_of n)" by simp
qed

lemma escaped_facts: "escaped (CHR ''n'') = Some (char_of (10 :: nat))" "escaped (CHR ''r'') = Some (char_of (13 :: nat))"
  "escaped (CHR ''t'') = Some (char_of (9 :: nat))"
  by code_simp+

lemma read_control:
  assumes "(n :: nat) < 32" shows "read_chars (escape_char (char_of n) @ t) = prefixed (Some (char_of n)) (read_chars t)"
proof -
  have n: "of_char (char_of n :: char) = n" using assms by simp
  then have "(char_of n :: char) \<noteq> quote" "(char_of n :: char) \<noteq> backslash"
    using assms by (auto simp: quote_def backslash_def dest: arg_cong [where f = "of_char :: char \<Rightarrow> nat"])
  then show ?thesis using assms n control_unit [OF assms]
    by (auto simp: escape_char_def Let_def escaped_facts)
qed

lemma read_escape:
  assumes "c \<noteq> quote" "c \<noteq> backslash" shows "read_chars (escape_char c @ t) = prefixed (Some c) (read_chars t)"
proof (cases "(of_char c :: nat) < 32")
  case True
  then show ?thesis using read_control [OF True, of t] by simp
next
  case False
  then show ?thesis using assms by (auto simp: escape_char_def Let_def)
qed

lemma read_chars_escape: "clean s \<Longrightarrow> read_chars (json_escape s @ quote # t) = Some (s, t)"
  by (induction s) (auto simp: clean_def json_escape_def read_escape prefixed_def)

lemma reads_text: "clean s \<Longrightarrow> reads (Text s) (quoted (json_escape s))"
  using read_chars_escape by (auto intro!: readsI simp: quoted_def)

section \<open>Numbers\<close>

lemma dec_digits_leading: "dec_digits n = CHR ''0'' # cs \<Longrightarrow> cs = []"
proof (induction n arbitrary: cs rule: less_induct)
  case (less n)
  show ?case
  proof (cases "n < 10")
    case True
    then show ?thesis using less.prems by (simp add: dec_digits_small)
  next
    case False
    obtain c ds where d: "dec_digits (n div 10) = c # ds" by (cases "dec_digits (n div 10)") simp_all
    then have "c = CHR ''0''" using less.prems False by (simp add: dec_digits_large)
    then have "ds = []" using less.IH [of "n div 10"] d False by simp
    then have "dec_digits (n div 10) = dec_digits 0"
      using d \<open>c = CHR ''0''\<close> by (simp add: dec_digits_small hex_digit_def)
    then show ?thesis using dec_digits_inj [of "n div 10" 0] False by simp
  qed
qed

lemma ends_facts:
  assumes "ends_value t"
  shows "ends_number t" "read_fraction t = Some ([], t)" "scan_exponent True (CHR ''e'') t = Some (0, t)"
  using assms by (cases t; auto simp: ends_value_def ends_number_def is_digit_def read_fraction_def scan_exponent_def lower_def)+

lemma read_value_number:
  assumes "is_digit c" "read_number (c # s) = Some (v, t)" shows "read_value (Suc n) (c # s) = Some (v, t)"
proof -
  have "\<not> is_ws c" "c \<noteq> quote" "c \<noteq> CHR ''[''" "c \<noteq> CHR ''{''" "c \<noteq> CHR ''n''" "c \<noteq> CHR ''t''" "c \<noteq> CHR ''f''"
    using assms(1) by (auto simp: is_digit_def is_ws_def quote_def)
  then show ?thesis using assms(2) by simp
qed

lemma read_number_dec:
  assumes "ends_number u" "read_fraction u = Some (fs, r)" "scan_exponent True (CHR ''e'') r = Some (0, t)"
  shows "read_number (dec_digits n @ u) = Some (Number (of_nat (digits_value (dec_digits n @ fs)) / 10 ^ length fs), t)"
proof -
  obtain c cs where c: "dec_digits n = c # cs" "is_digit c" by (rule dec_digits_hd)
  have "c \<noteq> CHR ''-''" using c(2) by (auto simp: is_digit_def)
  moreover have "hd (dec_digits n) = CHR ''0'' \<Longrightarrow> length (dec_digits n) = 1" using dec_digits_leading [of n] c(1) by auto
  ultimately show ?thesis using assms scan_digits [OF assms(1), of n] c(1)
    by (auto simp: read_number_def Let_def rpow_def)
qed

lemma reads_nat: "reads (Number (of_nat n)) (dec_digits n)"
proof (rule readsI)
  fix m t assume t: "ends_value t"
  obtain c cs where c: "dec_digits n = c # cs" "is_digit c" by (rule dec_digits_hd)
  have "read_number (dec_digits n @ t) = Some (Number (of_nat n), t)"
    using read_number_dec [OF ends_facts [OF t]] digits_value_dec [of n] by simp
  then show "read_value (Suc m) (dec_digits n @ t) = Some (Number (of_nat n), t)"
    using read_value_number [OF c(2)] c(1) by simp
qed

lemma foldl_digits: "foldl (\<lambda>v c. v * 10 + d c) a ys = a * 10 ^ length ys + foldl (\<lambda>v c. v * 10 + d c) (0 :: nat) ys"
proof (induction ys arbitrary: a)
  case (Cons y ys)
  show ?case using Cons.IH [of "a * 10 + d y"] Cons.IH [of "d y"] by (simp add: add_mult_distrib)
qed simp

lemma digits_value_append: "digits_value (xs @ ys) = digits_value xs * 10 ^ length ys + digits_value ys"
  using foldl_digits [of "\<lambda>c. of_char c - 48" "digits_value xs" ys] by (simp add: digits_value_def)

lemma digits_value_zeros: "digits_value (replicate k (CHR ''0'')) = 0"
  by (induction k) (simp_all add: digits_value_def)

lemma fraction_digits_facts:
  assumes "m < 1000000"
  shows "length (fraction_digits m) = 6" "digits_value (fraction_digits m) = m" "\<forall>c \<in> set (fraction_digits m). is_digit c"
proof -
  have "length (dec_digits m) \<le> 6" using dec_digits_length [of m 5] assms by simp
  then show "length (fraction_digits m) = 6" by (simp add: fraction_digits_def Let_def)
  show "digits_value (fraction_digits m) = m"
    using digits_value_dec [of m] by (simp add: fraction_digits_def Let_def digits_value_append digits_value_zeros)
  show "\<forall>c \<in> set (fraction_digits m). is_digit c"
    using digits_value_dec [of m] by (auto simp: fraction_digits_def Let_def is_digit_def)
qed

text \<open>The number \<^verbatim>\<open>std::to_string\<close> prints: the value rounded to millionths.\<close>

definition millionths :: "rat \<Rightarrow> rat" where
  "millionths q = of_int (rhe (q * 1000000)) / 1000000"

lemma millionths_near: "\<bar>millionths q - q\<bar> \<le> 1 / 2000000"
  using rhe_error [of "q * 1000000"] by (simp add: millionths_def abs_le_iff field_simps)

lemma reads_fixed:
  assumes "0 \<le> q" shows "reads (Number (millionths q)) (format_f (Fin q))"
proof (rule readsI)
  fix k t assume t: "ends_value t"
  define n where "n = nat (rhe (q * 1000000))"
  let ?fs = "fraction_digits (n mod 1000000)" and ?u = "CHR ''.'' # fraction_digits (n mod 1000000) @ t"
  have n: "rat_of_nat n = of_int (rhe (q * 1000000))" using rhe_ge [of 0 "q * 1000000"] assms by (simp add: n_def)
  have eq: "format_f (Fin q) @ t = dec_digits (n div 1000000) @ ?u" using assms by (simp add: format_f_def n_def Let_def)
  note fs = fraction_digits_facts [of "n mod 1000000"]
  have "takeWhile is_digit t = []" "dropWhile is_digit t = t" using ends_facts(1) [OF t] by (cases t; simp add: ends_number_def)+
  then have "takeWhile is_digit (?fs @ t) = ?fs" "dropWhile is_digit (?fs @ t) = t" using fs(3) by (simp_all add: takeWhile_append2 dropWhile_append2)
  moreover have "?fs \<noteq> []" using fs(1) by auto
  ultimately have "read_fraction ?u = Some (?fs, t)" by (simp add: read_fraction_def)
  moreover have "digits_value (dec_digits (n div 1000000) @ ?fs) = n"
    using fs(1,2) digits_value_dec [of "n div 1000000"] by (simp add: digits_value_append)
  moreover have "ends_number ?u" by (simp add: ends_number_def is_digit_def)
  ultimately have num: "read_number (format_f (Fin q) @ t) = Some (Number (millionths q), t)"
    using read_number_dec [of ?u ?fs t t "n div 1000000"] ends_facts(3) [OF t] fs(1) n by (simp add: eq millionths_def)
  obtain c cs where c: "dec_digits (n div 1000000) = c # cs" "is_digit c" by (rule dec_digits_hd)
  have "format_f (Fin q) @ t = c # cs @ ?u" by (simp add: eq c(1))
  then show "read_value (Suc k) (format_f (Fin q) @ t) = Some (Number (millionths q), t)"
    using read_value_number [OF c(2), of "cs @ ?u" "Number (millionths q)" t k] num by simp
qed

section \<open>Arrays and objects\<close>

fun commas :: "string list \<Rightarrow> string" where
  "commas [] = []"
| "commas (x # xs) = x @ concat (map (Cons (CHR '','')) xs)"

lemma commas_Cons: "commas (x # y # ys) = x @ CHR '','' # commas (y # ys)"
  by simp

lemma read_elements_commas:
  assumes "list_all2 reads vs xs" "xs \<noteq> []" "length (commas xs) + 1 < n"
  shows "read_elements n (commas xs @ CHR '']'' # t) = Some (vs, t)"
  using assms
proof (induction vs xs arbitrary: n rule: list_all2_induct)
  case (Cons v vs x xs)
  from Cons.prems(2) obtain m where n: "n = Suc m" by (cases n) auto
  show ?case
  proof (cases xs)
    case Nil
    then show ?thesis using Cons n readsD [OF Cons.hyps(1), of m "CHR '']'' # t"] by (simp add: ends_value_def)
  next
    case (Cons y ys)
    have "read_value m (x @ CHR '','' # commas xs @ CHR '']'' # t) = Some (v, CHR '','' # commas xs @ CHR '']'' # t)"
      using Cons.prems(2) n Cons by (intro readsD [OF Cons.hyps(1)]) (simp_all add: ends_value_def)
    moreover have "read_elements m (commas xs @ CHR '']'' # t) = Some (vs, t)"
      using Cons.prems(2) n Cons by (intro Cons.IH) simp_all
    ultimately show ?thesis using n Cons by (simp only: commas_Cons) simp
  qed
qed simp

definition member_text :: "string \<times> string \<Rightarrow> string" where
  "member_text = (\<lambda>(k, x). quoted (json_escape k) @ CHR '':'' # x)"

definition reads_member :: "string \<times> json \<Rightarrow> string \<times> string \<Rightarrow> bool" where
  "reads_member m f \<longleftrightarrow> fst m = fst f \<and> clean (fst f) \<and> reads (snd m) (snd f)"

lemma read_member:
  assumes "reads_member m f" "length (member_text f) < n" "ends_value t"
  shows "read_members (Suc n) (member_text f @ t) = (case skip_ws t of
     [] \<Rightarrow> None
   | c # u \<Rightarrow> if c = CHR ''}'' then Some ([m], u)
       else if c = CHR '','' then do { (ms, r) \<leftarrow> read_members n u; Some (m # ms, r) }
       else None)"
proof -
  obtain k v x where mf: "m = (k, v)" "f = (k, x)" "clean k" "reads v x"
    using assms(1) unfolding reads_member_def by (cases m; cases f) auto
  have "read_chars (json_escape k @ quote # CHR '':'' # x @ t) = Some (k, CHR '':'' # x @ t)"
    by (rule read_chars_escape [OF mf(3)])
  moreover have "read_value n (x @ t) = Some (v, t)"
    using assms(2,3) mf by (intro readsD) (simp_all add: member_text_def)
  ultimately show ?thesis unfolding mf(1,2) by (simp add: member_text_def quoted_def)
qed

lemma read_members_commas:
  assumes "list_all2 reads_member ms fs" "fs \<noteq> []" "length (commas (map member_text fs)) + 1 < n"
  shows "read_members n (commas (map member_text fs) @ CHR ''}'' # t) = Some (ms, t)"
  using assms
proof (induction ms fs arbitrary: n rule: list_all2_induct)
  case (Cons m ms f fs)
  from Cons.prems(2) obtain k where n: "n = Suc k" by (cases n) auto
  show ?case
  proof (cases fs)
    case Nil
    then show ?thesis using Cons n read_member [OF Cons.hyps(1), of k "CHR ''}'' # t"] by (simp add: ends_value_def)
  next
    case (Cons g gs)
    let ?r = "commas (map member_text fs) @ CHR ''}'' # t"
    have "read_members (Suc k) (member_text f @ CHR '','' # ?r) = do { (ms, r) \<leftarrow> read_members k ?r; Some (m # ms, r) }"
      using Cons.prems(2) n Cons read_member [OF Cons.hyps(1), of k "CHR '','' # ?r"] by (simp add: ends_value_def)
    moreover have "read_members k ?r = Some (ms, t)" using Cons.prems(2) n Cons by (intro Cons.IH) simp_all
    ultimately show ?thesis using n Cons by (simp only: list.map commas_Cons) simp
  qed
qed simp

lemma reads_head:
  assumes "reads v x" obtains c s where "\<forall>t. skip_ws (x @ t) = c # s @ t" "c \<noteq> CHR '']''"
proof -
  have some: "read_value (Suc (length x)) x = Some (v, [])" using readsD [OF assms, of "Suc (length x)" "[]"] by (simp add: ends_value_def)
  then obtain c s where x: "skip_ws x = c # s" by (cases "skip_ws x") simp_all
  have "read_number (CHR '']'' # s) = None" by (simp add: read_number_def is_digit_def)
  then have "c \<noteq> CHR '']''" using some x by auto
  moreover have "skip_ws (x @ t) = c # s @ t" for t
  proof -
    obtain w where "x = w @ c # s" "\<forall>y \<in> set w. is_ws y" "\<not> is_ws c"
      using x unfolding skip_ws_def by (metis hd_dropWhile list.distinct(1) list.sel(1) set_takeWhileD takeWhile_dropWhile_id)
    then show ?thesis by (simp add: skip_ws_def dropWhile_append2)
  qed
  ultimately show thesis using that by blast
qed

lemma reads_array:
  assumes "list_all2 reads vs xs" shows "reads (Array vs) (CHR ''['' # commas xs @ '']'')"
proof (rule readsI)
  fix n t assume n: "length (CHR ''['' # commas xs @ '']'') \<le> n" and t: "ends_value t"
  show "read_value (Suc n) ((CHR ''['' # commas xs @ '']'') @ t) = Some (Array vs, t)"
  proof (cases xs)
    case Nil
    then show ?thesis using assms by simp
  next
    case (Cons x ys)
    then obtain v where "reads v x" using assms by (auto simp: list_all2_Cons2)
    then obtain c s where "\<forall>t. skip_ws (x @ t) = c # s @ t" "c \<noteq> CHR '']''" by (rule reads_head)
    then have "skip_ws (commas xs @ CHR '']'' # t) = c # s @ concat (map (Cons (CHR '','')) ys) @ CHR '']'' # t" "c \<noteq> CHR '']''"
      using Cons by simp_all
    moreover have "read_elements n (commas xs @ CHR '']'' # t) = Some (vs, t)"
      using n Cons by (intro read_elements_commas [OF assms]) simp_all
    ultimately show ?thesis by simp
  qed
qed

lemma reads_object:
  assumes "list_all2 reads_member ms fs" "fs \<noteq> []"
  shows "reads (Object ms) (CHR ''{'' # commas (map member_text fs) @ ''}'')"
proof (rule readsI)
  fix n t assume n: "length (CHR ''{'' # commas (map member_text fs) @ ''}'') \<le> n" and t: "ends_value t"
  obtain f gs where f: "fs = f # gs" using assms(2) by (cases fs) auto
  obtain s where "commas (map member_text fs) = quote # s" by (cases f) (simp add: f member_text_def quoted_def)
  moreover have "read_members n (commas (map member_text fs) @ CHR ''}'' # t) = Some (ms, t)"
    using n by (intro read_members_commas [OF assms]) simp_all
  ultimately show "read_value (Suc n) ((CHR ''{'' # commas (map member_text fs) @ ''}'') @ t) = Some (Object ms, t)" by simp
qed

section \<open>What the writer writes\<close>

text \<open>An operation of the writer that puts one item, with a comma unless it is the first.\<close>

locale json_items =
  fixes put :: "'a \<Rightarrow> json_writer \<Rightarrow> json_writer" and item :: "'a \<Rightarrow> string"
  assumes put_text: "jbuf (put x w) = jbuf w @ (if jfirst w then [] else '','') @ item x"
    and put_first: "\<not> jfirst (put x w)"
begin

lemma fold_later: "\<not> jfirst w \<Longrightarrow> jbuf (fold put xs w) = jbuf w @ concat (map (Cons (CHR '','')) (map item xs)) \<and> \<not> jfirst (fold put xs w)"
  by (induction xs arbitrary: w) (simp_all add: put_text put_first)

lemma fold_items:
  assumes "jfirst w" shows "jbuf (fold put xs w) = jbuf w @ commas (map item xs)" "jfirst (fold put xs w) \<longleftrightarrow> xs = []"
  using assms fold_later [of "put x w" for x] by (cases xs; simp add: put_text put_first)+

end

interpretation fields: json_items put_field member_text
  by unfold_locales (auto simp: put_field_jbuf member_text_def put_field_def raw_value_def raw_key_def append_string_def j_comma_def
      quoted_def split: prod.split)

interpretation elements: json_items "\<lambda>r. j_value (JStr r)" "\<lambda>r. quoted (json_escape r)"
  by unfold_locales (simp_all add: j_value_def append_value_def append_string_def jbuf_comma quoted_def j_comma_def)

definition reasons_text :: "decision \<Rightarrow> string" where
  "reasons_text d = CHR ''['' # commas (map (\<lambda>r. quoted (json_escape r)) (reasons d)) @ '']''"

lemma build_json_text:
  "build_json d = CHR ''{'' # commas (map member_text (json_fields d @ [(''reasons'', reasons_text d)])) @ ''}''"
proof -
  let ?w1 = "fold put_field (json_fields d) (begin_object new_json)"
  let ?w2 = "begin_array (raw_key ''reasons'' ?w1)"
  have ne: "json_fields d \<noteq> []" by (simp add: json_fields_def Let_def)
  have w1: "jbuf ?w1 = CHR ''{'' # commas (map member_text (json_fields d))" "\<not> jfirst ?w1"
    using fields.fold_items [of "begin_object new_json" "json_fields d"] ne
    by (simp_all add: begin_object_def j_open_def new_json_def)
  have "jfirst ?w2" "jbuf ?w2 = jbuf ?w1 @ '','' @ quoted (json_escape ''reasons'') @ '':['' "
    using w1(2) by (simp_all add: begin_array_def j_open_def raw_key_def append_string_def jbuf_comma quoted_def)
  then have "jbuf (fold (\<lambda>r. j_value (JStr r)) (reasons d) ?w2) =
      jbuf ?w1 @ '','' @ quoted (json_escape ''reasons'') @ '':['' @ commas (map (\<lambda>r. quoted (json_escape r)) (reasons d))"
    using elements.fold_items(1) by simp
  moreover have "commas (map member_text (json_fields d @ [(''reasons'', reasons_text d)])) =
      commas (map member_text (json_fields d)) @ CHR '','' # member_text (''reasons'', reasons_text d)"
    using ne by (cases "json_fields d") simp_all
  ultimately show ?thesis
    by (simp add: build_json_def Let_def end_object_def end_array_def j_close_def w1(1) member_text_def reasons_text_def)
qed

section \<open>The document of a decision\<close>

definition limit_value :: "watts option \<Rightarrow> json" where
  "limit_value l = (case l of Some (Fin q) \<Rightarrow> Number (millionths q) | _ \<Rightarrow> Null)"

definition document :: "decision \<Rightarrow> json" where
  "document d = (let ex = explanation d in Object
     [(''id'', Text (dec_digits (unat (raw (dec_id d))))),
      (''generation'', Number (of_nat (unat (gen_raw (dec_generation d))))),
      (''verdict'', Text (decision_to_string (dec_verdict d))),
      (''effective_state'', Text (perf_to_string (effective_state d))),
      (''recommended_limit_w'', limit_value (recommended_limit d)),
      (''binding_kind'', Text (binding_kind ex)),
      (''telemetry_current'', Boolean (telemetry_current ex)),
      (''telemetry_freshness'', Text (freshness_to_string (telemetry_freshness ex))),
      (''thermal_state'', Text (thermal_to_string (ex_thermal_state ex))),
      (''power_class'', Text (class_to_string (ex_power_class ex))),
      (''burst_available'', Boolean (ex_burst_available ex)),
      (''evidence'', Text (provenance_to_string (ex_evidence ex))),
      (''why'', Text (why ex)),
      (''what_would_change'', Text (what_would_change ex)),
      (''reasons'', Array (map Text (reasons d)))])"

lemma clean_simps [simp]: "clean []" "clean (c # s) \<longleftrightarrow> c \<noteq> quote \<and> c \<noteq> backslash \<and> clean s" "clean (s @ t) \<longleftrightarrow> clean s \<and> clean t"
  by (auto simp: clean_def)

lemma plain_escape: "clean s \<Longrightarrow> \<forall>c \<in> set s. 32 \<le> (of_char c :: nat) \<Longrightarrow> json_escape s = s"
  by (induction s) (auto simp: json_escape_def escape_char_def Let_def)

lemma reads_plain: "clean s \<Longrightarrow> \<forall>c \<in> set s. 32 \<le> (of_char c :: nat) \<Longrightarrow> reads (Text s) (quoted s)"
  using reads_text [of s] plain_escape [of s] by simp

lemma clean_digits: "clean (dec_digits n)"
  using digits_value_dec [of n] by (auto simp: clean_def quote_def backslash_def is_digit_def)

lemma clean_format: "clean (format_f x)"
  using clean_digits
  by (cases x) (auto simp: format_f_def fraction_digits_def Let_def quote_def backslash_def clean_def)

lemma reads_digits: "reads (Text (dec_digits n)) (quoted (dec_digits n))"
  using clean_digits digits_value_dec [of n] by (intro reads_plain) (auto simp: is_digit_def)

lemma reads_names:
  "reads (Text (decision_to_string v)) (quoted (decision_to_string v))"
  "reads (Text (perf_to_string p)) (quoted (perf_to_string p))"
  "reads (Text (freshness_to_string f)) (quoted (freshness_to_string f))"
  "reads (Text (thermal_to_string th)) (quoted (thermal_to_string th))"
  "reads (Text (class_to_string pc)) (quoted (class_to_string pc))"
  "reads (Text (provenance_to_string ep)) (quoted (provenance_to_string ep))"
  subgoal by (cases v; intro reads_plain; simp add: quote_def backslash_def)
  subgoal by (cases p; intro reads_plain; simp add: quote_def backslash_def)
  subgoal by (cases f; intro reads_plain; simp add: quote_def backslash_def)
  subgoal by (cases th; intro reads_plain; simp add: quote_def backslash_def)
  subgoal by (cases pc; intro reads_plain; simp add: quote_def backslash_def)
  subgoal by (cases ep; intro reads_plain; simp add: quote_def backslash_def)
  done

definition limit_ok :: "watts option \<Rightarrow> bool" where
  "limit_ok l \<longleftrightarrow> (case l of None \<Rightarrow> True | Some w \<Rightarrow> quantity_ok w)"

definition kinds :: "string list" where
  "kinds = ['''', ''device_hard_cap'', ''budget'', ''thermal'', ''soft_target'', ''freshness'']"

lemma reads_kind: "bk \<in> set kinds \<Longrightarrow> reads (Text bk) (quoted bk)"
  by (rule reads_plain) (auto simp: kinds_def quote_def backslash_def)

lemma reads_limit: "limit_ok l \<Longrightarrow> reads (limit_value l) (case l of Some l \<Rightarrow> format_f l | None \<Rightarrow> ''null'')"
  using reads_fixed by (cases l) (auto simp: limit_ok_def limit_value_def reads_null elim!: quantity_okE)

lemma document_reads:
  assumes "limit_ok (recommended_limit d)" "binding_kind (explanation d) \<in> set kinds" "clean (why (explanation d))"
    "clean (what_would_change (explanation d))" "\<forall>r \<in> set (reasons d). clean r"
  shows "reads (document d) (build_json d)"
proof -
  have "list_all2 reads (map Text (reasons d)) (map (\<lambda>r. quoted (json_escape r)) (reasons d))"
    using assms(5) by (auto simp: list_all2_map1 list_all2_map2 list_all2_same intro: reads_text)
  then have "reads (Array (map Text (reasons d))) (reasons_text d)" unfolding reasons_text_def by (rule reads_array)
  then show ?thesis unfolding build_json_text document_def Let_def using assms(1-4) reads_nat [of "unat (gen_raw (dec_generation d))"]
    by (intro reads_object) (simp_all add: json_fields_def Let_def reads_member_def reads_digits reads_nat reads_names reads_limit reads_kind
        reads_bool reads_text quote_def backslash_def)
qed

section \<open>What a decision says\<close>

lemma hard_limit_ok:
  assumes "input_ok inp" shows "limit_ok (fst (hard_limit inp))" "snd (hard_limit inp) \<in> set kinds"
proof -
  have caps: "\<forall>c \<in> set (caps inp). quantity_ok c" using assms by (simp add: input_ok_def)
  show "limit_ok (fst (hard_limit inp))"
    using hard_limit_min [OF caps] caps by (auto simp: limit_ok_def split: option.splits)
  show "snd (hard_limit inp) \<in> set kinds"
    by (auto simp: hard_limit_def consider_cap_def kinds_def split: option.splits)
qed

definition judgement_ok :: "judgement \<Rightarrow> bool" where
  "judgement_ok j \<longleftrightarrow> (case j of (v, rs, l, bk) \<Rightarrow> (\<forall>r \<in> set rs. clean r) \<and> limit_ok l \<and> bk \<in> set kinds)"

lemma clean_freshness: "clean (freshness_to_string f)"
  by (cases f) (simp_all add: quote_def backslash_def)

lemma early_ok:
  assumes "input_ok inp" "limit_ok (di_soft_target inp)" shows "pred_option judgement_ok (early_verdict inp)"
proof -
  obtain l bk where h: "hard_limit inp = (l, bk)" "limit_ok l" "bk \<in> set kinds"
    using hard_limit_ok [OF assms(1)] by (cases "hard_limit inp") auto
  have k: "''freshness'' \<in> set kinds" "''soft_target'' \<in> set kinds" "limit_ok None" by (simp_all add: kinds_def limit_ok_def)
  show ?thesis unfolding early_verdict_def Let_def h(1) prod.case
    by (simp add: judgement_ok_def h(2,3) k assms(2) clean_freshness clean_format quote_def backslash_def)
qed

lemma default_ok:
  assumes "input_ok inp" "limit_ok (di_soft_target inp)" "default_verdict inp now e = Inr j" shows "judgement_ok j"
proof -
  obtain l bk where h: "hard_limit inp = (l, bk)" "limit_ok l" "bk \<in> set kinds"
    using hard_limit_ok [OF assms(1)] by (cases "hard_limit inp") auto
  have k: "''soft_target'' \<in> set kinds" by (simp add: kinds_def)
  define R where "R = (if di_thermal_known inp \<and> di_thermal_state inp = HOT then [''hot but within hard ceiling; monitoring closely''] else [])
      @ (if di_hardware_throttled inp then [''hardware is already throttled''] else [])"
  define held where "held dt = ''hysteresis holding previous restrictive verdict for '' @ format_f (seconds_f dt) @ ''s''" for dt
  have lit: "clean ''hot but within hard ceiling; monitoring closely''" "clean ''hardware is already throttled''"
    by (simp_all add: quote_def backslash_def)
  have held: "clean (held dt)" for dt by (simp add: held_def clean_format quote_def backslash_def)
  have R: "\<forall>r \<in> set R. clean r" unfolding R_def using lit by (auto simp del: clean_simps)
  obtain v rs l' bk' where j: "j = (v, rs, l', bk')" by (cases j)
  have "(rs = R \<or> (\<exists>dt. rs = R @ [held dt])) \<and> (l' = l \<and> bk' = bk \<or> l' = di_soft_target inp \<and> bk' = ''soft_target'')"
    using assms(3) unfolding default_verdict_def Let_def h(1) prod.case j R_def [symmetric] held_def [symmetric]
    by (auto split: option.splits if_splits, blast+)
  then show ?thesis unfolding j judgement_ok_def using R held h(2,3) k assms(2) by auto
qed

lemma judge_ok: "input_ok inp \<Longrightarrow> limit_ok (di_soft_target inp) \<Longrightarrow> judge inp now e = Inr j \<Longrightarrow> judgement_ok j"
  using early_ok [of inp] default_ok by (auto simp: judge_def split: option.splits)

lemma clean_join: "\<forall>r \<in> set rs. clean r \<Longrightarrow> clean acc \<Longrightarrow> clean (join_reasons rs acc)"
  by (induction rs arbitrary: acc) (simp_all add: quote_def backslash_def)

lemma explanation_clean:
  assumes "\<forall>r \<in> set rs. clean r"
  shows "clean (why (fill_explanation inp ex rs))" "clean (what_would_change (fill_explanation inp ex rs))"
    "binding_kind (fill_explanation inp ex rs) = binding_kind ex"
  using clean_join [OF assms, of "[]"] by (simp_all add: fill_explanation_def Let_def quote_def backslash_def)

text \<open>For an input of valid quantities, the document of the decision is read back as its fields; the digest is that
  of the text.\<close>

lemma evaluate_document:
  assumes "input_ok inp" "limit_ok (di_soft_target inp)" "evaluate inp now e ctr = Inr (d, e', ctr')"
  shows "read_json (dec_json d) = Some (document d) \<and> dec_digest d = digest_hex (dec_json d) \<and>
    (case recommended_limit d of
       None \<Rightarrow> limit_value (recommended_limit d) = Null
     | Some w \<Rightarrow> (\<exists>q p. w = Fin q \<and> limit_value (recommended_limit d) = Number p \<and> \<bar>p - q\<bar> \<le> 1 / 2000000))"
proof -
  obtain v rs l bk where j: "judge inp now e = Inr (v, rs, l, bk)" "evaluate inp now e ctr = Inr (make_verdict inp now (v, rs, l, bk) e ctr)"
    using assms(3) by (cases "judge inp now e") (auto simp: evaluate_def)
  have ok: "\<forall>r \<in> set rs. clean r" "limit_ok l" "bk \<in> set kinds" using judge_ok [OF assms(1,2) j(1)] by (simp_all add: judgement_ok_def)
  have d: "(d, e', ctr') = make_verdict inp now (v, rs, l, bk) e ctr" using j(2) assms(3) by simp
  have lim: "recommended_limit d = l" using d by (simp add: make_verdict_def Let_def split: prod.splits)
  obtain d0 where d0: "dec_json d = build_json d0" "document d = document d0" "dec_digest d = digest_hex (dec_json d)"
      "reasons d0 = rs" "recommended_limit d0 = l" "explanation d0 = fill_explanation inp (empty_explanation\<lparr>binding_limit := l, binding_kind := bk\<rparr>) rs"
    using d by (simp add: make_verdict_def Let_def document_def split: prod.splits)
  have "reads (document d0) (build_json d0)"
    using ok explanation_clean [OF ok(1)] by (intro document_reads) (simp_all add: d0(4-6))
  then have "read_json (dec_json d) = Some (document d)" using d0(1,2) reads_json by simp
  moreover have "case l of None \<Rightarrow> limit_value l = Null
     | Some w \<Rightarrow> (\<exists>q p. w = Fin q \<and> limit_value l = Number p \<and> \<bar>p - q\<bar> \<le> 1 / 2000000)"
    using ok(2) millionths_near by (auto simp: limit_ok_def limit_value_def elim!: quantity_okE split: option.splits)
  ultimately show ?thesis unfolding lim using d0(3) by simp
qed

end
