(* ===== verification/Validated_Runs.thy ===== *)
theory Validated_Runs
  imports Examples_Proofs Document
begin

text \<open>
  Runs of the governor on validated quantities. The constructors of \<^verbatim>\<open>units.hpp\<close> admit only finite powers that are not
  negative, so every policy, budget and sample that reaches the governor carries such powers. What the governor holds is then always
  well formed, and every decision it takes is safe and documented exactly.
\<close>

section \<open>Steps on validated quantities\<close>

definition policy_quantities_ok :: "power_policy \<Rightarrow> bool" where
  "policy_quantities_ok p \<longleftrightarrow> policy_caps_ok p \<and> cap_ok (pol_soft_target p)"

inductive validated_step :: "governor \<Rightarrow> governor \<Rightarrow> bool" where
  validated_policy: "policy_quantities_ok p \<Longrightarrow> install_policy clk p g = (b, g') \<Longrightarrow> validated_step g g'"
| validated_budget: "budget_cfg_ok bud \<Longrightarrow> install_budget clk bud g = (b, g') \<Longrightarrow> validated_step g g'"
| validated_ingest: "cap_ok (bs_power_limit s) \<Longrightarrow> ingest bcaps s now g = (oid, g') \<Longrightarrow> validated_step g g'"
| validated_domain: "g_add_domain did ty par nm ph g = Inr (i, g') \<Longrightarrow> validated_step g g'"
| validated_plan: "plan_reservation wl pc sc bid pw en pol dev now val g = (r, g') \<Longrightarrow> validated_step g g'"
| validated_validate: "validate_reservation rid pol now g = Inr (r, g') \<Longrightarrow> validated_step g g'"
| validated_reserve: "reserve_reservation rid bg now g = Inr (r, g') \<Longrightarrow> validated_step g g'"
| validated_admit: "admit_reservation rid now g = Inr (r, g') \<Longrightarrow> validated_step g g'"
| validated_activate: "activate_reservation rid bg now g = Inr (r, g') \<Longrightarrow> validated_step g g'"
| validated_release: "release_reservation rid bg now g = Inr (r, g') \<Longrightarrow> validated_step g g'"
| validated_decide: "decide_for bid wl pc req en dur now g = Inr (d, g') \<Longrightarrow> validated_step g g'"
| validated_energy: "g_account_energy wl j pv now g = (u, g') \<Longrightarrow> validated_step g g'"
| validated_control: "validated_step g (log_change k msg clk g)"
| validated_hysteresis: "validated_step g (g_reset_hysteresis g)"
| validated_invalidate: "validated_step g (invalidate_live_telemetry g)"

inductive validated_run :: "governor \<Rightarrow> governor \<Rightarrow> bool" where
  validated_refl: "validated_run g g"
| validated_trans: "validated_run g h \<Longrightarrow> validated_step h k \<Longrightarrow> validated_run g k"

lemma validated_gov_step: "validated_step g h \<Longrightarrow> gov_step g h"
  by (induction rule: validated_step.induct) (blast intro: gov_step.intros)+

section \<open>What the governor holds\<close>

lemma effect_wf: "res_effect (rm, bm) (rm', bm') \<Longrightarrow> wf_bm bm \<Longrightarrow> wf_bm bm'"
  by (erule res_effectE) (auto dest: reserve_op.op_wf release_op.op_wf intro: deactivate_snd(2))

lemma manager_step_wf: "res_step (rm, bm) (rm', bm') \<Longrightarrow> wf_bm bm \<Longrightarrow> wf_bm bm'"
  using res_step_effect effect_wf by blast

definition devices_ok :: "governor \<Rightarrow> bool" where
  "devices_ok g \<longleftrightarrow> (\<forall>ds \<in> snd ` set (gov_devices g). cap_ok (dev_hardware_cap ds))"

definition held_ok :: "governor \<Rightarrow> bool" where
  "held_ok g \<longleftrightarrow> policy_quantities_ok (gov_policy g) \<and> wf_bm (gov_budgets g) \<and> devices_ok g"

lemma held_holdings: "held_ok g \<Longrightarrow> holdings_ok g"
  by (auto simp: held_ok_def policy_quantities_ok_def devices_ok_def holdings_ok_def device_ptr_def split: list.splits)

lemma held_new: "held_ok (new_governor cf ids)"
  by (simp add: held_ok_def new_governor_def allocate_def Let_def devices_ok_def policy_quantities_ok_def policy_caps_ok_def cap_ok_def
      policy_defaults_def empty_policy_def)

lemma ingest_devices_ok:
  assumes "cap_ok (bs_power_limit s)" "ingest bcaps s now g = (oid, g')" "devices_ok g" shows "devices_ok g'"
proof -
  let ?ds = "(device_of g)\<lparr>dev_accel := default_accel, dev_caps := bcaps, dev_obs_gen := gen_next (dev_obs_gen (device_of g))\<rparr>"
  have "cap_ok (dev_hardware_cap (device_of g))"
    using assms(3) by (auto simp: devices_ok_def device_of_def new_device_def cap_ok_def split: option.splits dest!: map_of_SomeD)
  then have ds: "cap_ok (dev_hardware_cap ?ds)" by simp
  obtain e ds1 where p: "ingest_power s now ?ds = (e, ds1)" by force
  then have ds1: "cap_ok (dev_hardware_cap ds1)" using ds assms(1)
    by (auto simp: ingest_power_def Let_def split: option.splits prod.splits)
  have th: "dev_hardware_cap d = dev_hardware_cap ds1" if "ingest_thermal s now ds1 h = (d, h')" for d h h'
    using that by (auto simp: ingest_thermal_def Let_def split: option.splits)
  have put: "devices_ok h" if "gov_devices h = AList.update default_accel d (gov_devices g)" "cap_ok (dev_hardware_cap d)" for h d
    using that assms(3) set_update_subset [of default_accel d "gov_devices g"] by (fastforce simp: devices_ok_def)
  show ?thesis using assms(2) p ds1
    by (auto simp: ingest_def allocate_def Let_def put_device_def split: option.splits prod.splits
        dest: th ingest_thermal_same intro!: put)
qed

lemma decide_devices_ok:
  assumes "decide_for b wl pc req en dur t g = Inr (d, g')" "devices_ok g" shows "devices_ok g'"
proof -
  obtain inp ds where i: "decision_input_for g b pc req en dur t = Inr (inp, ds)"
    and dev: "gov_devices g' = gov_devices (put_first_device ds g)" using assms(1) by (rule decide_forE)
  show ?thesis using i assms(2) unfolding devices_ok_def dev
    by (auto simp: put_first_device_def device_ptr_def split: option.splits list.splits dest!: decision_device_cap)
qed

lemma add_to_devices_caps:
  "add_to_devices j p t ds = Inr ds' \<Longrightarrow> map (\<lambda>x. dev_hardware_cap (snd x)) ds' = map (\<lambda>x. dev_hardware_cap (snd x)) ds"
  by (induction ds arbitrary: ds') auto

lemma energy_devices_ok:
  assumes "g_account_energy wl j pv now g = (u, g')" "devices_ok g" shows "devices_ok g'"
proof -
  have "map (\<lambda>x. dev_hardware_cap (snd x)) (gov_devices g') = map (\<lambda>x. dev_hardware_cap (snd x)) (gov_devices g)"
    using assms(1) by (auto simp: g_account_energy_def Let_def split: sum.splits dest: add_to_devices_caps)
  then have "(\<lambda>x. dev_hardware_cap (snd x)) ` set (gov_devices g') = (\<lambda>x. dev_hardware_cap (snd x)) ` set (gov_devices g)"
    by (metis image_set)
  moreover have "devices_ok h \<longleftrightarrow> (\<forall>c \<in> (\<lambda>x. dev_hardware_cap (snd x)) ` set (gov_devices h). cap_ok c)" for h
    by (auto simp: devices_ok_def)
  ultimately show ?thesis using assms(2) by (simp only:)
qed

section \<open>The invariant\<close>

lemma held_same:
  assumes "held_ok g" "gov_policy h = gov_policy g" "gov_budgets h = gov_budgets g" "devices_ok h" shows "held_ok h"
  using assms by (simp add: held_ok_def)

lemma held_booked:
  assumes "held_ok g" "res_step (managers g) (rm, bm)" "index_if_ok r rid st (g\<lparr>gov_budgets := bm, gov_reservations := rm\<rparr>) = Inr (r', g')"
  shows "held_ok g'"
  using assms(1) manager_step_wf [OF assms(2)] lifecycle_parts [OF assms(3)] by (simp add: held_ok_def devices_ok_def)

lemma held_moved:
  assumes "held_ok g" "index_if_ok r rid st (g\<lparr>gov_reservations := rm\<rparr>) = Inr (r', g')" shows "held_ok g'"
  using assms(1) lifecycle_parts' [OF assms(2)] by (simp add: held_ok_def devices_ok_def)

lemma held_step: "validated_step g h \<Longrightarrow> held_ok g \<Longrightarrow> held_ok h"
proof (induction rule: validated_step.induct)
  case (validated_policy p clk g b g')
  then show ?case by (auto simp: install_policy_def held_ok_def devices_ok_def policy_quantities_ok_def policy_caps_ok_def split: if_splits)
next
  case (validated_budget bud clk g b g')
  then show ?case by (auto simp: install_budget_def held_ok_def devices_ok_def Let_def intro: install_wf split: prod.splits if_splits)
next
  case (validated_ingest s bcaps now g oid g')
  then show ?case using ingest_same [OF validated_ingest.hyps(2)] ingest_devices_ok [OF validated_ingest.hyps]
    by (auto simp: held_ok_def same_managers_def)
next
  case (validated_plan wl pc sc bid pw en pol dev now val g r g')
  then show ?case by (auto simp: plan_reservation_def Let_def held_ok_def devices_ok_def split: prod.splits if_splits)
next
  case (validated_validate rid pol now g r g')
  then show ?case by (auto dest!: lifecycle_decomp(1) intro: held_moved)
next
  case (validated_reserve rid bg now g r g')
  then show ?case by (auto dest!: lifecycle_decomp(2) intro: held_booked res_step.intros)
next
  case (validated_admit rid now g r g')
  then show ?case by (auto dest!: lifecycle_decomp(3) intro: held_moved)
next
  case (validated_activate rid bg now g r g')
  then show ?case by (auto dest!: lifecycle_decomp(4) intro: held_booked res_step.intros)
next
  case (validated_release rid bg now g r g')
  then show ?case by (auto dest!: lifecycle_decomp(5) intro: held_booked res_step.intros)
next
  case (validated_decide bid wl pc req en dur now g d g')
  then show ?case using decide_same [OF validated_decide.hyps] decide_devices_ok [OF validated_decide.hyps]
    by (auto simp: held_ok_def same_managers_def)
next
  case (validated_energy wl j pv now g u g')
  then show ?case using energy_same [OF validated_energy.hyps] energy_devices_ok [OF validated_energy.hyps]
    by (auto simp: held_ok_def same_managers_def)
next
  case (validated_invalidate g)
  then show ?case by (auto simp: invalidate_live_telemetry_def forget_telemetry_def held_ok_def devices_ok_def)
qed (auto simp: g_add_domain_def g_reset_hysteresis_def held_ok_def devices_ok_def Let_def split: if_splits prod.splits)

lemma held_run: "validated_run g h \<Longrightarrow> held_ok g \<Longrightarrow> held_ok h"
  by (induction rule: validated_run.induct) (auto intro: held_step)

lemma validated_held: "validated_run (new_governor cf ids) g \<Longrightarrow> held_ok g"
  using held_run held_new by blast

section \<open>A run\<close>

definition served_policy :: power_policy where
  "served_policy = (policy_defaults (StrongId 9) ''p'')\<lparr>device_hard_cap := Some (Fin 400), pol_generation := gen_first\<rparr>"

definition served_sample :: backend_sample where
  "served_sample = fb_sample (ex_backend (Fin 120) (Fin 45))"

definition served_governor :: governor where
  "served_governor = snd (ingest (fb_capabilities new_fake) served_sample cli_clock
     (snd (install_policy cli_clock served_policy (new_governor cli_config first_ids))))"

lemma served_run: "validated_run (new_governor cli_config first_ids) served_governor"
proof -
  have "cap_ok (bs_power_limit served_sample)"
    by (simp add: cap_ok_def served_sample_def fb_sample_def ex_backend_def fb_set_temperature_def fb_set_power_def new_fake_def)
  moreover have "policy_quantities_ok served_policy"
    by (simp add: policy_quantities_ok_def policy_caps_ok_def cap_ok_def served_policy_def policy_defaults_def empty_policy_def)
  ultimately show ?thesis unfolding served_governor_def
    by (intro validated_trans [OF validated_trans [OF validated_refl]])
      (rule validated_policy [OF _ prod.collapse [symmetric]] validated_ingest [OF _ prod.collapse [symmetric]]; assumption)+
qed

lemma served_decision:
  "\<exists>d g'. decide_for (StrongId 1) (StrongId 1) BATCH (Fin 100) (Fin 0) (Fin 1) cli_clock served_governor = Inr (d, g') \<and> dec_verdict d = ALLOW"
  by (simp add: served_governor_def served_policy_def served_sample_def decision_eval)

section \<open>Properties\<close>

text \<open>C3: An ALLOW of the governor is safe for everything it governs. Whatever calls a new governor has served, on whatever policies,
  budgets and samples the types admit, it allows a request only when a device has reported, its telemetry is current or aging under the
  thresholds of the policy and its thermal state is not constrained or recovering, and only for a power that exceeds none
  of the fleet, node and device caps, the reported hardware limit and the capacity of the budget chain by more than the tolerance.\<close>

theorem governor_allow_is_safe:
  assumes "validated_run (new_governor cf ids) g" "quantity_ok req" "decide_for b wl c req energy dur now g = Inr (d, g')"
    "dec_verdict d = ALLOW"
  shows "(\<exists>ds fs. device_ptr g = Some ds \<and> freshness_of (gov_policy g) (Some ds) now = Inr fs \<and> fs \<in> {CURRENT, AGING} \<and>
      th_state (dev_thermal ds) \<notin> {THERMALLY_CONSTRAINED, RECOVERING}) \<and>
    (\<forall>w. Some w \<in> set (caps_in_force g b) \<longrightarrow> \<not> w + eps9 < req)"
  by (rule holdings_allow_safe [OF held_holdings [OF validated_held [OF assms(1)]] assms(2-4)])

theorem governor_allow_is_safe_witness:
  "\<exists>d g'. decide_for (StrongId 1) (StrongId 1) BATCH (Fin 100) (Fin 0) (Fin 1) cli_clock served_governor = Inr (d, g') \<and>
    (\<forall>w. Some w \<in> set (caps_in_force served_governor (StrongId 1)) \<longrightarrow> \<not> w + eps9 < Fin 100)"
proof -
  obtain d g' where d: "decide_for (StrongId 1) (StrongId 1) BATCH (Fin 100) (Fin 0) (Fin 1) cli_clock served_governor = Inr (d, g')"
    "dec_verdict d = ALLOW" using served_decision by blast
  have "quantity_ok (Fin 100)" by simp
  from governor_allow_is_safe [OF served_run this d] d(1) show ?thesis by blast
qed

text \<open>C4: The document of a decision says what was decided. Whatever calls a new governor has served, on whatever policies, budgets and
  samples the types admit, the JSON text of each of its decisions is read back as one object with the fields of the decision in the order
  they were written: identifier and generation, verdict, performance state, limit, binding constraint, telemetry, thermal state, class,
  burst, evidence, explanation and the list of reasons. The limit in it differs from the one decided by at most half a millionth of a watt, and the digest
  is that of the text.\<close>

theorem decision_document_exact:
  assumes "validated_run (new_governor cf ids) g" "quantity_ok req" "decide_for b wl c req energy dur now g = Inr (d, g')"
  shows "read_json (dec_json d) = Some (document d) \<and> dec_digest d = digest_hex (dec_json d) \<and>
    (case recommended_limit d of
       None \<Rightarrow> limit_value (recommended_limit d) = Null
     | Some w \<Rightarrow> (\<exists>q p. w = Fin q \<and> limit_value (recommended_limit d) = Number p \<and> \<bar>p - q\<bar> \<le> 1 / 2000000))"
  using assms(3)
proof (rule decide_forE)
  fix inp ds e ctr
  assume i: "decision_input_for g b c req energy dur now = Inr (inp, ds)"
    and ev: "evaluate inp now (gov_engine g) (next_decision (gov_ids g)) = Inr (d, e, ctr)"
  have held: "held_ok g" by (rule validated_held [OF assms(1)])
  have "limit_ok (di_soft_target inp)"
    using decision_soft_target [OF i] held by (auto simp: held_ok_def policy_quantities_ok_def cap_ok_def limit_ok_def split: option.splits)
  then show ?thesis using evaluate_document [OF decision_input_Inr(1) [OF i held_holdings [OF held] assms(2)] _ ev] by blast
qed

theorem decision_document_exact_witness:
  "\<exists>d g'. decide_for (StrongId 1) (StrongId 1) BATCH (Fin 100) (Fin 0) (Fin 1) cli_clock served_governor = Inr (d, g') \<and>
    read_json (dec_json d) = Some (document d)"
proof -
  obtain d g' where d: "decide_for (StrongId 1) (StrongId 1) BATCH (Fin 100) (Fin 0) (Fin 1) cli_clock served_governor = Inr (d, g')"
    using served_decision by blast
  have "quantity_ok (Fin 100)" by simp
  from decision_document_exact [OF served_run this d] d show ?thesis by blast
qed

end
