(* ===== verification/Benchmark.thy ===== *)
theory Benchmark
  imports Examples_Proofs
begin

text \<open>
  The benchmark program \<^verbatim>\<open>src/benchmarks/bench_main.cpp\<close>: timed loops over the operations of one governor and a last stage in which
  four threads plan and release reservations on it. What the clock measures is a parameter; the lines depend on nothing else. The
  threads interleave in any order, one locked operation at a time.
\<close>

section \<open>The program\<close>

fun turns :: "nat \<Rightarrow> ('s \<Rightarrow> 's res) \<Rightarrow> 's \<Rightarrow> 's res" where
  "turns 0 f s = Inr s"
| "turns (Suc n) f s = rbind (f s) (turns n f)"

definition bench_setup :: "governor res" where
  "bench_setup =
     (let g = start_governor (\<lambda>p. (device_cap (Fin 402) p)\<lparr>fleet_hard_cap := Some (Fin 5000)\<rparr>);
          g = snd (install_budget cli_clock (plain_budget 1 1 None (Fin 450) ''node'') g);
          g = snd (install_budget cli_clock (plain_budget 2 2 (Some (StrongId 1)) (Fin 402) ''acc'') g)
      in ex_poll (ex_backend (Fin 120) (Fin 45)) cli_clock g)"

definition bench_poll :: "governor \<Rightarrow> governor res" where
  "bench_poll g = ex_poll (ex_backend (Fin 120) (Fin 45)) cli_clock g"

definition bench_decide :: "governor \<Rightarrow> governor res" where
  "bench_decide g = rbind (ex_decide 2 THROUGHPUT (Fin 250) cli_clock g) (\<lambda>(_, g). Inr g)"

definition bench_query :: "governor \<Rightarrow> governor res" where
  "bench_query g = (let _ = g_budget_available g (StrongId 2) in Inr g)"

definition bench_plan :: "u64 \<Rightarrow> watts \<Rightarrow> duration \<Rightarrow> governor \<Rightarrow> res_result \<times> governor" where
  "bench_plan wl pw val g =
     plan_reservation (StrongId wl) THROUGHPUT (StrongId 2) (StrongId 2) pw (Fin 0) gen_first gen_first cli_clock val g"

definition bench_pair :: "governor \<Rightarrow> governor res" where
  "bench_pair g = rbind (seconds 2) (\<lambda>val. case bench_plan 9 (Fin 20) val g of (p, g) \<Rightarrow>
     if ok p then rbind (release_reservation (rr_id p) gen_first cli_clock g) (\<lambda>(_, g). Inr g) else Inr g)"

definition bench_energy :: "governor \<Rightarrow> governor res" where
  "bench_energy g = (case g_account_energy (StrongId 1) (Fin 1) DERIVED cli_clock g of (r, g) \<Rightarrow> rbind r (\<lambda>_. Inr g))"

definition bench_digest :: "governor \<Rightarrow> governor res" where
  "bench_digest g = rbind (state_digest g) (\<lambda>_. Inr g)"

definition bench_message :: power_obs_msg where
  "bench_message = \<lparr>po_worker = StrongId 1, po_boot = StrongId 2, po_epoch = gen_first, po_accel = StrongId 3,
     po_device_gen = Generation 4, po_obs_gen = Generation 5, po_timestamp_ns = 0, po_power_mw = 92000, po_has_power = True,
     po_has_temp = True, po_temp_centi = 3700, po_sm_mhz = 0, po_mem_mhz = 0, po_utilization_bp = 0,
     po_has_util = False, po_energy_mj = 0, po_has_energy = False, po_throttled = False, po_provenance = 1, po_source = ''fake''\<rparr>"

definition bench_frame :: "frame \<Rightarrow> (string + (frame \<times> nat)) res" where
  "bench_frame f = rbind (serialize_frame f) (\<lambda>b. Inr (deserialize_frame b))"

text \<open>The loops of 30000 turns before the threads; the query of the budget leaves no trace.\<close>

definition bench_loops :: "governor \<Rightarrow> governor res" where
  "bench_loops g =
     rbind (turns 30000 bench_poll g) (\<lambda>g.
     rbind (turns 30000 bench_decide g) (\<lambda>g.
     rbind (turns 30000 bench_query g) (\<lambda>g.
     rbind (turns 30000 bench_pair g) (\<lambda>g.
     rbind (turns 30000 bench_energy g) (\<lambda>g.
     rbind (turns 30000 bench_digest g) (\<lambda>g.
     rbind (encode_power_obs bench_message) (\<lambda>p.
     turns 30000 (\<lambda>g. rbind (bench_frame \<lparr>ftype = MSG_POWER_OBSERVATION, payload = p\<rparr>) (\<lambda>_. Inr g)) g)))))))"

definition rate_text :: "nat \<Rightarrow> double \<Rightarrow> string" where
  "rate_text n t = (let s = format_fixed 0 (double_of_int (int n) / (t / lit 1000)) in replicate (8 - length s) (CHR '' '') @ s)"

definition bench_line :: "string \<Rightarrow> nat \<Rightarrow> string \<Rightarrow> double \<Rightarrow> string" where
  "bench_line label n unit t = label @ rate_text n t @ '' ops/s   ('' @ dec_digits n @ '' '' @ unit @ '', '' @ format_fixed 1 t @ '' ms)''"

definition bench_output :: "(nat \<Rightarrow> double) \<Rightarrow> string list" where
  "bench_output t =
     [''Power Governor benchmarks (Release).'',
      bench_line ''observation ingestion     '' 30000 ''obs'' (t 0),
      bench_line ''power-decision evaluation '' 30000 ''decisions'' (t 1),
      bench_line ''budget allocation (query) '' 30000 ''queries'' (t 2),
      bench_line ''reservation create/release '' 30000 ''pairs'' (t 3),
      bench_line ''energy accounting         '' 30000 ''adds'' (t 4),
      bench_line ''state digest (serialize)  '' 30000 ''digests'' (t 5),
      bench_line ''protocol encode/decode     '' 30000 ''frames'' (t 6),
      bench_line ''concurrent reservations    '' 50000 ''ops, 4 threads'' (t 7)]"

section \<open>The threads\<close>

text \<open>A thread between its turns, or one that has planned and still has to release, with the turns that follow.\<close>

datatype bench_thread = Idle nat | Holding reservation_id nat

inductive bench_step :: "duration \<Rightarrow> bench_thread list \<times> governor \<Rightarrow> bench_thread list \<times> governor \<Rightarrow> bool" for val where
  thread_plan: "i < length ts \<Longrightarrow> ts ! i = Idle (Suc n) \<Longrightarrow> bench_plan 55 (Fin 10) val g = (p, g') \<Longrightarrow>
    bench_step val (ts, g) (ts[i := if ok p then Holding (rr_id p) n else Idle n], g')"
| thread_release: "i < length ts \<Longrightarrow> ts ! i = Holding rid n \<Longrightarrow> release_reservation rid gen_first cli_clock g = Inr (r, g') \<Longrightarrow>
    bench_step val (ts, g) (ts[i := Idle n], g')"

inductive bench_run :: "duration \<Rightarrow> bench_thread list \<times> governor \<Rightarrow> bench_thread list \<times> governor \<Rightarrow> bool" for val where
  bench_refl: "bench_run val s s"
| bench_trans: "bench_run val s t \<Longrightarrow> bench_step val t u \<Longrightarrow> bench_run val s u"

text \<open>A thread fails when a call throws, which would end the process.\<close>

definition thread_fails :: "bench_thread list \<times> governor \<Rightarrow> bool" where
  "thread_fails s \<longleftrightarrow> (\<exists>rid n e. Holding rid n \<in> set (fst s) \<and> release_reservation rid gen_first cli_clock (snd s) = Inl e)"

definition bench_threads :: "bench_thread list" where "bench_threads = replicate 4 (Idle 12500)"

section \<open>Planning and releasing\<close>

lemma sub_zero: "state_ok s \<Longrightarrow> sub_reserved (Fin 0) s = s"
  by (cases s) (auto simp: sub_reserved_def b64.rnd_grid elim!: state_okE)

lemma book_same: "wf_bm bm \<Longrightarrow> (\<And>s. state_ok s \<Longrightarrow> f s = s) \<Longrightarrow> book f bs bm = bm"
proof (induction bs)
  case (Cons b bs)
  have "upd_state f b bm = bm"
  proof (cases "map_of bm b")
    case (Some s)
    then have "f s = s" using Cons.prems wf_bmD by blast
    moreover have "map_of al b = Some s \<Longrightarrow> AList.update b s al = al" for al by (induction al) (auto split: if_splits)
    ultimately show ?thesis using Some by (simp add: upd_state_def)
  qed (simp add: upd_state_def)
  then show ?case using Cons by (simp add: book_def)
qed (simp add: book_def)

definition bench_ready :: "budget_manager \<Rightarrow> bool" where
  "bench_ready bm \<longleftrightarrow> wf_bm bm \<and> (\<exists>s. map_of bm (StrongId 2) = Some s \<and> bud_generation (cfg s) = gen_first) \<and>
     (\<forall>x \<in> set (chain bm (StrongId 2)). map_of bm x \<noteq> None)"

lemma zero_release:
  assumes "bench_ready bm" shows "bm_release bm (StrongId 2) (Fin 0) rid gen_first = (True, bm)"
proof -
  have wf: "wf_bm bm" using assms by (simp add: bench_ready_def)
  have "\<not> reserved s + eps9 < Fin 0" if ok: "state_ok s" for s
  proof -
    obtain r where r: "reserved s = Fin r" "0 \<le> r" using ok by (rule state_okE)
    have "Fin 0 \<le> rnd64 (r + eps9_val)" using r(2) eps9_bounds by (intro b64.rnd_ge) (simp_all add: b64.grid_zero)
    then show ?thesis by (cases "rnd64 (r + eps9_val)") (simp_all add: r(1) eps9_Fin)
  qed
  then have "list_all (\<lambda>b. case map_of bm b of None \<Rightarrow> False | Some s \<Rightarrow> \<not> reserved s + eps9 < Fin 0) (chain bm (StrongId 2))"
    using assms wf_bmD [OF wf] by (fastforce simp: bench_ready_def list_all_iff split: option.splits)
  then show ?thesis using assms book_same [OF wf sub_zero] by (auto simp: bench_ready_def bm_release_def bad_amount_def)
qed

definition planned :: "governor \<Rightarrow> reservation_id \<Rightarrow> bool" where
  "planned g rid \<longleftrightarrow> (\<exists>r. map_of (gov_reservations g) rid = Some r \<and> state r = PLANNED \<and> reserved_power r = Fin 0 \<and> res_budget r = StrongId 2)"

lemma planned_released:
  assumes "planned g rid" "bench_ready (gov_budgets g)"
  obtains r g' q where "release_reservation rid gen_first cli_clock g = Inr (r, g')" "gov_budgets g' = gov_budgets g"
    "gov_reservations g' = AList.update rid q (gov_reservations g)" "state q = RELEASED"
proof -
  obtain x where x: "map_of (gov_reservations g) rid = Some x" "state x = PLANNED" "reserved_power x = Fin 0" "res_budget x = StrongId 2"
    using assms(1) by (auto simp: planned_def)
  let ?q = "x\<lparr>state := RELEASED, released_at := cli_clock\<rparr>"
  let ?g = "g\<lparr>gov_reservations := AList.update rid ?q (gov_reservations g),
    gov_index := index_set_state rid (StrongId 2) (workload x) RELEASED (gov_index g)\<rparr>"
  have "release_reservation rid gen_first cli_clock g = Inr (Result True ''released'', ?g)"
    by (simp add: release_reservation_def rm_release_def rm_get_def x zero_release [OF assms(2)] Let_def index_if_ok_def
        update_index_state_def update_conv')
  then show thesis by (rule that [where q = ?q]) simp_all
qed

lemma bench_planned:
  assumes "bench_plan wl pw val g = (p, g')"
  shows "gov_budgets g' = gov_budgets g"
    "if ok p then map_of (gov_reservations g) (rr_id p) = None \<and> planned g' (rr_id p) \<and>
         (\<forall>x. x \<noteq> rr_id p \<longrightarrow> map_of (gov_reservations g') x = map_of (gov_reservations g) x)
     else gov_reservations g' = gov_reservations g"
  using assms by (auto simp: bench_plan_def plan_reservation_def rm_plan_def allocate_def planned_def Let_def update_conv' split: if_splits)

section \<open>The threads leave nothing behind\<close>

definition all_released :: "governor \<Rightarrow> bool" where
  "all_released g \<longleftrightarrow> (\<forall>rid r. map_of (gov_reservations g) rid = Some r \<longrightarrow> state r = RELEASED)"

definition holds :: "bench_thread list \<Rightarrow> nat \<Rightarrow> reservation_id \<Rightarrow> bool" where
  "holds ts i rid \<longleftrightarrow> i < length ts \<and> (\<exists>n. ts ! i = Holding rid n)"

text \<open>Every reservation is released or planned by exactly one thread, and the budgets are as they were.\<close>

definition threads_inv :: "budget_manager \<Rightarrow> bench_thread list \<times> governor \<Rightarrow> bool" where
  "threads_inv bm = (\<lambda>(ts, g). gov_budgets g = bm \<and>
     (\<forall>rid r. map_of (gov_reservations g) rid = Some r \<longrightarrow> state r = RELEASED \<or> (\<exists>i. holds ts i rid)) \<and>
     (\<forall>i rid. holds ts i rid \<longrightarrow> planned g rid) \<and> (\<forall>i j rid. holds ts i rid \<and> holds ts j rid \<longrightarrow> i = j))"

lemma inv_planned: "threads_inv bm (ts, g) \<Longrightarrow> i < length ts \<Longrightarrow> ts ! i = Holding rid n \<Longrightarrow> planned g rid"
  unfolding threads_inv_def holds_def by blast

lemma holds_update: "i < length ts \<Longrightarrow> holds (ts[i := t]) j rid \<longleftrightarrow> (if j = i then \<exists>n. t = Holding rid n else holds ts j rid)"
  by (auto simp: holds_def)

lemma threads_step: "bench_step val s u \<Longrightarrow> bench_ready bm \<Longrightarrow> threads_inv bm s \<Longrightarrow> threads_inv bm u"
proof (induction rule: bench_step.induct)
  case (thread_plan i ts n g p g')
  note b = bench_planned [OF thread_plan.hyps(3)]
  have inv: "threads_inv bm (ts, g)" by fact
  have no: "\<not> holds ts i rid" for rid using thread_plan.hyps(2) by (simp add: holds_def)
  let ?ts = "ts[i := if ok p then Holding (rr_id p) n else Idle n]"
  have others: "holds ?ts j x \<longleftrightarrow> holds ts j x \<or> ok p \<and> j = i \<and> x = rr_id p" for j x
    using no thread_plan.hyps(1) by (auto simp: holds_update)
  have new: "planned g x \<Longrightarrow> ok p \<Longrightarrow> x \<noteq> rr_id p" for x using b(2) by (auto simp: planned_def)
  then have keep: "planned g x \<Longrightarrow> planned g' x" for x using b(2) by (cases "ok p") (simp_all add: planned_def)
  have old: "map_of (gov_reservations g) x = Some r \<or> ok p \<and> x = rr_id p" if "map_of (gov_reservations g') x = Some r" for x r
    using that b(2) by (cases "ok p"; cases "x = rr_id p") simp_all
  have it: "ok p \<Longrightarrow> planned g' (rr_id p)" using b(2) by simp
  have a: "gov_budgets g = bm" "\<And>rid r. map_of (gov_reservations g) rid = Some r \<Longrightarrow> state r = RELEASED \<or> (\<exists>i. holds ts i rid)"
    "\<And>i rid. holds ts i rid \<Longrightarrow> planned g rid" "\<And>i j rid. holds ts i rid \<Longrightarrow> holds ts j rid \<Longrightarrow> i = j"
    using inv unfolding threads_inv_def prod.case by blast+
  show ?case unfolding threads_inv_def prod.case others
  proof (intro conjI allI impI)
    show "gov_budgets g' = bm" using b(1) a(1) by simp
    fix j k x r
    show "state r = RELEASED \<or> (\<exists>j. holds ts j x \<or> ok p \<and> j = i \<and> x = rr_id p)" if "map_of (gov_reservations g') x = Some r"
      using old [OF that] a(2) by blast
    show "planned g' x" if "holds ts j x \<or> ok p \<and> j = i \<and> x = rr_id p" using that a(3) it keep by blast
    show "j = k" if "(holds ts j x \<or> ok p \<and> j = i \<and> x = rr_id p) \<and> (holds ts k x \<or> ok p \<and> k = i \<and> x = rr_id p)"
      using that a(3,4) new by blast
  qed
next
  case (thread_release i ts rid n g r g')
  have "holds ts i rid" using thread_release.hyps by (simp add: holds_def)
  then have "planned g rid" and one: "\<And>j. holds ts j rid \<Longrightarrow> j = i"
    using thread_release.prems(2) unfolding threads_inv_def by blast+
  have ready: "bench_ready (gov_budgets g)" using thread_release.prems by (simp add: threads_inv_def)
  obtain q where g': "gov_budgets g' = gov_budgets g" "gov_reservations g' = AList.update rid q (gov_reservations g)" "state q = RELEASED"
    by (rule planned_released [OF \<open>planned g rid\<close> ready]) (use thread_release.hyps(3) in auto)
  have others: "holds (ts[i := Idle n]) j x \<longleftrightarrow> holds ts j x \<and> x \<noteq> rid" for j x
    using one thread_release.hyps(1,2) by (auto simp: holds_update) (auto simp: holds_def)
  have "planned g' x" if "planned g x" "x \<noteq> rid" for x using that g'(2) by (simp add: planned_def update_conv')
  moreover have "state r = RELEASED \<or> x \<noteq> rid \<and> map_of (gov_reservations g) x = Some r" if "map_of (gov_reservations g') x = Some r" for x r
    using that g'(2,3) by (auto simp: update_conv' split: if_splits)
  ultimately show ?case using thread_release.prems(2) g'(1) unfolding threads_inv_def prod.case others by blast
qed

lemma threads_run: "bench_run val s u \<Longrightarrow> bench_ready bm \<Longrightarrow> threads_inv bm s \<Longrightarrow> threads_inv bm u"
  by (induction rule: bench_run.induct) (auto intro: threads_step)

fun turns_left :: "bench_thread \<Rightarrow> nat" where
  "turns_left (Idle n) = 2 * n"
| "turns_left (Holding rid n) = 2 * n + 1"

lemma sum_list_less:
  fixes f :: "'a \<Rightarrow> nat"
  assumes "i < length ts" "f t < f (ts ! i)" shows "sum_list (map f (ts[i := t])) < sum_list (map f ts)"
proof -
  have "ts = take i ts @ ts ! i # drop (Suc i) ts" by (rule id_take_nth_drop [OF assms(1)])
  then have "sum_list (map f ts) = sum_list (map f (take i ts)) + f (ts ! i) + sum_list (map f (drop (Suc i) ts))"
    by (metis add.assoc list.map(2) map_append sum_list.Cons sum_list_append)
  then show ?thesis using assms by (simp add: upd_conv_take_nth_drop)
qed

lemma bench_step_less:
  assumes "bench_step val s u" shows "sum_list (map turns_left (fst u)) < sum_list (map turns_left (fst s))"
  using assms by induction (auto intro: sum_list_less)

lemma threads_progress:
  assumes "bench_ready bm" "threads_inv bm (ts, g)" "sum_list (map turns_left ts) \<noteq> 0" shows "\<exists>u. bench_step val (ts, g) u"
proof -
  obtain i where i: "i < length ts" "turns_left (ts ! i) \<noteq> 0"
    using assms(3) by (metis (mono_tags, lifting) in_set_conv_nth list.map_comp sum_list_eq_0_iff set_map imageE)
  show ?thesis
  proof (cases "ts ! i")
    case (Idle n)
    then obtain m where "n = Suc m" using i(2) by (cases n) simp_all
    then show ?thesis using Idle thread_plan [OF i(1), of m val g] by (cases "bench_plan 55 (Fin 10) val g") blast
  next
    case (Holding rid n)
    then have "planned g rid" "bench_ready (gov_budgets g)" using inv_planned [OF assms(2) i(1)] assms(1,2) by (simp_all add: threads_inv_def)
    then obtain r g' where "release_reservation rid gen_first cli_clock g = Inr (r, g')" by (rule planned_released)
    then show ?thesis using thread_release [OF i(1) Holding] by blast
  qed
qed

text \<open>The four threads, in whatever order they run: no call throws, the budgets never change, as long as turns are left some thread can
  go on, every step uses up a turn, and when all have joined every reservation is released.\<close>

lemma threads_leave_nothing:
  assumes "bench_ready (gov_budgets g)" "all_released g" "bench_run val (bench_threads, g) (ts, h)"
  shows "\<not> thread_fails (ts, h)" "gov_budgets h = gov_budgets g"
    "sum_list (map turns_left ts) \<noteq> 0 \<Longrightarrow> \<exists>u. bench_step val (ts, h) u"
    "sum_list (map turns_left ts) = 0 \<Longrightarrow> all_released h"
proof -
  have start: "threads_inv (gov_budgets g) (bench_threads, g)"
    using assms(2) by (auto simp: threads_inv_def all_released_def holds_def bench_threads_def)
  have inv: "threads_inv (gov_budgets g) (ts, h)" by (rule threads_run [OF assms(3,1) start])
  then have eq: "gov_budgets h = gov_budgets g" by (simp add: threads_inv_def)
  then show "gov_budgets h = gov_budgets g" .
  show "\<not> thread_fails (ts, h)"
  proof
    assume "thread_fails (ts, h)"
    then obtain rid n e where f: "Holding rid n \<in> set ts" "release_reservation rid gen_first cli_clock h = Inl e" by (auto simp: thread_fails_def)
    then have "planned h rid" using inv_planned [OF inv] by (auto simp: in_set_conv_nth)
    then show False by (rule planned_released) (use assms(1) eq f(2) in auto)
  qed
  show "sum_list (map turns_left ts) \<noteq> 0 \<Longrightarrow> \<exists>u. bench_step val (ts, h) u" by (rule threads_progress [OF assms(1) inv])
  assume "sum_list (map turns_left ts) = 0"
  then have "\<not> holds ts i rid" for i rid by (auto simp: holds_def in_set_conv_nth) (metis nth_mem turns_left.simps(2) add_is_0 one_neq_zero)
  then show "all_released h" using inv by (auto simp: threads_inv_def all_released_def)
qed

section \<open>The loops before the threads\<close>

definition keeps_books :: "(governor \<Rightarrow> governor res) \<Rightarrow> bool" where
  "keeps_books f \<longleftrightarrow> (\<forall>g h. f g = Inr h \<longrightarrow> bench_ready (gov_budgets g) \<longrightarrow> all_released g \<longrightarrow>
     gov_budgets h = gov_budgets g \<and> all_released h)"

lemma same_managers_keeps: "(\<And>g h. f g = Inr h \<Longrightarrow> same_managers g h) \<Longrightarrow> keeps_books f"
  by (simp add: keeps_books_def same_managers_def all_released_def)

lemma keeps_bind: "keeps_books f \<Longrightarrow> keeps_books h \<Longrightarrow> keeps_books (\<lambda>g. rbind (f g) h)"
  unfolding keeps_books_def by auto

lemma keeps_turns: "keeps_books f \<Longrightarrow> keeps_books (turns n f)"
proof (induction n)
  case (Suc n)
  have "turns (Suc n) f = (\<lambda>g. rbind (f g) (turns n f))" by (rule ext) simp
  then show ?case using keeps_bind [OF Suc.prems Suc.IH [OF Suc.prems]] by simp
qed (simp add: keeps_books_def)

lemma keeps_query: "keeps_books bench_query"
  by (rule same_managers_keeps) (simp add: bench_query_def same_managers_def)

lemma keeps_poll: "keeps_books bench_poll"
  by (rule same_managers_keeps) (auto simp: bench_poll_def ex_poll_def poll_def split: prod.splits sum.splits dest: ingest_same)

lemma keeps_decide: "keeps_books bench_decide"
  by (rule same_managers_keeps) (auto simp: bench_decide_def ex_decide_def dest: decide_same)

lemma keeps_energy: "keeps_books bench_energy"
  by (rule same_managers_keeps) (auto simp: bench_energy_def split: prod.splits dest: energy_same)

lemma keeps_digest: "keeps_books bench_digest"
  by (rule same_managers_keeps) (auto simp: bench_digest_def same_managers_def)

lemma keeps_frame: "keeps_books (\<lambda>g. rbind r (\<lambda>_. Inr g))"
  by (rule same_managers_keeps) (auto simp: same_managers_def)

lemma keeps_pair: "keeps_books bench_pair"
  unfolding keeps_books_def
proof (intro allI impI)
  fix g h assume run: "bench_pair g = Inr h" and ready: "bench_ready (gov_budgets g)" and rel: "all_released g"
  obtain val p g1 where p: "seconds 2 = Inr val" "bench_plan 9 (Fin 20) val g = (p, g1)"
    using run by (cases "seconds 2"; cases "bench_plan 9 (Fin 20) (projr (seconds 2)) g") (auto simp: bench_pair_def)
  note b = bench_planned [OF p(2)]
  show "gov_budgets h = gov_budgets g \<and> all_released h"
  proof (cases "ok p")
    case True
    obtain r q where "gov_budgets h = gov_budgets g1" "gov_reservations h = AList.update (rr_id p) q (gov_reservations g1)" "state q = RELEASED"
      by (rule planned_released [of g1 "rr_id p"]) (use run p b True ready in \<open>auto simp: bench_pair_def\<close>)
    then show ?thesis using b True rel by (auto simp: all_released_def update_conv' split: if_splits)
  next
    case False
    then show ?thesis using run p b rel by (simp add: bench_pair_def all_released_def)
  qed
qed

lemma keeps_loops: "keeps_books bench_loops"
proof -
  note loops = keeps_bind [OF keeps_turns [OF keeps_poll]] keeps_bind [OF keeps_turns [OF keeps_decide]]
    keeps_bind [OF keeps_turns [OF keeps_query]] keeps_bind [OF keeps_turns [OF keeps_pair]]
    keeps_bind [OF keeps_turns [OF keeps_energy]] keeps_bind [OF keeps_turns [OF keeps_digest]]
  have "keeps_books (\<lambda>g. rbind (encode_power_obs bench_message) (\<lambda>p.
      turns 30000 (\<lambda>g. rbind (bench_frame \<lparr>ftype = MSG_POWER_OBSERVATION, payload = p\<rparr>) (\<lambda>_. Inr g)) g))"
    using keeps_turns [OF keeps_frame] by (cases "encode_power_obs bench_message") (simp_all add: keeps_books_def)
  then show ?thesis unfolding bench_loops_def [abs_def] by (intro loops)
qed

section \<open>The whole program\<close>

lemma bench_start: obtains g where "bench_setup = Inr g" "bench_ready (gov_budgets g)" "all_released g"
proof -
  have q: "grid64 450" "grid64 402" "grid64 0" by (simp_all add: b64.grid_zero)
  have "\<exists>g. bench_setup = Inr g \<and> gov_reservations g = [] \<and> gov_budgets g =
      [(StrongId 1, \<lparr>cfg = plain_budget 1 1 None (Fin 450) ''node'', reserved = Fin 0, used = Fin 0\<rparr>),
       (StrongId 2, \<lparr>cfg = plain_budget 2 2 (Some (StrongId 1)) (Fin 402) ''acc'', reserved = Fin 0, used = Fin 0\<rparr>)]"
    by (simp add: bench_setup_def start_defs cli_clock_def poll_defs)
  then obtain g where g: "bench_setup = Inr g" "gov_reservations g = []" "gov_budgets g =
      [(StrongId 1, \<lparr>cfg = plain_budget 1 1 None (Fin 450) ''node'', reserved = Fin 0, used = Fin 0\<rparr>),
       (StrongId 2, \<lparr>cfg = plain_budget 2 2 (Some (StrongId 1)) (Fin 402) ''acc'', reserved = Fin 0, used = Fin 0\<rparr>)]"
    by (elim exE conjE) (rule that)
  moreover have "bench_ready (gov_budgets g)" unfolding g(3)
    using q by (auto simp: bench_ready_def wf_bm_def state_ok_def plain_budget_def chain_def chain_loop.simps is_valid_def split: if_splits)
  moreover have "all_released g" by (simp add: all_released_def g(2))
  ultimately show thesis using that by blast
qed

text \<open>The benchmark books nothing for good: whatever the threads' order, after its loops and its threads the budgets of the governor are those of the
  set-up and every reservation is released.\<close>

lemma benchmark_restores:
  assumes "bench_setup = Inr g" "bench_loops g = Inr h" "bench_run val (bench_threads, h) (ts, k)" "sum_list (map turns_left ts) = 0"
  shows "gov_budgets k = gov_budgets g \<and> all_released k"
proof -
  obtain g0 where g0: "bench_setup = Inr g0" "bench_ready (gov_budgets g0)" "all_released g0" by (rule bench_start)
  have "g0 = g" by (rule sum.inject(2) [THEN iffD1]) (use g0(1) assms(1) in \<open>rule trans [OF sym]\<close>)
  then have g: "bench_ready (gov_budgets g)" "all_released g" using g0(2,3) by simp_all
  then have h: "gov_budgets h = gov_budgets g" "all_released h" using keeps_loops assms(2) by (simp_all add: keeps_books_def)
  then show ?thesis using threads_leave_nothing(2,4) [of h val ts k] assms(3,4) g(1) by simp
qed

end
