(* ===== verification/Spec2Isabelle.thy ===== *)
theory Spec2Isabelle
  imports Coordinator_Proofs Cuda_Proofs Sockets Command_Line_Proofs Hardware_Demo Validated_Runs Benchmark
begin

text \<open>
  Power Governor is a header-only C++20 library (\<^verbatim>\<open>src/include/powergovernor\<close>) that decides
  whether work may draw power: it keeps hierarchical budgets, reservations against them, a policy, telemetry with its
  freshness, thermal state, energy and burst accounts, and a decision engine; \<^verbatim>\<open>governor.hpp\<close>
  combines them behind one lock, persists them, and \<^verbatim>\<open>src/tools/distributed.cpp\<close> serves them
  to workers over framed TCP. This development models that code as HOL functions and relations and proves what makes
  it correct. The model is shallow: a class is a record, a method a function on it that returns the changed record, an
  exception a value (\<open>Inl\<close>) of the sum type \<open>'a res\<close>, an
  \<^verbatim>\<open>unordered_map\<close> an association list (its order is the order of iteration, which the code
  does not fix), a static allocator a 64-bit counter, a clock an argument, a \<^verbatim>\<open>noexcept\<close>
  function one that turns exceptions into \<open>Terminate\<close>.

  \<^bold>\<open>Ground.\<close> Prelude holds the result type, its bind and the shared lemmas. Binary64 defines the
  IEEE double as a rational, an infinity or NaN, with rounding to nearest even defined by integer arithmetic, so that
  every rounding of the code is one of the model; its locale of rounding functions has the binary64 rounding as its
  instance. Units and Ids model \<^verbatim>\<open>units.hpp\<close>, \<^verbatim>\<open>clock.hpp\<close> and
  \<^verbatim>\<open>ids.hpp\<close> (validated quantities, checked durations, typed identifiers, generations that
  wrap at 64 bits, UUID text). Util models \<^verbatim>\<open>util.hpp\<close>: FNV digest, CRC-32, JSON, the formats
  of numbers. Scan models what the programs use of the C library to read text: \<^verbatim>\<open>sscanf\<close>,
  \<^verbatim>\<open>stoull\<close>, \<^verbatim>\<open>stoi\<close>, \<^verbatim>\<open>atof\<close> and the lines of
  the standard input. Values has the operators and printed forms of the value types: assignment, equality of
  quantities, policies and decisions.

  \<^bold>\<open>Components.\<close> Authority, Workload, Freshness, Thermal, Policy, Energy, Burst, Domain_Tree,
  History and Index model the headers of the same names. Budget is \<^verbatim>\<open>budget.hpp\<close>; Capacity
  proves its accounting: bookings are all or nothing along the ancestor chain, stale generations are refused until the
  manager is cleared, and the hard maximum holds up to 3 nW per booking. That bound is for runs
  (\<open>ledger_run\<close>) in which every hard maximum is at most \<open>2 ^ 20 - 1\<close> W and is not lowered by
  a re-issue, the chains booked on contain no budget twice, and there are at most \<open>10 ^ 8\<close> bookings, so
  that tolerance and rounding stay small; the code tests none of this, and lemmas show what a budget that is its own
  parent or has the null identifier does to the accounting. Reservation is \<^verbatim>\<open>reservation.hpp\<close>;
  Lifecycle proves that reserved power is conserved (for at most \<open>2 ^ 32\<close> requests of whole watts up to
  \<open>2 ^ 20\<close> on chains without repetition, where the sums of doubles are exact), that the life cycle only
  advances and nothing is released twice. Decision is \<^verbatim>\<open>decision_engine.hpp\<close>: an ALLOW is safe
  with respect to every cap. Document has a reader of JSON texts as the specification of what the engine writes: the
  document of a decision is read back as its fields; the locale \<open>json_items\<close> states how the writer
  separates items, and its members and its elements are the instances.

  \<^bold>\<open>The governor.\<close> Backend models \<^verbatim>\<open>backend.hpp\<close>: the locale
  \<open>limit_control\<close> states what a backend promises of the limit it tracks, \<open>control_backend\<close>
  extends it by samples that show the requests, and the fake backend is an instance. Governor has one definition per
  operation of \<^verbatim>\<open>governor.hpp\<close>. Governor_Runs is the step relation of the operations of a
  governor in service, in any order: every public operation that changes it but \<^verbatim>\<open>load\<close> (a
  \<^verbatim>\<open>save\<close> is covered, as it only adds to the history) and calls on the manager that
  \<^verbatim>\<open>budget_manager()\<close> hands out. It shows that the governor refines its managers, and the
  invariants that tie index, policy, fence and devices. Governor_Safety and Governor_Effects lift the properties of
  the parts: an ALLOW respects caps, budget chain, freshness and thermal state together; the index answers like a
  scan, expired reservations apart; power is conserved while the governor serves; the policy never rolls back while no
  state is loaded. Validated_Runs restricts the steps to quantities the types admit and shows that a new governor then
  always holds valid ones, so that each ALLOW is safe and each document exact, with no assumption on the state.
  Fresh_Decisions says what the engine is asked about a device with current telemetry, and how its tolerance decides
  on whole watts.

  \<^bold>\<open>Persistence.\<close> Codec models the writers and readers that
  \<^verbatim>\<open>protocol.hpp\<close> and \<^verbatim>\<open>persistence.hpp\<close> share: the locale
  \<open>codec\<close> states that a field is read back whatever follows, and \<open>message\<close> that a payload is
  exact. Persistence is the sealed envelope and the atomic file write, with the file system as a map and what its
  calls report as parameters. Snapshot models \<^verbatim>\<open>encode_state\<close>,
  \<^verbatim>\<open>decode_state\<close>, \<^verbatim>\<open>validate_budget_hierarchy\<close>,
  \<^verbatim>\<open>save\<close> and \<^verbatim>\<open>load\<close> step by step, as decoding changes the governor
  even where it gives up. Snapshot_Proofs states the counted sections once as the locale
  \<open>stored_section\<close>; Recovery proves the round trip for whole quantities up to \<open>2 ^ 43\<close>
  (others are stored to the milliunit) of budgets that pass the hierarchy check and tables within the format's limit
  of 100000 records, the trace a refused load leaves, that a load can roll the policy back, and that the hierarchy
  check excludes cycles.

  \<^bold>\<open>Hardware.\<close> Cuda_Backend models \<^verbatim>\<open>nvidia_cuda_backend.cpp\<close>,
  \<^verbatim>\<open>backend_cuda.hpp\<close> and the probe of \<^verbatim>\<open>pg_cuda_backend.cu\<close>. The
  entry points of NVML are a record of optional functions on the state of a driver, which the binding looks up once,
  and what the CUDA runtime answers is a record; no law is assumed of either. Cuda_Proofs interprets
  \<open>limit_control\<close> by the NVML backend and shows that a sample carries what the driver reported and
  nothing else, that the driver is never asked for a limit outside 1 W to 999 W, that a restore is reported without
  being made, and that the kernel computes the reference. Hardware_Demo models
  \<^verbatim>\<open>examples/rtx5090.cpp\<close>, which runs that backend under a governor, and shows that its
  constrained stage is never allowed, whatever the machine does.

  \<^bold>\<open>Distribution.\<close> Protocol models the frames and messages of
  \<^verbatim>\<open>protocol.hpp\<close>; Transport the loops of \<^verbatim>\<open>net.hpp\<close> over the socket
  calls, whose documented behaviour is the locales \<open>stream_source\<close> and \<open>stream_sink\<close>;
  Sockets has the opening of connections and that a failed one leaves no socket open. Coordinator and Worker model
  \<^verbatim>\<open>distributed.cpp\<close>: a message is handled in phases, one per locked region, and the process
  is a step relation in which the phases of all connections and the control commands interleave. Coordinator_Proofs
  shows that the fence is exact and moves its high-water marks as it should, that rolling the epoch fences the past in
  every interleaving, that a registered worker is heard, and what ends the process. Console is the text side: the
  command lines of both programs, their loops over the standard input and their arguments; a script of worker commands
  is read back as it was written.

  \<^bold>\<open>Command line.\<close> Command_Line models \<^verbatim>\<open>main.cpp\<close>: the set-up of its
  governor, every command with the lines it prints, and the dispatch to the two distributed programs.
  Command_Line_Proofs shows what the decision command answers for every argument, and that a state one run saves is
  refused by every later run. Examples has the programs of \<^verbatim>\<open>src/examples\<close> that need no
  hardware, and Examples_Proofs what they print; Hardware_Demo is the one that does. Benchmark is
  \<^verbatim>\<open>bench_main.cpp\<close>: its loops, and its four threads as an interleaving of locked operations,
  leave the budgets as they were.

  \<^bold>\<open>Loops and fuel.\<close> No definition that models code uses fuel; the specifying reader of Document
  bounds its depth by the length of the text, which its lemmas show to be enough for every document. The walks over
  budgets carry the guards of the code (64 for a chain, 256 for the hierarchy check); the walk over domains has none
  and is a partial function, proved to return on every tree the code can build; the receiving loop ends because every
  call delivers a byte or fails; all other loops run over a list or a counter and are total functions.

  \<^bold>\<open>Not modelled.\<close> The reading of the operating system's clock (time is an argument), the threads
  of the coordinator in its entry point (their interleaving is the step relation of Coordinator), the vendor libraries
  behind the NVML and CUDA calls, and the tests. Data races are outside the model: every operation is atomic under the
  lock the code takes. An operation that is undefined behaviour in C++ (signed overflow, an out-of-range cast, a call
  through a null pointer) has the error \<open>Undefined\<close>.
\<close>

end
